theory Spec2Isabelle
  imports Main "HOL-Library.List_Lexorder" "HOL-Library.Product_Lexorder"
begin

section \<open>Python strings and cell values\<close>

text \<open>
  A Python \<open>str\<close> is a sequence of Unicode code points, so it is modelled as a list of
  natural numbers (the code points). Plain ASCII literals are written with \<open>ascii\<close>;
  other characters appear as their code point (\<open>193\<close> is A with acute accent, \<open>8211\<close> the
  en dash, \<open>8212\<close> the em dash).
\<close>

type_synonym pystr = "nat list"

definition ascii :: "string \<Rightarrow> pystr" where
  "ascii s = map of_char s"

text \<open>
  \<open>str.isspace\<close> / the regular expression class \<open>\s\<close> (both are CPython's
  \<open>Py_UNICODE_ISSPACE\<close>), and \<open>str.isdecimal\<close> / the class \<open>\d\<close> (Unicode category Nd, the
  table of Unicode 14.0 shipped with CPython 3.11: runs of ten digits starting at the listed
  code points, and the fifty mathematical digits from 120782).
\<close>

definition is_space :: "nat \<Rightarrow> bool" where
  "is_space c = (c \<in> set [9, 10, 11, 12, 13, 28, 29, 30, 31, 32, 133, 160, 5760,
                            8232, 8233, 8239, 8287, 12288] \<or> (8192 \<le> c \<and> c \<le> 8202))"

definition nd_starts :: "nat list" where
  "nd_starts = [48, 1632, 1776, 1984, 2406, 2534, 2662, 2790, 2918, 3046, 3174, 3302, 3430,
     3558, 3664, 3792, 3872, 4160, 4240, 6112, 6160, 6470, 6608, 6784, 6800, 6992, 7088, 7232,
     7248, 42528, 43216, 43264, 43472, 43504, 43600, 44016, 65296, 66720, 68912, 69734, 69872,
     69942, 70096, 70384, 70736, 70864, 71248, 71360, 71472, 71904, 72016, 72784, 73040, 73120,
     92768, 92864, 93008, 123200, 123632, 125264, 130032]"

definition is_decimal :: "nat \<Rightarrow> bool" where
  "is_decimal c = ((\<exists>s \<in> set nd_starts. s \<le> c \<and> c < s + 10) \<or> (120782 \<le> c \<and> c < 120832))"

definition is_ascii_letter :: "nat \<Rightarrow> bool" where
  "is_ascii_letter c = ((65 \<le> c \<and> c \<le> 90) \<or> (97 \<le> c \<and> c \<le> 122))"

text \<open>\<open>s.strip()\<close>: whitespace removed at both ends.\<close>

definition strip :: "pystr \<Rightarrow> pystr" where
  "strip s = rev (dropWhile is_space (rev (dropWhile is_space s)))"

text \<open>\<open>s.find(sub)\<close>: the index of the first occurrence of \<open>sub\<close>, and \<open>sub in s\<close>.\<close>

fun find_sub :: "pystr \<Rightarrow> pystr \<Rightarrow> nat option" where
  "find_sub sub [] = (if sub = [] then Some 0 else None)"
| "find_sub sub (c # cs) =
     (if take (length sub) (c # cs) = sub then Some 0 else map_option Suc (find_sub sub cs))"

definition contains :: "pystr \<Rightarrow> pystr \<Rightarrow> bool" where
  "contains sub s = (find_sub sub s \<noteq> None)"

datatype py_error = KeyError pystr | TypeError | ValueError | StopIteration | OutOfBoundsDatetime

text \<open>
  \<open>s.split(sep, 1)\<close>: at most one split, at the first occurrence of \<open>sep\<close>; an empty
  separator raises \<open>ValueError\<close>.
\<close>

definition split1 :: "pystr \<Rightarrow> pystr \<Rightarrow> py_error + pystr list" where
  "split1 sep s =
     (if sep = [] then Inl ValueError
      else case find_sub sep s of
             None \<Rightarrow> Inr [s]
           | Some i \<Rightarrow> Inr [take i s, drop (i + length sep) s])"

text \<open>\<open>str(n)\<close> for an integer: its decimal digits, with a minus sign when negative.\<close>

fun dec_digits :: "nat \<Rightarrow> pystr" where
  "dec_digits n = (if n < 10 then [48 + n] else dec_digits (n div 10) @ [48 + n mod 10])"

declare dec_digits.simps [simp del]

definition str_int :: "int \<Rightarrow> pystr" where
  "str_int i = (if i < 0 then 45 # dec_digits (nat (- i)) else dec_digits (nat i))"

text \<open>
  Calendar dates. A pandas \<open>Timestamp\<close> also carries a time of day; the date cells of
  this model are days, at midnight, so a date cell is its year, month and day.
\<close>

datatype date = Date (ano: nat) (mes: nat) (dia: nat)

text \<open>Zero-padded decimal, as \<open>%d\<close>, \<open>%m\<close> and \<open>%Y\<close> print it.\<close>

definition pad :: "nat \<Rightarrow> nat \<Rightarrow> pystr" where
  "pad w n = replicate (w - length (dec_digits n)) 48 @ dec_digits n"

text \<open>
  A cell of a table: Python's \<open>None\<close>, the floating-point NaN that pandas stores for an
  empty cell, a text, a whole number (\<open>int\<close>), a floating-point number, a date, or the
  missing date \<open>NaT\<close>. \<open>None\<close>, NaN and \<open>NaT\<close> are the missing values of \<open>dropna\<close> /
  \<open>pd.isna\<close>.

  A floating-point cell is written as the decimal number that Python prints for it, the
  shortest one that reads back as the same float: \<open>VFloat m e\<close> is \<open>m\<close> times ten to the
  power \<open>e\<close>, so \<open>7.0\<close> is \<open>VFloat 7 0\<close> and \<open>1.01\<close> is \<open>VFloat 101 (- 2)\<close>. pandas stores a
  column of numbers that has an empty cell as floats, so the whole numbers of such a column
  are cells like \<open>VFloat 7 0\<close>. The infinities and the negative zero are not represented.
\<close>

datatype val = VNone | VNaN | VStr pystr | VInt int | VFloat int int | VData date | VNaT

fun isna :: "val \<Rightarrow> bool" where
  "isna VNone = True"
| "isna VNaN = True"
| "isna VNaT = True"
| "isna (VStr s) = False"
| "isna (VInt i) = False"
| "isna (VFloat m e) = False"
| "isna (VData d) = False"

fun is_str :: "val \<Rightarrow> bool" where
  "is_str (VStr s) = True"
| "is_str v = False"

text \<open>
  \<open>repr\<close> of a float, which is also its \<open>str\<close>. With the digits \<open>ds\<close> of the number
  (no zeros at the end) and the position \<open>decpt\<close> of the decimal point counted from the first
  digit, Python prints positional notation when \<open>-4 < decpt \<le> 16\<close>, always with a decimal
  point (\<open>7.0\<close>, \<open>0.0001\<close>, \<open>1234.5\<close>), and otherwise the exponent notation with a signed
  exponent of at least two digits (\<open>1e+16\<close>, \<open>1.5e-05\<close>).
\<close>

fun sem_zeros :: "nat \<Rightarrow> nat \<times> nat" where
  "sem_zeros n =
     (if n = 0 \<or> n mod 10 \<noteq> 0 then (n, 0)
      else case sem_zeros (n div 10) of (a, k) \<Rightarrow> (a, Suc k))"

declare sem_zeros.simps [simp del]

definition repr_float :: "int \<Rightarrow> int \<Rightarrow> pystr" where
  "repr_float m e =
     (case sem_zeros (nat \<bar>m\<bar>) of
        (a, k) \<Rightarrow>
          (let ds = dec_digits a;
               n = int (length ds);
               decpt = (if a = 0 then 1 else n + e + int k)
           in (if m < 0 then [45] else []) @
              (if - 4 < decpt \<and> decpt \<le> 16
               then (if decpt \<le> 0 then [48, 46] @ replicate (nat (- decpt)) 48 @ ds
                     else if n \<le> decpt then ds @ replicate (nat (decpt - n)) 48 @ [46, 48]
                     else take (nat decpt) ds @ [46] @ drop (nat decpt) ds)
               else [hd ds] @ (if 1 < n then 46 # tl ds else []) @ [101] @
                    (if decpt - 1 < 0 then [45] else [43]) @ pad 2 (nat \<bar>decpt - 1\<bar>))))"

text \<open>\<open>str(v)\<close>.\<close>

fun py_str :: "val \<Rightarrow> pystr" where
  "py_str VNone = ascii ''None''"
| "py_str VNaN = ascii ''nan''"
| "py_str VNaT = ascii ''NaT''"
| "py_str (VStr s) = s"
| "py_str (VInt i) = str_int i"
| "py_str (VFloat m e) = repr_float m e"
| "py_str (VData d) =
     pad 4 (ano d) @ [45] @ pad 2 (mes d) @ [45] @ pad 2 (dia d) @ ascii '' 00:00:00''"

text \<open>
  Python's \<open>==\<close> on cells that are not missing: two numbers are equal when their values
  are (\<open>1 == 1.0\<close>), and otherwise only cells of the same kind with the same content are.
  \<open>chave v\<close> is the representative of the cells equal to \<open>v\<close>: a float with a whole value is
  represented by that whole number, any other float by its decimal without zeros at the
  end. Two cells are equal exactly when their representatives are the same (between a
  whole number and a float this is exact below 2 to the power 53, where a float with a whole
  value prints all its digits).
\<close>

fun chave :: "val \<Rightarrow> val" where
  "chave (VFloat m e) =
     (case sem_zeros (nat \<bar>m\<bar>) of
        (a, k) \<Rightarrow>
          if a = 0 then VInt 0
          else if 0 \<le> e + int k then VInt (sgn m * int a * 10 ^ nat (e + int k))
          else VFloat (sgn m * int a) (e + int k))"
| "chave v = v"

section \<open>Decomposing a category label (\<open>MapeadorCategorias._limpar_categoria\<close>)\<close>

definition separadores :: "pystr list" where
  "separadores = [[32, 45, 32], [32, 8211, 32], [32, 8212, 32], [32, 124, 32], [58, 32],
                  [32, 58, 58, 32]]"

text \<open>
  The two regular expressions \<open>^(\d+(?:\.\d+)*)\s+(.+)$\<close> and
  \<open>^([A-Za-z]\d+(?:\.\d+)*)\s+(.+)$\<close>, matched with \<open>re.match\<close>.

  \<open>dotted d s\<close> accepts the language of \<open>\d+(?:\.\d+)*\<close> when started with
  \<open>d = False\<close>; the flag says that the previous character was a digit.
\<close>

fun dotted :: "bool \<Rightarrow> pystr \<Rightarrow> bool" where
  "dotted d [] = d"
| "dotted d (c # cs) =
     (if is_decimal c then dotted True cs
      else if c = 46 \<and> d then dotted False cs
      else False)"

definition codigo_numerico :: "pystr \<Rightarrow> bool" where
  "codigo_numerico s = dotted False s"

fun codigo_letra :: "pystr \<Rightarrow> bool" where
  "codigo_letra [] = False"
| "codigo_letra (c # cs) = (is_ascii_letter c \<and> dotted False cs)"

text \<open>
  \<open>(.+)$\<close> at a given position: the dot matches anything but the line feed (10), and
  \<open>$\<close> holds at the end of the text or just before a final line feed.
\<close>

definition dot_plus_end :: "pystr \<Rightarrow> pystr option" where
  "dot_plus_end t =
     (let run = takeWhile (\<lambda>c. c \<noteq> 10) t; after = dropWhile (\<lambda>c. c \<noteq> 10) t
      in if run \<noteq> [] \<and> (after = [] \<or> after = [10]) then Some run else None)"

text \<open>
  \<open>\s+(.+)$\<close> with backtracking: \<open>\s+\<close> first takes all \<open>k\<close> leading whitespace
  characters and gives them back one at a time until the rest matches.
\<close>

fun ws_then_text :: "nat \<Rightarrow> pystr \<Rightarrow> pystr option" where
  "ws_then_text 0 rest = None"
| "ws_then_text (Suc k) rest =
     (case dot_plus_end (drop (Suc k) rest) of
        Some g \<Rightarrow> Some g
      | None \<Rightarrow> ws_then_text k rest)"

text \<open>
  The whole pattern. The code group contains no whitespace and must be followed by
  whitespace, so it can only be the prefix up to the first whitespace character.
\<close>

definition re_match_codigo :: "(pystr \<Rightarrow> bool) \<Rightarrow> pystr \<Rightarrow> (pystr \<times> pystr) option" where
  "re_match_codigo codigo_ok s =
     (let codigo = takeWhile (\<lambda>c. \<not> is_space c) s;
          rest = dropWhile (\<lambda>c. \<not> is_space c) s
      in if codigo_ok codigo
         then map_option (Pair codigo) (ws_then_text (length (takeWhile is_space rest)) rest)
         else None)"

text \<open>The loop over the separators: the first separator of the list that occurs wins.\<close>

fun tentar_separadores :: "pystr list \<Rightarrow> pystr \<Rightarrow> (py_error + (pystr \<times> pystr)) option" where
  "tentar_separadores [] texto = None"
| "tentar_separadores (separador # resto) texto =
     (if contains separador texto
      then (case split1 separador texto of
              Inl e \<Rightarrow> Some (Inl e)
            | Inr partes \<Rightarrow>
                (if length partes = 2
                 then Some (Inr (strip (partes ! 0), strip (partes ! 1)))
                 else tentar_separadores resto texto))
      else tentar_separadores resto texto)"

definition texto_de :: "val \<Rightarrow> pystr" where
  "texto_de categoria_texto =
     strip (if is_str categoria_texto then py_str categoria_texto
            else if categoria_texto \<noteq> VNone then py_str categoria_texto else [])"

definition limpar_categoria :: "val \<Rightarrow> py_error + (pystr \<times> pystr)" where
  "limpar_categoria categoria_texto =
     (let texto = texto_de categoria_texto
      in case tentar_separadores separadores texto of
           Some r \<Rightarrow> r
         | None \<Rightarrow>
            (case re_match_codigo codigo_numerico texto of
               Some (codigo, nome) \<Rightarrow> Inr (codigo, nome)
             | None \<Rightarrow>
                (case re_match_codigo codigo_letra texto of
                   Some (codigo, nome) \<Rightarrow> Inr (codigo, nome)
                 | None \<Rightarrow> Inr ([], texto))))"


section \<open>Tables (pandas \<open>DataFrame\<close>)\<close>

text \<open>
  A table is stored by column, as pandas does: the number of rows and the list of columns in
  order, each a name with its cells. In a well-formed table the column names are distinct
  (the spreadsheet reader renames repeated headers) and every column has one cell per row.
\<close>

record frame =
  nrows :: nat
  cols :: "(pystr \<times> val list) list"

definition columns :: "frame \<Rightarrow> pystr list" where
  "columns df = map fst (cols df)"

definition wf_frame :: "frame \<Rightarrow> bool" where
  "wf_frame df = (distinct (columns df) \<and> list_all (\<lambda>kv. length (snd kv) = nrows df) (cols df))"

text \<open>\<open>df[c]\<close>: the cells of column \<open>c\<close>, or \<open>KeyError\<close>.\<close>

definition get_col :: "frame \<Rightarrow> pystr \<Rightarrow> py_error + val list" where
  "get_col df c = (case map_of (cols df) c of None \<Rightarrow> Inl (KeyError c) | Some vs \<Rightarrow> Inr vs)"

text \<open>\<open>df[c] = values\<close>: replaces the column if it exists, else appends it at the end.\<close>

definition set_col :: "frame \<Rightarrow> pystr \<Rightarrow> val list \<Rightarrow> frame" where
  "set_col df c vs =
     (if c \<in> set (columns df)
      then df\<lparr>cols := map (\<lambda>kv. if fst kv = c then (c, vs) else kv) (cols df)\<rparr>
      else df\<lparr>cols := cols df @ [(c, vs)]\<rparr>)"

text \<open>\<open>df[c] = v\<close> with a scalar: the same value on every row.\<close>

definition set_col_scalar :: "frame \<Rightarrow> pystr \<Rightarrow> val \<Rightarrow> frame" where
  "set_col_scalar df c v = set_col df c (replicate (nrows df) v)"

text \<open>
  \<open>df[names]\<close>: the named columns in the order asked for (every column carrying a
  requested name, should a name be repeated in the table), or \<open>KeyError\<close> for the first
  name that is absent.
\<close>

definition select_cols :: "frame \<Rightarrow> pystr list \<Rightarrow> py_error + frame" where
  "select_cols df names =
     (case filter (\<lambda>c. c \<notin> set (columns df)) names of
        c # _ \<Rightarrow> Inl (KeyError c)
      | [] \<Rightarrow> Inr (df\<lparr>cols := concat (map (\<lambda>c. filter (\<lambda>kv. fst kv = c) (cols df)) names)\<rparr>))"

text \<open>\<open>df.drop(c, axis=1)\<close> for a column that exists, \<open>df.empty\<close>,
  and \<open>pd.DataFrame(columns=names)\<close>.\<close>

definition drop_col :: "frame \<Rightarrow> pystr \<Rightarrow> frame" where
  "drop_col df c = df\<lparr>cols := filter (\<lambda>kv. fst kv \<noteq> c) (cols df)\<rparr>"

definition is_empty :: "frame \<Rightarrow> bool" where
  "is_empty df = (nrows df = 0 \<or> cols df = [])"

definition empty_frame :: "pystr list \<Rightarrow> frame" where
  "empty_frame names = \<lparr>nrows = 0, cols = map (\<lambda>c. (c, [])) names\<rparr>"

text \<open>
  \<open>series.dropna()\<close> and \<open>series.unique()\<close>: the values in order of first appearance,
  a value being dropped when an equal one came before it.
\<close>

definition dropna :: "val list \<Rightarrow> val list" where
  "dropna vs = filter (\<lambda>v. \<not> isna v) vs"

fun unique :: "val list \<Rightarrow> val list" where
  "unique [] = []"
| "unique (v # vs) = v # filter (\<lambda>w. chave w \<noteq> chave v) (unique vs)"

text \<open>
  \<open>str.lower()\<close> follows the Unicode case tables, which are not part of the repository:
  the functions that call it take the lower-casing function as their parameter \<open>lw\<close>, and
  what is proved about them holds for every \<open>lw\<close>. \<open>lower_latin1\<close> is \<open>str.lower()\<close> on
  Basic Latin and Latin-1 text, which covers the column names of the examples.
\<close>

definition lower_latin1 :: "pystr \<Rightarrow> pystr" where
  "lower_latin1 s =
     map (\<lambda>c. if (65 \<le> c \<and> c \<le> 90) \<or> (192 \<le> c \<and> c \<le> 222 \<and> c \<noteq> 215) then c + 32 else c) s"

section \<open>Column names\<close>

definition c_Categoria :: pystr where "c_Categoria = ascii ''Categoria''"
definition c_Codigo :: pystr where "c_Codigo = ascii ''Codigo''"
definition c_Nome :: pystr where "c_Nome = ascii ''Nome''"
definition c_Data :: pystr where "c_Data = ascii ''Data''"
definition c_Valor :: pystr where "c_Valor = ascii ''Valor''"
definition c_Descricao :: pystr where "c_Descricao = ascii ''Descri'' @ [231, 227] @ ascii ''o''"
definition c_ContaDebito :: pystr where "c_ContaDebito = ascii ''Conta D'' @ [233] @ ascii ''bito''"
definition c_ContaCredito :: pystr where "c_ContaCredito = ascii ''Conta Cr'' @ [233] @ ascii ''dito''"
definition c_Movimentacao :: pystr where "c_Movimentacao = ascii ''Movimenta'' @ [231, 227] @ ascii ''o''"

section \<open>Finding the inconsistent categories (\<open>MapeadorCategorias\<close>)\<close>

definition palavras_chave :: "pystr list" where
  "palavras_chave =
     [ascii ''categoria'', ascii ''plano'', ascii ''conta'', ascii ''classificacao'',
      ascii ''classifica'' @ [231, 227] @ ascii ''o'', ascii ''nome'', ascii ''descricao'',
      ascii ''descri'' @ [231, 227] @ ascii ''o'', ascii ''grupo'', ascii ''tipo'',
      ascii ''receita'', ascii ''despesa'', ascii ''centro'', ascii ''custo'']"

text \<open>
  The test of the fall-back search of \<open>_encontrar_coluna_categoria\<close> on one column: the
  column is stored with dtype \<open>object\<close> (it holds a text or a \<open>None\<close>), not every cell is
  missing, and the first cell that is not missing is a text of more than two characters.
\<close>

definition dtype_object :: "val list \<Rightarrow> bool" where
  "dtype_object vs = (\<exists>v \<in> set vs. is_str v \<or> v = VNone)"

definition coluna_de_texto :: "val list \<Rightarrow> bool" where
  "coluna_de_texto vs =
     (dtype_object vs \<and> \<not> (\<forall>v \<in> set vs. isna v) \<and>
      (let amostra = (case dropna vs of [] \<Rightarrow> VStr [] | v # _ \<Rightarrow> v)
       in is_str amostra \<and> length (py_str amostra) > 2))"

definition encontrar_coluna_categoria :: "(pystr \<Rightarrow> pystr) \<Rightarrow> frame \<Rightarrow> pystr list" where
  "encontrar_coluna_categoria lw df =
     (let colunas_encontradas =
            filter (\<lambda>coluna. \<exists>palavra \<in> set palavras_chave. contains palavra (strip (lw coluna)))
                   (columns df)
      in if colunas_encontradas \<noteq> [] then colunas_encontradas
         else (case filter (\<lambda>kv. coluna_de_texto (snd kv)) (cols df) of
                 [] \<Rightarrow> []
               | kv # _ \<Rightarrow> [fst kv]))"

fun sequence_err :: "('e + 'a) list \<Rightarrow> 'e + 'a list" where
  "sequence_err [] = Inr []"
| "sequence_err (x # xs) =
     (case x of
        Inl e \<Rightarrow> Inl e
      | Inr v \<Rightarrow> (case sequence_err xs of Inl e \<Rightarrow> Inl e | Inr vs \<Rightarrow> Inr (v # vs)))"

definition sufixo_codigo :: pystr where "sufixo_codigo = ascii ''_Codigo''"
definition sufixo_nome_limpo :: pystr where "sufixo_nome_limpo = ascii ''_Nome_Limpo''"

definition processar_categorias_com_codigo :: "frame \<Rightarrow> pystr \<Rightarrow> py_error + frame" where
  "processar_categorias_com_codigo df coluna =
     (case get_col df coluna of
        Inl e \<Rightarrow> Inl e
      | Inr categorias \<Rightarrow>
         (case sequence_err (map limpar_categoria categorias) of
            Inl e \<Rightarrow> Inl e
          | Inr pares \<Rightarrow>
              Inr (set_col (set_col df (coluna @ sufixo_codigo) (map (\<lambda>p. VStr (fst p)) pares))
                           (coluna @ sufixo_nome_limpo) (map (\<lambda>p. VStr (snd p)) pares))))"

text \<open>
  \<open>sorted(values)\<close> on values that went through \<open>dropna\<close>, so texts, numbers and
  dates: texts are ordered by code point, numbers by value (whole numbers and floats
  together, equal ones keeping their order), dates by the calendar, and comparing values of
  two different kinds raises \<open>TypeError\<close>. To compare numbers they are brought to a common
  power of ten \<open>e0\<close>, not above the exponent of any of them.
\<close>

fun is_num :: "val \<Rightarrow> bool" where
  "is_num (VInt i) = True"
| "is_num (VFloat m e) = True"
| "is_num v = False"

fun is_data :: "val \<Rightarrow> bool" where
  "is_data (VData d) = True"
| "is_data v = False"

fun the_str :: "val \<Rightarrow> pystr" where
  "the_str (VStr s) = s"
| "the_str v = []"

fun mantissa :: "val \<Rightarrow> int" where
  "mantissa (VInt i) = i"
| "mantissa (VFloat m e) = m"
| "mantissa v = 0"

fun expoente :: "val \<Rightarrow> int" where
  "expoente (VFloat m e) = e"
| "expoente v = 0"

definition ordem_numero :: "int \<Rightarrow> val \<Rightarrow> int" where
  "ordem_numero e0 v = mantissa v * 10 ^ nat (expoente v - e0)"

fun ordem_data :: "val \<Rightarrow> nat \<times> nat \<times> nat" where
  "ordem_data (VData d) = (ano d, mes d, dia d)"
| "ordem_data v = (0, 0, 0)"

definition py_sorted :: "val list \<Rightarrow> py_error + val list" where
  "py_sorted vs =
     (if length vs \<le> 1 then Inr vs
      else if \<forall>v \<in> set vs. is_str v then Inr (map VStr (sort (map the_str vs)))
      else if \<forall>v \<in> set vs. is_num v
           then Inr (sort_key (ordem_numero (foldr min (map expoente vs) 0)) vs)
      else if \<forall>v \<in> set vs. is_data v then Inr (sort_key ordem_data vs)
      else Inl TypeError)"

text \<open>
  The two optional column arguments: \<open>None\<close> and the empty text are both false in
  \<open>if coluna_manual:\<close>. The transactions column defaults to \<open>Categoria\<close>; the chart column
  defaults to the first column found by \<open>_encontrar_coluna_categoria\<close>, if any.
\<close>

definition coluna_lancamentos :: "pystr option \<Rightarrow> pystr" where
  "coluna_lancamentos coluna_lancamentos_manual =
     (case coluna_lancamentos_manual of
        None \<Rightarrow> c_Categoria
      | Some c \<Rightarrow> if c \<noteq> [] then c else c_Categoria)"

definition coluna_plano :: "(pystr \<Rightarrow> pystr) \<Rightarrow> frame \<Rightarrow> pystr option \<Rightarrow> pystr option" where
  "coluna_plano lw dados_categorias coluna_plano_manual =
     (if coluna_plano_manual \<noteq> None \<and> coluna_plano_manual \<noteq> Some []
      then coluna_plano_manual
      else (case encontrar_coluna_categoria lw dados_categorias of
              [] \<Rightarrow> None
            | c # _ \<Rightarrow> Some c))"

text \<open>
  The statements of the \<open>try\<close> block once both columns are known. The two \<open>set\<close>s are
  kept as the lists of their members; the difference keeps the old categories that are equal
  to no new one.
\<close>

definition analisar_categorias :: "frame \<Rightarrow> frame \<Rightarrow> pystr \<Rightarrow> pystr \<Rightarrow> py_error + val list" where
  "analisar_categorias dados_lancamentos dados_categorias coluna_categoria_lancamentos
       coluna_categoria_plano =
     (case processar_categorias_com_codigo dados_categorias coluna_categoria_plano of
        Inl e \<Rightarrow> Inl e
      | Inr dados_categorias_processados \<Rightarrow>
         (case get_col dados_lancamentos coluna_categoria_lancamentos of
            Inl e \<Rightarrow> Inl e
          | Inr lanc \<Rightarrow>
             (case get_col dados_categorias_processados
                     (coluna_categoria_plano @ sufixo_nome_limpo) of
                Inl e \<Rightarrow> Inl e
              | Inr nomes \<Rightarrow>
                  (let categorias_antigas = unique (dropna lanc);
                       categorias_novas = unique (dropna nomes);
                       categorias_inconsistentes =
                         filter (\<lambda>v. chave v \<notin> set (map chave categorias_novas)) categorias_antigas
                   in py_sorted categorias_inconsistentes))))"

text \<open>
  The function itself. It writes to the user interface with \<open>st.error\<close> and returns a list;
  the result is the pair of the messages written and the outcome, where \<open>Inl\<close> would be an
  exception reaching the caller and \<open>Inr\<close> is a normal return. The \<open>except Exception\<close>
  clause turns every failure of the block into a message and the empty list.
\<close>

datatype st_msg = Coluna_nao_encontrada | Erro_ao_analisar py_error

definition encontrar_categorias_inconsistentes ::
  "(pystr \<Rightarrow> pystr) \<Rightarrow> frame \<Rightarrow> frame \<Rightarrow> pystr option \<Rightarrow> pystr option
     \<Rightarrow> st_msg list \<times> (py_error + val list)" where
  "encontrar_categorias_inconsistentes lw dados_lancamentos dados_categorias
       coluna_lancamentos_manual coluna_plano_manual =
     (case coluna_plano lw dados_categorias coluna_plano_manual of
        None \<Rightarrow> ([Coluna_nao_encontrada], Inr [])
      | Some coluna_categoria_plano \<Rightarrow>
         (case analisar_categorias dados_lancamentos dados_categorias
                 (coluna_lancamentos coluna_lancamentos_manual) coluna_categoria_plano of
            Inl e \<Rightarrow> ([Erro_ao_analisar e], Inr [])
          | Inr inconsistentes \<Rightarrow> ([], Inr inconsistentes)))"

section \<open>Applying the category mapping (\<open>ProcessadorDados._aplicar_mapeamento_categorias\<close>)\<close>

definition colunas_categoria :: "(pystr \<Rightarrow> pystr) \<Rightarrow> frame \<Rightarrow> pystr list" where
  "colunas_categoria lw dados =
     filter (\<lambda>col. col = c_Categoria \<or>
                   (contains (ascii ''categoria'') (lw col) \<and> \<not> contains (ascii ''codigo'') (lw col)) \<or>
                   contains (ascii ''plano'') (lw col))
            (columns dados)"

text \<open>
  One turn of the loop: \<open>mask = df[coluna] == antiga; df.loc[mask, coluna] = nova\<close>.
  \<open>trocar\<close> is its effect on one cell of the column; only a text cell can equal the key,
  which is a text.
\<close>

definition trocar :: "pystr \<times> pystr \<Rightarrow> val \<Rightarrow> val" where
  "trocar par v = (if v = VStr (fst par) then VStr (snd par) else v)"

definition substituir :: "frame \<Rightarrow> pystr \<Rightarrow> pystr \<times> pystr \<Rightarrow> frame" where
  "substituir df coluna par =
     df\<lparr>cols := map (\<lambda>kv. if fst kv = coluna then (fst kv, map (trocar par) (snd kv)) else kv)
                     (cols df)\<rparr>"

text \<open>The mapping is a \<open>dict\<close>, iterated in insertion order: a list of (old, new) pairs.\<close>

definition aplicar_mapeamento_categorias ::
  "(pystr \<Rightarrow> pystr) \<Rightarrow> frame \<Rightarrow> (pystr \<times> pystr) list \<Rightarrow> frame" where
  "aplicar_mapeamento_categorias lw dados_lancamentos mapeamento =
     (case colunas_categoria lw dados_lancamentos of
        [] \<Rightarrow> dados_lancamentos
      | coluna_categoria # _ \<Rightarrow>
          foldl (\<lambda>df par. substituir df coluna_categoria par) dados_lancamentos mapeamento)"

section \<open>The categories table (\<open>ProcessadorDados._processar_categorias\<close>)\<close>

definition c_Codigo_acento :: pystr where "c_Codigo_acento = ascii ''C'' @ [243] @ ascii ''digo''"

definition colunas_possiveis_codigo :: "pystr list" where
  "colunas_possiveis_codigo =
     [c_Codigo_acento, ascii ''Code'', ascii ''ID'', c_Codigo_acento @ ascii '' Pai'']"

definition sep_hifen :: pystr where
  "sep_hifen = ascii '' - ''"

text \<open>The body of the loop over the \<open>Nome\<close> column: (code, clean name) of one item.\<close>

definition separar_nome :: "val \<Rightarrow> py_error + (pystr \<times> pystr)" where
  "separar_nome item =
     (if is_str item \<and> contains sep_hifen (py_str item)
      then (case split1 sep_hifen (py_str item) of
              Inl e \<Rightarrow> Inl e
            | Inr partes \<Rightarrow>
                (if length partes = 2 then Inr (strip (partes ! 0), strip (partes ! 1))
                 else Inr ([], py_str item)))
      else Inr ([], if item \<noteq> VNone then py_str item else []))"

text \<open>The block \<open>if 'Codigo' not in categorias_processadas.columns\<close>.\<close>

definition garantir_codigo :: "frame \<Rightarrow> py_error + frame" where
  "garantir_codigo df =
     (if c_Codigo \<notin> set (columns df)
      then (case find (\<lambda>col. col \<in> set (columns df)) colunas_possiveis_codigo of
              Some coluna_codigo_encontrada \<Rightarrow>
                (case get_col df coluna_codigo_encontrada of
                   Inl e \<Rightarrow> Inl e
                 | Inr vs \<Rightarrow> Inr (set_col df c_Codigo vs))
            | None \<Rightarrow>
                (if c_Nome \<in> set (columns df)
                 then (case get_col df c_Nome of
                         Inl e \<Rightarrow> Inl e
                       | Inr itens \<Rightarrow>
                          (case sequence_err (map separar_nome itens) of
                             Inl e \<Rightarrow> Inl e
                           | Inr pares \<Rightarrow>
                               Inr (set_col (set_col df c_Codigo (map (\<lambda>p. VStr (fst p)) pares))
                                            c_Nome (map (\<lambda>p. VStr (snd p)) pares))))
                 else Inr (set_col df c_Codigo (map (\<lambda>i. VInt (int i)) [1 ..< nrows df + 1]))))
      else Inr df)"

text \<open>
  \<open>series.astype(str)\<close>: the \<open>str\<close> of every cell, except that a column holding only
  dates is stored as \<open>datetime64\<close> and prints a date without its time of day when no cell
  has one.
\<close>

fun data_curta :: "val \<Rightarrow> pystr" where
  "data_curta (VData d) = pad 4 (ano d) @ [45] @ pad 2 (mes d) @ [45] @ pad 2 (dia d)"
| "data_curta v = py_str v"

definition astype_str :: "val list \<Rightarrow> pystr list" where
  "astype_str vs =
     (if \<forall>v \<in> set vs. is_data v \<or> v = VNaT then map data_curta vs else map py_str vs)"

text \<open>
  The block \<open>if 'Nome' not in categorias_processadas.columns\<close>. \<open>any(col for col in ...)\<close>
  asks for a matching column whose name is not the empty text; \<open>next(...)\<close> takes the
  first matching column and raises \<open>StopIteration\<close> when there is none.
\<close>

definition garantir_nome :: "(pystr \<Rightarrow> pystr) \<Rightarrow> frame \<Rightarrow> py_error + frame" where
  "garantir_nome lw df =
     (if c_Nome \<notin> set (columns df)
      then (if \<exists>col \<in> set (columns df). contains (ascii ''nome'') (lw col) \<and> col \<noteq> []
            then (case find (\<lambda>col. contains (ascii ''nome'') (lw col)) (columns df) of
                    None \<Rightarrow> Inl StopIteration
                  | Some nome_col \<Rightarrow>
                      (case get_col df nome_col of
                         Inl e \<Rightarrow> Inl e
                       | Inr vs \<Rightarrow> Inr (set_col df c_Nome vs)))
            else (case get_col df c_Codigo of
                    Inl e \<Rightarrow> Inl e
                  | Inr codigos \<Rightarrow>
                      Inr (set_col df c_Nome
                             (map (\<lambda>t. VStr (ascii ''Categoria '' @ t)) (astype_str codigos)))))
      else Inr df)"

text \<open>The last loop, which collects the columns to keep.\<close>

definition colunas_finais :: "(pystr \<Rightarrow> pystr) \<Rightarrow> frame \<Rightarrow> pystr list" where
  "colunas_finais lw df =
     foldl (\<lambda>finais col.
              if col \<notin> set finais \<and> lw col \<in> set [ascii ''tipo'', ascii ''ativo'', ascii ''descricao'']
              then finais @ [col] else finais)
           [c_Codigo, c_Nome] (columns df)"

definition processar_categorias :: "(pystr \<Rightarrow> pystr) \<Rightarrow> frame \<Rightarrow> py_error + frame" where
  "processar_categorias lw dados_categorias =
     (case garantir_codigo dados_categorias of
        Inl e \<Rightarrow> Inl e
      | Inr com_codigo \<Rightarrow>
         (case garantir_nome lw com_codigo of
            Inl e \<Rightarrow> Inl e
          | Inr categorias_processadas \<Rightarrow>
              select_cols categorias_processadas (colunas_finais lw categorias_processadas)))"

section \<open>Enforcing a column list (\<open>GeradorExcel._garantir_colunas\<close>)\<close>

text \<open>The body of the first loop: a missing column is added, filled with the empty text.\<close>

definition acrescentar :: "frame \<Rightarrow> pystr \<Rightarrow> frame" where
  "acrescentar df coluna =
     (if coluna \<notin> set (columns df) then set_col_scalar df coluna (VStr []) else df)"

definition garantir_colunas :: "frame \<Rightarrow> pystr list \<Rightarrow> py_error + frame" where
  "garantir_colunas dados colunas_esperadas =
     (let dados_final = foldl acrescentar dados colunas_esperadas;
          colunas_existentes = filter (\<lambda>col. col \<in> set (columns dados_final)) colunas_esperadas
      in select_cols dados_final colunas_existentes)"

text \<open>
  What the specification asks of \<open>enforce_columns\<close>, written down directly: exactly the
  required columns, in the required order, each taken from the table when it is there and
  filled with the empty text when it is not.
\<close>

definition colunas_garantidas :: "frame \<Rightarrow> pystr list \<Rightarrow> frame" where
  "colunas_garantidas dados req =
     dados\<lparr>cols := map (\<lambda>c. (c, case map_of (cols dados) c of
                                   Some vs \<Rightarrow> vs
                                 | None \<Rightarrow> replicate (nrows dados) (VStr []))) req\<rparr>"

section \<open>Transfers (\<open>ProcessadorDados._processar_transferencias\<close>)\<close>

definition sep_para :: pystr where
  "sep_para = ascii '' para ''"

text \<open>The body of the loop over the movement column: (debit account, credit account).\<close>

definition contas_da_movimentacao :: "val \<Rightarrow> py_error + (pystr \<times> pystr)" where
  "contas_da_movimentacao movimentacao =
     (if isna movimentacao \<or> \<not> contains sep_para (py_str movimentacao) then Inr ([], [])
      else case split1 sep_para (py_str movimentacao) of
             Inl e \<Rightarrow> Inl e
           | Inr partes \<Rightarrow>
               (if length partes = 2 then Inr (strip (partes ! 0), strip (partes ! 1))
                else Inr ([], [])))"

definition colunas_obrigatorias :: "pystr list" where
  "colunas_obrigatorias = [c_Data, c_Valor, c_Descricao, c_ContaDebito, c_ContaCredito]"

text \<open>
  The current date, which the source reads from the clock (\<open>datetime.now()\<close>) and formats as
  day/month/year, is the parameter \<open>hoje\<close>.
\<close>

definition acrescentar_padrao :: "pystr \<Rightarrow> frame \<Rightarrow> pystr \<Rightarrow> frame" where
  "acrescentar_padrao hoje df coluna =
     (if coluna \<notin> set (columns df)
      then (if coluna = c_Data then set_col_scalar df coluna (VStr hoje)
            else if coluna = c_Valor then set_col_scalar df coluna (VFloat 0 0)
            else set_col_scalar df coluna (VStr []))
      else df)"

definition processar_transferencias :: "pystr \<Rightarrow> frame \<Rightarrow> py_error + frame" where
  "processar_transferencias hoje dados_transferencias =
     (if is_empty dados_transferencias then Inr (empty_frame colunas_obrigatorias)
      else
        case (if c_Movimentacao \<in> set (columns dados_transferencias)
              then (case get_col dados_transferencias c_Movimentacao of
                      Inl e \<Rightarrow> Inl e
                    | Inr movs \<Rightarrow>
                       (case sequence_err (map contas_da_movimentacao movs) of
                          Inl e \<Rightarrow> Inl e
                        | Inr contas \<Rightarrow>
                            Inr (drop_col
                                  (set_col
                                    (set_col dados_transferencias c_ContaDebito
                                       (map (\<lambda>p. VStr (fst p)) contas))
                                    c_ContaCredito (map (\<lambda>p. VStr (snd p)) contas))
                                  c_Movimentacao)))
              else Inr dados_transferencias) of
          Inl e \<Rightarrow> Inl e
        | Inr transferencias_vyco \<Rightarrow>
            select_cols (foldl (acrescentar_padrao hoje) transferencias_vyco colunas_obrigatorias)
                        colunas_obrigatorias)"

section \<open>Accounts and their opening dates (\<open>ProcessadorDados._processar_contas_correntes\<close>)\<close>

definition bissexto :: "nat \<Rightarrow> bool" where
  "bissexto y = (y mod 4 = 0 \<and> (y mod 100 \<noteq> 0 \<or> y mod 400 = 0))"

definition dias_no_mes :: "nat \<Rightarrow> nat \<Rightarrow> nat" where
  "dias_no_mes y m =
     (if m = 2 then (if bissexto y then 29 else 28)
      else if m \<in> set [4, 6, 9, 11] then 30 else 31)"

definition data_valida :: "date \<Rightarrow> bool" where
  "data_valida d = (1 \<le> mes d \<and> mes d \<le> 12 \<and> 1 \<le> dia d \<and> dia d \<le> dias_no_mes (ano d) (mes d))"

definition data_le :: "date \<Rightarrow> date \<Rightarrow> bool" where
  "data_le a b = ((ano a, mes a, dia a) \<le> (ano b, mes b, dia b))"

text \<open>The dates a \<open>Timestamp\<close> can hold: 22 September 1677 to 11 April 2262.\<close>

definition no_intervalo :: "date \<Rightarrow> bool" where
  "no_intervalo d = (data_le (Date 1677 9 22) d \<and> data_le d (Date 2262 4 11))"

text \<open>
  \<open>format='%d/%m/%Y'\<close> and \<open>format='%m/%d/%Y'\<close>. pandas turns the format into a regular
  expression, each directive into a group of alternatives tried in order:
  \<open>%d\<close> is \<open>3[0-1]|[1-2]\d|0[1-9]|[1-9]| [1-9]\<close>, \<open>%m\<close> is \<open>1[0-2]|0[1-9]|[1-9]\<close> and
  \<open>%Y\<close> is \<open>\d\d\d\d\<close>. It takes the first match at the start of the text and rejects the
  text when the match does not reach its end. Each field function returns the matches of
  its group in that order, as (value, rest of the text).
\<close>

definition valor_digito :: "nat \<Rightarrow> nat" where
  "valor_digito c =
     (if 120782 \<le> c \<and> c < 120832 then (c - 120782) mod 10
      else case filter (\<lambda>s. s \<le> c \<and> c < s + 10) nd_starts of s # _ \<Rightarrow> c - s | [] \<Rightarrow> 0)"

definition campo_dia :: "pystr \<Rightarrow> (nat \<times> pystr) list" where
  "campo_dia s =
     (case s of
        a # b # r \<Rightarrow>
          (if a = 51 \<and> (b = 48 \<or> b = 49) then [(30 + (b - 48), r)] else []) @
          (if (a = 49 \<or> a = 50) \<and> is_decimal b then [(10 * (a - 48) + valor_digito b, r)] else []) @
          (if a = 48 \<and> 49 \<le> b \<and> b \<le> 57 then [(b - 48, r)] else [])
      | _ \<Rightarrow> []) @
     (case s of a # r \<Rightarrow> (if 49 \<le> a \<and> a \<le> 57 then [(a - 48, r)] else []) | [] \<Rightarrow> []) @
     (case s of
        a # b # r \<Rightarrow> (if a = 32 \<and> 49 \<le> b \<and> b \<le> 57 then [(b - 48, r)] else [])
      | _ \<Rightarrow> [])"

definition campo_mes :: "pystr \<Rightarrow> (nat \<times> pystr) list" where
  "campo_mes s =
     (case s of
        a # b # r \<Rightarrow>
          (if a = 49 \<and> 48 \<le> b \<and> b \<le> 50 then [(10 + (b - 48), r)] else []) @
          (if a = 48 \<and> 49 \<le> b \<and> b \<le> 57 then [(b - 48, r)] else [])
      | _ \<Rightarrow> []) @
     (case s of a # r \<Rightarrow> (if 49 \<le> a \<and> a \<le> 57 then [(a - 48, r)] else []) | [] \<Rightarrow> [])"

definition campo_ano :: "pystr \<Rightarrow> (nat \<times> pystr) list" where
  "campo_ano s =
     (case s of
        a # b # c # d # r \<Rightarrow>
          (if is_decimal a \<and> is_decimal b \<and> is_decimal c \<and> is_decimal d
           then [(1000 * valor_digito a + 100 * valor_digito b + 10 * valor_digito c +
                  valor_digito d, r)]
           else [])
      | _ \<Rightarrow> [])"

definition barra :: "pystr \<Rightarrow> pystr list" where
  "barra s = (case s of c # r \<Rightarrow> (if c = 47 then [r] else []) | [] \<Rightarrow> [])"

datatype formato = DMY | MDY

text \<open>All matches of the whole expression, first match first: (day, month, year, rest).\<close>

fun casar_formato :: "formato \<Rightarrow> pystr \<Rightarrow> (nat \<times> nat \<times> nat \<times> pystr) list" where
  "casar_formato DMY s =
     concat (map (\<lambda>(d, r1). concat (map (\<lambda>r2. concat (map (\<lambda>(m, r3). concat (map (\<lambda>r4.
        map (\<lambda>(y, r5). (d, m, y, r5)) (campo_ano r4)) (barra r3))) (campo_mes r2))) (barra r1)))
        (campo_dia s))"
| "casar_formato MDY s =
     concat (map (\<lambda>(m, r1). concat (map (\<lambda>r2. concat (map (\<lambda>(d, r3). concat (map (\<lambda>r4.
        map (\<lambda>(y, r5). (d, m, y, r5)) (campo_ano r4)) (barra r3))) (campo_dia r2))) (barra r1)))
        (campo_mes s))"

definition strptime :: "formato \<Rightarrow> pystr \<Rightarrow> date option" where
  "strptime f s =
     (case casar_formato f s of
        [] \<Rightarrow> None
      | (d, m, y, rest) # _ \<Rightarrow>
          (if rest = [] \<and> data_valida (Date y m d) \<and> no_intervalo (Date y m d)
           then Some (Date y m d) else None))"

text \<open>
  \<open>pd.to_datetime(column, format=f, errors='coerce')\<close> on one cell: a date stays, a text
  (or the \<open>str()\<close> of a whole number) is parsed, and a float, which never has the shape of
  these formats, or anything else that does not parse becomes \<open>NaT\<close>.
\<close>

fun to_datetime_formato :: "formato \<Rightarrow> val \<Rightarrow> val" where
  "to_datetime_formato f (VData d) = VData d"
| "to_datetime_formato f (VStr s) = (case strptime f s of Some d \<Rightarrow> VData d | None \<Rightarrow> VNaT)"
| "to_datetime_formato f (VInt i) =
     (case strptime f (str_int i) of Some d \<Rightarrow> VData d | None \<Rightarrow> VNaT)"
| "to_datetime_formato f (VFloat m e) = VNaT"
| "to_datetime_formato f v = VNaT"

text \<open>
  \<open>pd.to_datetime(column, errors='coerce')\<close> on one cell. What pandas guesses for a cell
  that is neither a date nor missing is not part of the repository: it is the parameter
  \<open>inferir\<close>.
\<close>

fun to_datetime_inferido :: "(val \<Rightarrow> val) \<Rightarrow> val \<Rightarrow> val" where
  "to_datetime_inferido inferir (VData d) = VData d"
| "to_datetime_inferido inferir (VStr s) = inferir (VStr s)"
| "to_datetime_inferido inferir (VInt i) = inferir (VInt i)"
| "to_datetime_inferido inferir (VFloat m e) = inferir (VFloat m e)"
| "to_datetime_inferido inferir v = VNaT"

text \<open>
  The three conversions of the date column. Each one overwrites the column, so the second
  and the third read what the one before them wrote.
\<close>

definition converter_datas :: "(val \<Rightarrow> val) \<Rightarrow> val list \<Rightarrow> val list" where
  "converter_datas inferir coluna =
     (let c1 = map (to_datetime_formato DMY) coluna;
          c2 = (if \<forall>v \<in> set c1. isna v then map (to_datetime_formato MDY) c1 else c1);
          c3 = (if \<forall>v \<in> set c2. isna v then map (to_datetime_inferido inferir) c2 else c2)
      in c3)"

text \<open>\<open>series.min()\<close> of the dates of a selection (missing dates are skipped).\<close>

fun data_minima :: "date list \<Rightarrow> date option" where
  "data_minima [] = None"
| "data_minima (d # ds) =
     (case data_minima ds of
        None \<Rightarrow> Some d
      | Some m \<Rightarrow> Some (if data_le d m then d else m))"

fun the_data :: "val \<Rightarrow> date" where
  "the_data (VData d) = d"
| "the_data v = Date 0 0 0"

definition dia_anterior :: "date \<Rightarrow> date" where
  "dia_anterior d =
     (if 1 < dia d then Date (ano d) (mes d) (dia d - 1)
      else if 1 < mes d then Date (ano d) (mes d - 1) (dias_no_mes (ano d) (mes d - 1))
      else Date (ano d - 1) 12 31)"

definition strftime_dmy :: "date \<Rightarrow> pystr" where
  "strftime_dmy d = pad 2 (dia d) @ [47] @ pad 2 (mes d) @ [47] @ pad 4 (ano d)"

text \<open>
  The body of the loop over the accounts: the opening date of one account, from the rows
  whose account cell is equal to it.
\<close>

definition data_inicial :: "val \<Rightarrow> val list \<Rightarrow> val list \<Rightarrow> py_error + pystr" where
  "data_inicial conta contas datas =
     (case data_minima
             (map the_data
                (filter is_data
                   (map snd (filter (\<lambda>p. chave (fst p) = chave conta) (zip contas datas))))) of
        None \<Rightarrow> Inr []
      | Some primeira_data \<Rightarrow>
          (if no_intervalo (dia_anterior primeira_data)
           then Inr (strftime_dmy (dia_anterior primeira_data))
           else Inl OutOfBoundsDatetime))"

definition c_Tipo :: pystr where "c_Tipo = ascii ''Tipo''"
definition c_Ativo :: pystr where "c_Ativo = ascii ''Ativo''"
definition c_DataInicial :: pystr where "c_DataInicial = ascii ''DataInicial''"

definition processar_contas_correntes ::
  "(pystr \<Rightarrow> pystr) \<Rightarrow> (val \<Rightarrow> val) \<Rightarrow> frame \<Rightarrow> py_error + frame" where
  "processar_contas_correntes lw inferir dados_lancamentos =
     (case filter (\<lambda>col. contains (ascii ''conta'') (lw col) \<or> contains (ascii ''banco'') (lw col))
                  (columns dados_lancamentos) of
        [] \<Rightarrow> Inr (empty_frame [c_Codigo, c_Nome, c_Tipo, c_Ativo, c_DataInicial])
      | coluna_conta # _ \<Rightarrow>
         (case filter (\<lambda>col. contains (ascii ''data'') (lw col) \<and> lw col \<noteq> ascii ''datacompetencia'')
                      (columns dados_lancamentos) of
            [] \<Rightarrow>
              (case get_col dados_lancamentos coluna_conta of
                 Inl e \<Rightarrow> Inl e
               | Inr contas \<Rightarrow>
                   (let contas_unicas = unique (dropna contas); n = length contas_unicas
                    in Inr \<lparr>nrows = n,
                            cols = [(c_Codigo, map (\<lambda>i. VInt (int i)) [1 ..< n + 1]),
                                    (c_Nome, contas_unicas),
                                    (c_Tipo, replicate n (VInt 1)),
                                    (c_Ativo, replicate n (VStr (ascii ''Sim''))),
                                    (c_DataInicial, replicate n (VStr []))]\<rparr>))
          | coluna_data # _ \<Rightarrow>
              (case get_col dados_lancamentos coluna_data of
                 Inl e \<Rightarrow> Inl e
               | Inr originais \<Rightarrow>
                  (let dados_com_data =
                         set_col dados_lancamentos coluna_data (converter_datas inferir originais)
                   in case get_col dados_com_data coluna_conta of
                        Inl e \<Rightarrow> Inl e
                      | Inr contas \<Rightarrow>
                         (case get_col dados_com_data coluna_data of
                            Inl e \<Rightarrow> Inl e
                          | Inr datas \<Rightarrow>
                             (let contas_unicas = unique (dropna contas); n = length contas_unicas
                              in case sequence_err
                                        (map (\<lambda>conta. data_inicial conta contas datas) contas_unicas) of
                                   Inl e \<Rightarrow> Inl e
                                 | Inr iniciais \<Rightarrow>
                                     (if contas_unicas = []
                                      then Inr \<lparr>nrows = 0, cols = [(c_Codigo, [])]\<rparr>
                                      else Inr \<lparr>nrows = n,
                                                cols = [(c_Nome, contas_unicas),
                                                        (c_Tipo, replicate n (VInt 1)),
                                                        (c_Ativo, replicate n (VStr (ascii ''Sim''))),
                                                        (c_DataInicial, map VStr iniciais),
                                                        (c_Codigo, map (\<lambda>i. VInt (int i)) [1 ..< n + 1])]\<rparr>)))))))"

section \<open>Example tables\<close>

definition lancamentos_exemplo :: frame where
  "lancamentos_exemplo =
     \<lparr>nrows = 3,
      cols = [(ascii ''Descricao'', [VStr (ascii ''Venda''), VStr (ascii ''Taxa''), VNaN]),
              (c_Categoria, [VStr (ascii ''A''), VStr (ascii ''X''), VStr (ascii ''B'')]),
              (c_Valor, [VInt 1500, VInt (- 25), VInt 7])]\<rparr>"

text \<open>A transfers table without a \<open>Data\<close> column.\<close>

definition transferencias_exemplo :: frame where
  "transferencias_exemplo =
     \<lparr>nrows = 3,
      cols = [(c_Valor, [VInt 500, VInt 10, VInt 0]),
              (c_Movimentacao, [VStr (ascii ''Banco A para Banco B''), VStr (ascii ''Saque''), VNaN])]\<rparr>"

text \<open>Transactions and charts of accounts for the category finder.\<close>

definition lancamentos_vendas :: frame where
  "lancamentos_vendas =
     \<lparr>nrows = 4,
      cols = [(c_Categoria, [VStr (ascii ''Receita Vendas''), VStr (ascii ''Despesa X''),
                             VStr (ascii ''Receita Vendas''), VNaN]),
              (c_Valor, [VInt 1500, VInt (- 800), VInt 2200, VInt 0])]\<rparr>"

definition plano_exemplo :: frame where
  "plano_exemplo = \<lparr>nrows = 1, cols = [(c_Nome, [VStr (ascii ''2.01 - Despesa X'')])]\<rparr>"

definition lancamentos_sem_categoria :: frame where
  "lancamentos_sem_categoria = \<lparr>nrows = 1, cols = [(c_Valor, [VInt 10])]\<rparr>"

definition plano_numerico :: frame where
  "plano_numerico = \<lparr>nrows = 1, cols = [(ascii ''X'', [VInt 1])]\<rparr>"


definition lancamentos_mistos :: frame where
  "lancamentos_mistos =
     \<lparr>nrows = 2, cols = [(c_Categoria, [VStr (ascii ''Receita Vendas''), VInt 2024])]\<rparr>"

text \<open>
  A chart of accounts that has only names: one with a code and \<open>" - "\<close>, one without a
  code, one with a code and no \<open>" - "\<close>, and an empty one.
\<close>

definition txt_agua :: pystr where
  "txt_agua = [193] @ ascii ''GUA''"

definition txt_codigo_agua :: pystr where
  "txt_codigo_agua = ascii ''2.2.1 - '' @ txt_agua"

definition txt_221 :: pystr where
  "txt_221 = ascii ''2.2.1''"

definition plano_dois_nomes :: frame where
  "plano_dois_nomes = \<lparr>nrows = 2, cols = [(c_Nome, [VStr txt_codigo_agua, VStr txt_agua])]\<rparr>"

definition txt_foo :: pystr where
  "txt_foo = ascii ''1.2 Foo''"

definition plano_so_nomes :: frame where
  "plano_so_nomes =
     \<lparr>nrows = 4, cols = [(c_Nome, [VStr txt_codigo_agua, VStr txt_agua, VStr txt_foo, VStr []])]\<rparr>"

text \<open>A chart of accounts with no code, alias or name column.\<close>

definition plano_sem_nada :: frame where
  "plano_sem_nada = \<lparr>nrows = 2, cols = [(ascii ''Grupo'', [VStr (ascii ''a''), VStr (ascii ''b'')])]\<rparr>"

text \<open>
  A chart of accounts with only a code column, read from a sheet with an empty cell, so
  that its numbers are floats; one with an alias of the code column and a column whose name
  contains \<open>nome\<close>; and one with both \<open>Codigo\<close> and \<open>Nome\<close>.
\<close>

definition plano_codigos :: frame where
  "plano_codigos = \<lparr>nrows = 2, cols = [(c_Codigo, [VFloat 7 0, VNaN])]\<rparr>"

definition c_Code :: pystr where "c_Code = ascii ''Code''"
definition c_NomeFantasia :: pystr where "c_NomeFantasia = ascii ''Nome Fantasia''"

definition plano_alias :: frame where
  "plano_alias =
     \<lparr>nrows = 1, cols = [(c_Code, [VStr (ascii ''A1'')]), (c_NomeFantasia, [VStr (ascii ''Caixa'')])]\<rparr>"

definition plano_completo :: frame where
  "plano_completo =
     \<lparr>nrows = 1,
      cols = [(c_Codigo, [VStr (ascii ''1.1'')]), (c_Nome, [VStr (ascii ''Caixa - Geral'')])]\<rparr>"

text \<open>Transactions of one account, dated in the month/day/year style and in the day/month/year style.\<close>

definition txt_banco_a :: pystr where "txt_banco_a = ascii ''Banco A''"

definition lancamentos_mdy :: frame where
  "lancamentos_mdy =
     \<lparr>nrows = 1,
      cols = [(ascii ''Conta'', [VStr txt_banco_a]), (c_Data, [VStr (ascii ''12/25/2024'')])]\<rparr>"

definition lancamentos_dmy :: frame where
  "lancamentos_dmy =
     \<lparr>nrows = 2,
      cols = [(ascii ''Conta'', [VStr txt_banco_a, VStr txt_banco_a]),
              (c_Data, [VStr (ascii ''15/03/2024''), VStr (ascii ''01/03/2024'')])]\<rparr>"

section \<open>Facts about strings\<close>

lemma nd_starts_bounds:
  "\<forall>s \<in> set nd_starts. s = 48 \<or> (1632 \<le> s \<and> s \<le> 4240) \<or> (6112 \<le> s \<and> s \<le> 7248) \<or> 42528 \<le> s"
  by (simp add: nd_starts_def)

lemma decimal_bounds:
  assumes "is_decimal c"
  shows "(48 \<le> c \<and> c \<le> 57) \<or> (1632 \<le> c \<and> c \<le> 4249) \<or> (6112 \<le> c \<and> c \<le> 7257) \<or> 42528 \<le> c"
proof (cases "120782 \<le> c")
  case True
  then show ?thesis by simp
next
  case False
  with assms obtain s where s: "s \<in> set nd_starts" "s \<le> c" "c < s + 10"
    by (auto simp: is_decimal_def)
  from nd_starts_bounds s(1)
  have "s = 48 \<or> (1632 \<le> s \<and> s \<le> 4240) \<or> (6112 \<le> s \<and> s \<le> 7248) \<or> 42528 \<le> s"
    by blast
  with s(2,3) show ?thesis by arith
qed

lemma space_bounds:
  "is_space c \<Longrightarrow> c \<le> 32 \<or> c = 133 \<or> c = 160 \<or> c = 5760 \<or> (8192 \<le> c \<and> c \<le> 12288)"
  by (auto simp: is_space_def)

lemma decimal_not_space: "is_decimal c \<Longrightarrow> \<not> is_space c"
  using decimal_bounds [of c] space_bounds [of c] by arith

lemma letter_not_decimal: "is_ascii_letter c \<Longrightarrow> \<not> is_decimal c"
  using decimal_bounds [of c] by (auto simp: is_ascii_letter_def)

lemma letter_not_space: "is_ascii_letter c \<Longrightarrow> \<not> is_space c"
  using space_bounds [of c] by (auto simp: is_ascii_letter_def)

lemma dot_not_space: "\<not> is_space 46"
  by (simp add: is_space_def)

lemma dot_not_decimal: "\<not> is_decimal 46"
  using decimal_bounds [of 46] by auto


lemma find_sub_first:
  "sub \<noteq> [] \<Longrightarrow> \<not> contains sub (a @ butlast sub) \<Longrightarrow> find_sub sub (a @ sub @ b) = Some (length a)"
proof (induction a)
  case Nil
  then show ?case by (cases sub) auto
next
  case (Cons x a)
  have len: "length sub \<le> length ((x # a) @ butlast sub)"
    using Cons.prems(1) by (cases sub) auto
  from Cons.prems(2) have no0: "take (length sub) ((x # a) @ butlast sub) \<noteq> sub"
    and rest: "\<not> contains sub (a @ butlast sub)"
    by (auto simp: contains_def split: if_splits)
  have "take (length sub) ((x # a) @ sub @ b) = take (length sub) ((x # a) @ butlast sub)"
    using len by (cases sub rule: rev_cases) (use Cons.prems(1) in auto)
  with no0 have "take (length sub) ((x # a) @ sub @ b) \<noteq> sub" by simp
  moreover have "find_sub sub (a @ sub @ b) = Some (length a)"
    using Cons.IH [OF Cons.prems(1) rest] .
  ultimately show ?case by simp
qed


lemma contains_occurrence: "contains sub (a @ sub @ b)"
proof (induction a)
  case Nil
  have "take (length sub) (sub @ b) = sub" by simp
  then show ?case by (cases "sub @ b") (auto simp: contains_def simp del: take_all_iff)
next
  case (Cons x a)
  then show ?case by (auto simp: contains_def)
qed

lemma tentar_separadores_skip:
  "\<forall>s \<in> set pre. \<not> contains s t \<Longrightarrow>
   tentar_separadores (pre @ rest) t = tentar_separadores rest t"
  by (induction pre) auto

lemma tentar_separadores_none:
  "\<forall>s \<in> set seps. \<not> contains s t \<Longrightarrow> tentar_separadores seps t = None"
  using tentar_separadores_skip [of seps t "[]"] by simp

lemma tentar_separadores_hit:
  assumes "sep \<noteq> []" and "\<not> contains sep (a @ butlast sep)"
  shows "tentar_separadores (sep # post) (a @ sep @ b) = Some (Inr (strip a, strip b))"
proof -
  have "find_sub sep (a @ sep @ b) = Some (length a)"
    using assms by (rule find_sub_first)
  then have "split1 sep (a @ sep @ b) = Inr [a, b]"
    using assms(1) by (simp add: split1_def)
  then show ?thesis
    by (simp add: contains_occurrence)
qed

lemma tentar_separadores_total:
  "\<forall>s \<in> set seps. s \<noteq> [] \<Longrightarrow> tentar_separadores seps t = Some r \<Longrightarrow> \<exists>p. r = Inr p"
  by (induction seps) (auto simp: split1_def split: if_splits option.splits)

lemma dotted_no_space: "dotted d s \<Longrightarrow> x \<in> set s \<Longrightarrow> \<not> is_space x"
  by (induction s arbitrary: d)
     (auto split: if_splits dest: decimal_not_space simp: dot_not_space)

lemma codigo_letra_no_space: "codigo_letra s \<Longrightarrow> x \<in> set s \<Longrightarrow> \<not> is_space x"
  by (cases s) (auto dest: dotted_no_space letter_not_space)

lemma codigo_letra_not_numerico: "codigo_letra s \<Longrightarrow> \<not> codigo_numerico s"
  by (cases s) (auto simp: codigo_numerico_def dest: letter_not_decimal)

lemma dot_plus_end_whole: "u \<noteq> [] \<Longrightarrow> 10 \<notin> set u \<Longrightarrow> dot_plus_end u = Some u"
proof -
  assume u: "u \<noteq> []" "10 \<notin> set u"
  then have tw: "takeWhile (\<lambda>c. c \<noteq> 10) u = u"
    and dw: "dropWhile (\<lambda>c. c \<noteq> 10) u = []"
    by auto
  show ?thesis unfolding dot_plus_end_def Let_def tw dw using u(1) by simp
qed

lemma dot_plus_end_Some:
  assumes "dot_plus_end u = Some n"
  shows "n \<noteq> [] \<and> 10 \<notin> set n \<and> (u = n \<or> u = n @ [10])"
proof -
  from assms have n: "n = takeWhile (\<lambda>c. c \<noteq> 10) u" and ne: "n \<noteq> []"
    and after: "dropWhile (\<lambda>c. c \<noteq> 10) u = [] \<or> dropWhile (\<lambda>c. c \<noteq> 10) u = [10]"
    by (auto simp: dot_plus_end_def Let_def split: if_splits)
  have "10 \<notin> set n" unfolding n by (auto dest: set_takeWhileD)
  moreover have "u = n @ dropWhile (\<lambda>c. c \<noteq> 10) u" unfolding n by simp
  then have "u = n \<or> u = n @ [10]" using after by (elim disjE) simp_all
  ultimately show ?thesis using ne by simp
qed

lemma ws_then_text_Some:
  "ws_then_text k rest = Some n \<Longrightarrow>
   \<exists>j. 0 < j \<and> j \<le> k \<and> dot_plus_end (drop j rest) = Some n \<and>
       (\<forall>i. j < i \<and> i \<le> k \<longrightarrow> dot_plus_end (drop i rest) = None)"
proof (induction k)
  case 0
  then show ?case by simp
next
  case (Suc k)
  show ?case
  proof (cases "dot_plus_end (drop (Suc k) rest)")
    case (Some g)
    with Suc.prems have "g = n" by simp
    with Some show ?thesis by (intro exI [of _ "Suc k"]) auto
  next
    case None
    with Suc.prems have "ws_then_text k rest = Some n" by simp
    from Suc.IH [OF this] obtain j where j: "0 < j" "j \<le> k"
      "dot_plus_end (drop j rest) = Some n"
      "\<forall>i. j < i \<and> i \<le> k \<longrightarrow> dot_plus_end (drop i rest) = None" by blast
    have "\<forall>i. j < i \<and> i \<le> Suc k \<longrightarrow> dot_plus_end (drop i rest) = None"
      using j(4) None by (auto simp: le_Suc_eq)
    with j(1,2,3) show ?thesis by (intro exI [of _ j]) auto
  qed
qed

lemma strip_last: "strip s \<noteq> [] \<Longrightarrow> \<not> is_space (last (strip s))"
proof -
  assume "strip s \<noteq> []"
  then have ne: "dropWhile is_space (rev (dropWhile is_space s)) \<noteq> []"
    by (simp add: strip_def)
  then have "\<not> is_space (hd (dropWhile is_space (rev (dropWhile is_space s))))"
    by (rule hd_dropWhile)
  with ne show ?thesis by (simp add: strip_def last_rev)
qed

lemma re_match_codigo_complete:
  assumes ok: "ok c" and nosp: "\<forall>x \<in> set c. \<not> is_space x"
    and w: "w \<noteq> []" "\<forall>x \<in> set w. is_space x"
    and n: "n \<noteq> []" "\<not> is_space (hd n)" "10 \<notin> set n"
  shows "re_match_codigo ok (c @ w @ n) = Some (c, n)"
proof -
  obtain x w' where wx: "w = x # w'" using w(1) by (cases w) auto
  obtain y n' where ny: "n = y # n'" using n(1) by (cases n) auto
  have tw: "takeWhile (\<lambda>c. \<not> is_space c) (c @ w @ n) = c"
    using nosp w(2) by (simp add: wx)
  have dw: "dropWhile (\<lambda>c. \<not> is_space c) (c @ w @ n) = w @ n"
    using nosp w(2) by (simp add: wx)
  have tw2: "takeWhile is_space (w @ n) = w"
    using w(2) n(2) by (simp add: ny)
  have "ws_then_text (length w) (w @ n) = Some n"
    using dot_plus_end_whole [OF n(1,3)] by (simp add: wx)
  then show ?thesis
    using ok by (simp add: re_match_codigo_def tw dw tw2)
qed

lemma re_match_codigo_sound:
  assumes m: "re_match_codigo ok t = Some (c, n)"
    and stripped: "t = [] \<or> \<not> is_space (last t)"
  shows "\<exists>w. t = c @ w @ n \<and> ok c \<and> w \<noteq> [] \<and> (\<forall>x \<in> set w. is_space x) \<and>
             n \<noteq> [] \<and> \<not> is_space (hd n) \<and> 10 \<notin> set n"
proof -
  define rest where "rest = dropWhile (\<lambda>c. \<not> is_space c) t"
  define W where "W = takeWhile is_space rest"
  define N where "N = dropWhile is_space rest"
  from m have c: "c = takeWhile (\<lambda>c. \<not> is_space c) t" and ok: "ok c"
    and ws: "ws_then_text (length W) rest = Some n"
    by (auto simp: re_match_codigo_def Let_def rest_def W_def split: if_splits)
  have t: "t = c @ W @ N" by (simp add: c rest_def W_def N_def)
  have rest: "rest = W @ N" by (simp add: W_def N_def)
  have Wsp: "\<forall>x \<in> set W. is_space x" by (auto simp: W_def dest: set_takeWhileD)
  from ws_then_text_Some [OF ws] obtain j where j: "0 < j" "j \<le> length W"
    "dot_plus_end (drop j rest) = Some n"
    "\<forall>i. j < i \<and> i \<le> length W \<longrightarrow> dot_plus_end (drop i rest) = None" by blast
  from j(1,2) have Wne: "W \<noteq> []" by auto
  have Nne: "N \<noteq> []"
  proof
    assume "N = []"
    with t Wne have "t \<noteq> []" "last t = last W" by auto
    with Wsp Wne stripped show False by auto
  qed
  have Nhd: "\<not> is_space (hd N)" using Nne unfolding N_def by (rule hd_dropWhile)
  have u: "drop j rest = drop j W @ N" using j(2) by (simp add: rest)
  from dot_plus_end_Some [OF j(3)]
  have n: "n \<noteq> []" "10 \<notin> set n" "drop j rest = n \<or> drop j rest = n @ [10]" by auto
  have lastu: "last (drop j rest) = last t" using Nne by (simp add: u t)
  have "t \<noteq> []" using Nne t by auto
  with stripped have "\<not> is_space (last t)" by simp
  moreover have "is_space 10" by (simp add: is_space_def)
  ultimately have un: "drop j rest = n" using n(3) lastu by auto
  have "10 \<notin> set N" using n(2) un u by auto
  with Nne have "dot_plus_end N = Some N" by (rule dot_plus_end_whole)
  moreover have "drop (length W) rest = N" by (simp add: rest)
  ultimately have "\<not> j < length W" using j(4) by auto
  with j(2) have "j = length W" by simp
  with un u have "n = N" by simp
  with t ok Wne Wsp Nne Nhd n(2) show ?thesis by blast
qed


lemma re_match_codigo_not_ok:
  assumes "\<not> ok c" and "\<forall>x \<in> set c. \<not> is_space x" and "w \<noteq> []" "\<forall>x \<in> set w. is_space x"
  shows "re_match_codigo ok (c @ w @ n) = None"
proof -
  obtain x w' where wx: "w = x # w'" using assms(3) by (cases w) auto
  have "takeWhile (\<lambda>c. \<not> is_space c) (c @ w @ n) = c"
    using assms(2,4) by (simp add: wx)
  with assms(1) show ?thesis by (simp add: re_match_codigo_def)
qed

lemma separadores_nonempty: "\<forall>s \<in> set separadores. s \<noteq> []"
  by (simp add: separadores_def)

lemma texto_de_stripped: "texto_de v = [] \<or> \<not> is_space (last (texto_de v))"
  unfolding texto_de_def using strip_last by blast

lemma limpar_categoria_total: "\<exists>codigo nome. limpar_categoria v = Inr (codigo, nome)"
proof (cases "tentar_separadores separadores (texto_de v)")
  case None
  then show ?thesis
    by (auto simp: limpar_categoria_def Let_def split: option.splits prod.splits)
next
  case (Some r)
  with tentar_separadores_total [OF separadores_nonempty Some]
  show ?thesis by (auto simp: limpar_categoria_def Let_def)
qed

lemma limpar_categoria_separador:
  assumes "separadores = pre @ sep # post" and "\<forall>s \<in> set pre. \<not> contains s (texto_de v)"
    and "texto_de v = a @ sep @ b" and "\<not> contains sep (a @ butlast sep)"
  shows "limpar_categoria v = Inr (strip a, strip b)"
proof -
  have "sep \<in> set separadores" unfolding assms(1) by simp
  with separadores_nonempty have ne: "sep \<noteq> []" by blast
  have "tentar_separadores separadores (texto_de v) = tentar_separadores (sep # post) (texto_de v)"
    unfolding assms(1) using assms(2) by (rule tentar_separadores_skip)
  also have "\<dots> = Some (Inr (strip a, strip b))"
    unfolding assms(3) using ne assms(4) by (rule tentar_separadores_hit)
  finally show ?thesis by (simp add: limpar_categoria_def)
qed

lemma limpar_categoria_codigo:
  assumes nosep: "\<forall>s \<in> set separadores. \<not> contains s (texto_de v)"
    and t: "texto_de v = c @ w @ n" and c: "codigo_numerico c \<or> codigo_letra c"
    and w: "w \<noteq> []" "\<forall>x \<in> set w. is_space x"
    and n: "n \<noteq> []" "\<not> is_space (hd n)" "10 \<notin> set n"
  shows "limpar_categoria v = Inr (c, n)"
proof -
  have none: "tentar_separadores separadores (texto_de v) = None"
    using nosep by (rule tentar_separadores_none)
  have nosp: "\<forall>x \<in> set c. \<not> is_space x"
    using c dotted_no_space codigo_letra_no_space unfolding codigo_numerico_def by blast
  from c show ?thesis
  proof
    assume "codigo_numerico c"
    then have "re_match_codigo codigo_numerico (texto_de v) = Some (c, n)"
      unfolding t using nosp w n by (rule re_match_codigo_complete)
    with none show ?thesis by (simp add: limpar_categoria_def)
  next
    assume l: "codigo_letra c"
    then have "\<not> codigo_numerico c" by (rule codigo_letra_not_numerico)
    then have "re_match_codigo codigo_numerico (texto_de v) = None"
      unfolding t using nosp w by (rule re_match_codigo_not_ok)
    moreover have "re_match_codigo codigo_letra (texto_de v) = Some (c, n)"
      unfolding t using l nosp w n by (rule re_match_codigo_complete)
    ultimately show ?thesis using none by (simp add: limpar_categoria_def)
  qed
qed

lemma limpar_categoria_fallback:
  assumes nosep: "\<forall>s \<in> set separadores. \<not> contains s (texto_de v)"
    and nocode: "\<not> (\<exists>c w n. texto_de v = c @ w @ n \<and> (codigo_numerico c \<or> codigo_letra c) \<and>
          w \<noteq> [] \<and> (\<forall>x \<in> set w. is_space x) \<and> n \<noteq> [] \<and> \<not> is_space (hd n) \<and> 10 \<notin> set n)"
  shows "limpar_categoria v = Inr ([], texto_de v)"
proof -
  have none: "tentar_separadores separadores (texto_de v) = None"
    using nosep by (rule tentar_separadores_none)
  have "re_match_codigo ok (texto_de v) = None" if "ok = codigo_numerico \<or> ok = codigo_letra" for ok
  proof (cases "re_match_codigo ok (texto_de v)")
    case None
    then show ?thesis .
  next
    case (Some p)
    obtain c n where "p = (c, n)" by (cases p)
    with Some have "re_match_codigo ok (texto_de v) = Some (c, n)" by simp
    from re_match_codigo_sound [OF this texto_de_stripped] that nocode
    show ?thesis by blast
  qed
  then have "re_match_codigo codigo_numerico (texto_de v) = None"
    "re_match_codigo codigo_letra (texto_de v) = None" by simp_all
  with none show ?thesis by (simp add: limpar_categoria_def)
qed

text \<open>
  Claim C2. Decomposing a label never raises, whatever the cell holds. The cell is first
  turned into a text: \<open>None\<close> becomes the empty text, a text stays, and every other value
  becomes its \<open>str()\<close>, so a number its digits, a date its ISO form and the missing values
  NaN and \<open>NaT\<close> of pandas the texts \<open>nan\<close> and \<open>NaT\<close>; then the text is trimmed. The
  separators are tried in the order \<open>" - "\<close>, en dash, em dash, \<open>" | "\<close>, \<open>": "\<close>,
  \<open>" :: "\<close>: the first of them that occurs in the text splits it at its first occurrence
  into (trimmed code, trimmed name). With no separator, a leading dotted numeric code, or a
  single ASCII letter followed by a dotted numeric code, then whitespace and text up to the
  end gives (code, text); otherwise the result is the empty code and the trimmed text.
\<close>

theorem limpar_categoria_decompose:
  "(\<exists>codigo nome. limpar_categoria v = Inr (codigo, nome)) \<and>
   texto_de VNone = [] \<and> texto_de (VStr s) = strip s \<and> texto_de (VInt i) = strip (str_int i) \<and>
   texto_de (VFloat m e) = strip (repr_float m e) \<and>
   texto_de VNaN = ascii ''nan'' \<and> texto_de VNaT = ascii ''NaT'' \<and>
   texto_de (VData d) =
     strip (pad 4 (ano d) @ [45] @ pad 2 (mes d) @ [45] @ pad 2 (dia d) @ ascii '' 00:00:00'') \<and>
   separadores = [ascii '' - '', [32, 8211, 32], [32, 8212, 32], ascii '' | '', ascii '': '',
                  ascii '' :: ''] \<and>
   (\<forall>pre sep post a b.
      separadores = pre @ sep # post \<and> (\<forall>s \<in> set pre. \<not> contains s (texto_de v)) \<and>
      texto_de v = a @ sep @ b \<and> \<not> contains sep (a @ butlast sep)
      \<longrightarrow> limpar_categoria v = Inr (strip a, strip b)) \<and>
   (\<forall>c w n.
      (\<forall>s \<in> set separadores. \<not> contains s (texto_de v)) \<and> texto_de v = c @ w @ n \<and>
      (codigo_numerico c \<or> codigo_letra c) \<and> w \<noteq> [] \<and> (\<forall>x \<in> set w. is_space x) \<and>
      n \<noteq> [] \<and> \<not> is_space (hd n) \<and> 10 \<notin> set n
      \<longrightarrow> limpar_categoria v = Inr (c, n)) \<and>
   ((\<forall>s \<in> set separadores. \<not> contains s (texto_de v)) \<and>
    \<not> (\<exists>c w n. texto_de v = c @ w @ n \<and> (codigo_numerico c \<or> codigo_letra c) \<and>
          w \<noteq> [] \<and> (\<forall>x \<in> set w. is_space x) \<and> n \<noteq> [] \<and> \<not> is_space (hd n) \<and> 10 \<notin> set n)
    \<longrightarrow> limpar_categoria v = Inr ([], texto_de v))"
proof (intro conjI allI impI)
  show "\<exists>codigo nome. limpar_categoria v = Inr (codigo, nome)"
    by (rule limpar_categoria_total)
  show "texto_de VNone = []" by (simp add: texto_de_def strip_def)
  show "texto_de (VStr s) = strip s" by (simp add: texto_de_def)
  show "texto_de (VInt i) = strip (str_int i)" by (simp add: texto_de_def)
  show "texto_de (VFloat m e) = strip (repr_float m e)" by (simp add: texto_de_def)
  show "texto_de VNaN = ascii ''nan''"
    by (simp add: texto_de_def strip_def is_space_def ascii_def)
  show "texto_de VNaT = ascii ''NaT''"
    by (simp add: texto_de_def strip_def is_space_def ascii_def)
  show "texto_de (VData d) =
     strip (pad 4 (ano d) @ [45] @ pad 2 (mes d) @ [45] @ pad 2 (dia d) @ ascii '' 00:00:00'')"
    by (simp add: texto_de_def)
  show "separadores = [ascii '' - '', [32, 8211, 32], [32, 8212, 32], ascii '' | '', ascii '': '',
                  ascii '' :: '']"
    by (simp add: separadores_def ascii_def)
next
  fix pre sep post a b
  assume "separadores = pre @ sep # post \<and> (\<forall>s \<in> set pre. \<not> contains s (texto_de v)) \<and>
      texto_de v = a @ sep @ b \<and> \<not> contains sep (a @ butlast sep)"
  then show "limpar_categoria v = Inr (strip a, strip b)"
    using limpar_categoria_separador by blast
next
  fix c w n
  assume "(\<forall>s \<in> set separadores. \<not> contains s (texto_de v)) \<and> texto_de v = c @ w @ n \<and>
      (codigo_numerico c \<or> codigo_letra c) \<and> w \<noteq> [] \<and> (\<forall>x \<in> set w. is_space x) \<and>
      n \<noteq> [] \<and> \<not> is_space (hd n) \<and> 10 \<notin> set n"
  then show "limpar_categoria v = Inr (c, n)"
    using limpar_categoria_codigo by blast
next
  assume "(\<forall>s \<in> set separadores. \<not> contains s (texto_de v)) \<and>
    \<not> (\<exists>c w n. texto_de v = c @ w @ n \<and> (codigo_numerico c \<or> codigo_letra c) \<and>
          w \<noteq> [] \<and> (\<forall>x \<in> set w. is_space x) \<and> n \<noteq> [] \<and> \<not> is_space (hd n) \<and> 10 \<notin> set n)"
  then show "limpar_categoria v = Inr ([], texto_de v)"
    using limpar_categoria_fallback by blast
qed

lemmas limpar_eval = limpar_categoria_def texto_de_def strip_def is_space_def separadores_def
  contains_def split1_def re_match_codigo_def codigo_numerico_def is_decimal_def nd_starts_def
  is_ascii_letter_def dot_plus_end_def ascii_def

text \<open>Every separator of the list, each at work in a text that holds no earlier one.\<close>

lemma limpar_separadores:
  "limpar_categoria (VStr (ascii ''1 - A'')) = Inr (ascii ''1'', ascii ''A'')"
  "limpar_categoria (VStr (ascii ''1'' @ [32, 8211, 32] @ ascii ''A'')) = Inr (ascii ''1'', ascii ''A'')"
  "limpar_categoria (VStr (ascii ''1'' @ [32, 8212, 32] @ ascii ''A'')) = Inr (ascii ''1'', ascii ''A'')"
  "limpar_categoria (VStr (ascii ''1 | A'')) = Inr (ascii ''1'', ascii ''A'')"
  "limpar_categoria (VStr (ascii ''1: A'')) = Inr (ascii ''1'', ascii ''A'')"
  "limpar_categoria (VStr (ascii ''1 :: A'')) = Inr (ascii ''1 :'', ascii ''A'')"
  by (simp_all add: limpar_eval)

text \<open>
  The order of the list decides, not the position in the text, and the split is at the
  first occurrence of the separator.
\<close>

lemma limpar_ordem:
  "limpar_categoria (VStr (ascii ''1 | A - B'')) = Inr (ascii ''1 | A'', ascii ''B'')"
  "limpar_categoria (VStr (ascii ''1 - A - B'')) = Inr (ascii ''1'', ascii ''A - B'')"
  by (simp_all add: limpar_eval)

text \<open>Codes without a separator, and texts that only look like one.\<close>

lemma limpar_codigos:
  "limpar_categoria (VStr (ascii ''2.2.1 '' @ [193] @ ascii ''GUA'')) =
     Inr (ascii ''2.2.1'', [193] @ ascii ''GUA'')"
  "limpar_categoria (VStr (ascii ''B12.3 Luz'')) = Inr (ascii ''B12.3'', ascii ''Luz'')"
  "limpar_categoria (VStr (ascii ''2..1 Luz'')) = Inr ([], ascii ''2..1 Luz'')"
  "limpar_categoria (VStr (ascii ''2. Luz'')) = Inr ([], ascii ''2. Luz'')"
  "limpar_categoria (VStr (ascii ''AB1 Luz'')) = Inr ([], ascii ''AB1 Luz'')"
  "limpar_categoria (VStr (ascii ''  Luz  '')) = Inr ([], ascii ''Luz'')"
  by (simp_all add: limpar_eval)

text \<open>Cells that are not texts.\<close>

lemma limpar_nao_textos:
  "limpar_categoria VNone = Inr ([], [])"
  "limpar_categoria VNaN = Inr ([], ascii ''nan'')"
  "limpar_categoria VNaT = Inr ([], ascii ''NaT'')"
  "limpar_categoria (VInt 2024) = Inr ([], ascii ''2024'')"
  "limpar_categoria (VInt (- 5)) = Inr ([], ascii ''-5'')"
  "limpar_categoria (VFloat 1 0) = Inr ([], ascii ''1.0'')"
  "limpar_categoria (VFloat 15 (- 1)) = Inr ([], ascii ''1.5'')"
  "limpar_categoria (VData (Date 2024 3 15)) = Inr ([], ascii ''2024-03-15 00:00:00'')"
  by (simp_all add: limpar_eval str_int_def dec_digits.simps repr_float_def sem_zeros.simps
      pad_def)

text \<open>
  The examples of the claim, obtained from the theorem: \<open>"2.2.1 - AGUA"\<close> (with the accented
  capital A, code point 193) splits at the separator, \<open>"A1  AGUA"\<close> has a letter code, and
  \<open>"AGUA"\<close> alone falls through to the empty code. With them, every separator, the order of
  the list, the dotted numeric code and the cells that are not texts.
\<close>

theorem limpar_categoria_examples:
  "limpar_categoria (VStr (ascii ''2.2.1 - '' @ [193] @ ascii ''GUA'')) =
     Inr (ascii ''2.2.1'', [193] @ ascii ''GUA'') \<and>
   limpar_categoria (VStr (ascii ''A1  '' @ [193] @ ascii ''GUA'')) =
     Inr (ascii ''A1'', [193] @ ascii ''GUA'') \<and>
   limpar_categoria (VStr ([193] @ ascii ''GUA'')) = Inr ([], [193] @ ascii ''GUA'') \<and>
   limpar_categoria (VStr (ascii ''1'' @ [32, 8211, 32] @ ascii ''A'')) = Inr (ascii ''1'', ascii ''A'') \<and>
   limpar_categoria (VStr (ascii ''1'' @ [32, 8212, 32] @ ascii ''A'')) = Inr (ascii ''1'', ascii ''A'') \<and>
   limpar_categoria (VStr (ascii ''1 | A'')) = Inr (ascii ''1'', ascii ''A'') \<and>
   limpar_categoria (VStr (ascii ''1: A'')) = Inr (ascii ''1'', ascii ''A'') \<and>
   limpar_categoria (VStr (ascii ''1 :: A'')) = Inr (ascii ''1 :'', ascii ''A'') \<and>
   limpar_categoria (VStr (ascii ''1 | A - B'')) = Inr (ascii ''1 | A'', ascii ''B'') \<and>
   limpar_categoria (VStr (ascii ''1 - A - B'')) = Inr (ascii ''1'', ascii ''A - B'') \<and>
   limpar_categoria (VStr (ascii ''2.2.1 '' @ [193] @ ascii ''GUA'')) =
     Inr (ascii ''2.2.1'', [193] @ ascii ''GUA'') \<and>
   limpar_categoria (VStr (ascii ''B12.3 Luz'')) = Inr (ascii ''B12.3'', ascii ''Luz'') \<and>
   limpar_categoria (VStr (ascii ''2..1 Luz'')) = Inr ([], ascii ''2..1 Luz'') \<and>
   limpar_categoria (VStr (ascii ''2. Luz'')) = Inr ([], ascii ''2. Luz'') \<and>
   limpar_categoria (VStr (ascii ''AB1 Luz'')) = Inr ([], ascii ''AB1 Luz'') \<and>
   limpar_categoria (VStr (ascii ''  Luz  '')) = Inr ([], ascii ''Luz'') \<and>
   limpar_categoria VNone = Inr ([], []) \<and>
   limpar_categoria VNaN = Inr ([], ascii ''nan'') \<and>
   limpar_categoria VNaT = Inr ([], ascii ''NaT'') \<and>
   limpar_categoria (VInt 2024) = Inr ([], ascii ''2024'') \<and>
   limpar_categoria (VInt (- 5)) = Inr ([], ascii ''-5'') \<and>
   limpar_categoria (VFloat 1 0) = Inr ([], ascii ''1.0'') \<and>
   limpar_categoria (VFloat 15 (- 1)) = Inr ([], ascii ''1.5'') \<and>
   limpar_categoria (VData (Date 2024 3 15)) = Inr ([], ascii ''2024-03-15 00:00:00'')"
proof -
  have e1: "limpar_categoria (VStr (ascii ''2.2.1 - '' @ [193] @ ascii ''GUA'')) =
     Inr (ascii ''2.2.1'', [193] @ ascii ''GUA'')"
  proof -
    let ?v = "VStr (ascii ''2.2.1 - '' @ [193] @ ascii ''GUA'')"
    have "separadores = [] @ [32, 45, 32] # tl separadores \<and>
          (\<forall>s \<in> set []. \<not> contains s (texto_de ?v)) \<and>
          texto_de ?v = ascii ''2.2.1'' @ [32, 45, 32] @ ([193] @ ascii ''GUA'') \<and>
          \<not> contains [32, 45, 32] (ascii ''2.2.1'' @ butlast [32, 45, 32])"
      by (simp add: separadores_def texto_de_def strip_def is_space_def contains_def ascii_def)
    from limpar_categoria_decompose [of ?v, THEN conjunct2, THEN conjunct2, THEN conjunct2,
        THEN conjunct2, THEN conjunct2, THEN conjunct2, THEN conjunct2, THEN conjunct2,
        THEN conjunct2, THEN conjunct1, rule_format, OF this]
    show ?thesis
      by (simp add: strip_def is_space_def ascii_def)
  qed
  have e2: "limpar_categoria (VStr (ascii ''A1  '' @ [193] @ ascii ''GUA'')) =
     Inr (ascii ''A1'', [193] @ ascii ''GUA'')"
  proof -
    let ?v = "VStr (ascii ''A1  '' @ [193] @ ascii ''GUA'')"
    have "(\<forall>s \<in> set separadores. \<not> contains s (texto_de ?v)) \<and>
          texto_de ?v = ascii ''A1'' @ [32, 32] @ ([193] @ ascii ''GUA'') \<and>
          (codigo_numerico (ascii ''A1'') \<or> codigo_letra (ascii ''A1'')) \<and> [32, 32] \<noteq> [] \<and>
          (\<forall>x \<in> set [32, 32]. is_space x) \<and> [193] @ ascii ''GUA'' \<noteq> [] \<and>
          \<not> is_space (hd ([193] @ ascii ''GUA'')) \<and> 10 \<notin> set ([193] @ ascii ''GUA'')"
      by (simp add: separadores_def texto_de_def strip_def is_space_def contains_def ascii_def
          is_ascii_letter_def is_decimal_def nd_starts_def)
    from limpar_categoria_decompose [of ?v, THEN conjunct2, THEN conjunct2, THEN conjunct2,
        THEN conjunct2, THEN conjunct2, THEN conjunct2, THEN conjunct2, THEN conjunct2,
        THEN conjunct2, THEN conjunct2, THEN conjunct1, rule_format, OF this]
    show ?thesis .
  qed
  have e3: "limpar_categoria (VStr ([193] @ ascii ''GUA'')) = Inr ([], [193] @ ascii ''GUA'')"
  proof -
    let ?v = "VStr ([193] @ ascii ''GUA'')"
    have t: "texto_de ?v = [193, 71, 85, 65]"
      by (simp add: texto_de_def strip_def is_space_def ascii_def)
    have nosep: "\<forall>s \<in> set separadores. \<not> contains s (texto_de ?v)"
      unfolding t by (simp add: separadores_def contains_def)
    have nocode: "\<not> (\<exists>c w n. texto_de ?v = c @ w @ n \<and> (codigo_numerico c \<or> codigo_letra c) \<and>
            w \<noteq> [] \<and> (\<forall>x \<in> set w. is_space x) \<and> n \<noteq> [] \<and> \<not> is_space (hd n) \<and> 10 \<notin> set n)"
    proof
      assume "\<exists>c w n. texto_de ?v = c @ w @ n \<and> (codigo_numerico c \<or> codigo_letra c) \<and>
            w \<noteq> [] \<and> (\<forall>x \<in> set w. is_space x) \<and> n \<noteq> [] \<and> \<not> is_space (hd n) \<and> 10 \<notin> set n"
      then obtain c w n where d: "texto_de ?v = c @ w @ n" "w \<noteq> []" "\<forall>x \<in> set w. is_space x"
        by blast
      have "c @ w @ n = [193, 71, 85, 65]" using d(1) t by simp
      moreover from d(2) have "hd w \<in> set (c @ w @ n)" by simp
      ultimately have "hd w \<in> set [193, 71, 85, 65]" by (simp only:)
      moreover have "is_space (hd w)" using d(2,3) by simp
      ultimately show False by (auto simp: is_space_def)
    qed
    from limpar_categoria_decompose [of ?v, THEN conjunct2, THEN conjunct2, THEN conjunct2,
        THEN conjunct2, THEN conjunct2, THEN conjunct2, THEN conjunct2, THEN conjunct2,
        THEN conjunct2, THEN conjunct2, THEN conjunct2, rule_format, OF conjI, OF nosep nocode]
    show ?thesis
      using t by (simp add: ascii_def)
  qed
  show ?thesis
    by (intro conjI)
       (fact e1 e2 e3 limpar_separadores(2-6) limpar_ordem limpar_codigos limpar_nao_textos)+
qed

section \<open>The category mapping\<close>

lemma map_of_map_keyed:
  "map_of (map (\<lambda>kv. if fst kv = c0 then (fst kv, f (snd kv)) else kv) xs) c =
     map_option (\<lambda>vs. if c = c0 then f vs else vs) (map_of xs c)"
  by (induction xs) auto

lemma foldl_substituir:
  "foldl (\<lambda>df par. substituir df c par) df m =
     df\<lparr>cols := map (\<lambda>kv. if fst kv = c then (fst kv, map (\<lambda>v. foldl (\<lambda>v par. trocar par v) v m) (snd kv))
                            else kv) (cols df)\<rparr>"
proof (induction m arbitrary: df)
  case Nil
  have "(\<lambda>kv. if fst kv = c
               then (fst kv, map (\<lambda>v. foldl (\<lambda>v par. trocar par v) v []) (snd kv))
               else kv) = (\<lambda>kv::pystr \<times> val list. kv)"
    by (rule ext) auto
  then show ?case by simp
next
  case (Cons p m)
  have "foldl (\<lambda>df par. substituir df c par) df (p # m) =
        foldl (\<lambda>df par. substituir df c par) (substituir df c p) m" by simp
  also note Cons.IH [of "substituir df c p"]
  finally show ?case
    by (simp add: substituir_def comp_def if_distrib [of fst] if_distrib [of snd] cong: if_cong)
qed

lemma foldl_trocar_change:
  "foldl (\<lambda>v par. trocar par v) v m \<noteq> v \<Longrightarrow> \<exists>k \<in> fst ` set m. v = VStr k"
proof (induction m arbitrary: v)
  case Nil
  then show ?case by simp
next
  case (Cons p m)
  show ?case
  proof (cases "v = VStr (fst p)")
    case True
    then show ?thesis by auto
  next
    case False
    then have "trocar p v = v" by (simp add: trocar_def)
    with Cons.prems have "foldl (\<lambda>v par. trocar par v) v m \<noteq> v" by simp
    from Cons.IH [OF this] show ?thesis by auto
  qed
qed


lemma aplicar_mapeamento_cols:
  "cols (aplicar_mapeamento_categorias lw dados m) =
     (case colunas_categoria lw dados of
        [] \<Rightarrow> cols dados
      | c # _ \<Rightarrow> map (\<lambda>kv. if fst kv = c
                             then (fst kv, map (\<lambda>v. foldl (\<lambda>v par. trocar par v) v m) (snd kv))
                             else kv) (cols dados))"
  by (simp add: aplicar_mapeamento_categorias_def foldl_substituir split: list.splits)

lemma aplicar_mapeamento_nrows:
  "nrows (aplicar_mapeamento_categorias lw dados m) = nrows dados"
  by (simp add: aplicar_mapeamento_categorias_def foldl_substituir split: list.splits)

lemma aplicar_mapeamento_columns:
  "columns (aplicar_mapeamento_categorias lw dados m) = columns dados"
  by (auto simp: columns_def aplicar_mapeamento_cols split: list.splits)

lemma aplicar_mapeamento_get_col:
  "get_col (aplicar_mapeamento_categorias lw dados m) c =
     (case get_col dados c of
        Inl e \<Rightarrow> Inl e
      | Inr vs \<Rightarrow> Inr (if take 1 (colunas_categoria lw dados) = [c]
                        then map (\<lambda>v. foldl (\<lambda>v par. trocar par v) v m) vs else vs))"
  by (cases "colunas_categoria lw dados")
     (auto simp: get_col_def aplicar_mapeamento_cols map_of_map_keyed split: option.splits)

text \<open>
  Claim C4. Applying the mapping keeps the number of rows, the columns and their order; every
  column other than the first discovered category column is returned unchanged, cell by cell,
  and in the category column a cell differs from the original only on rows whose original
  value is a key of the mapping.
\<close>

theorem aplicar_mapeamento_frame:
  assumes "wf_frame dados"
  shows "nrows (aplicar_mapeamento_categorias lw dados m) = nrows dados \<and>
         columns (aplicar_mapeamento_categorias lw dados m) = columns dados \<and>
         wf_frame (aplicar_mapeamento_categorias lw dados m) \<and>
         (\<forall>c. take 1 (colunas_categoria lw dados) \<noteq> [c] \<longrightarrow>
              get_col (aplicar_mapeamento_categorias lw dados m) c = get_col dados c) \<and>
         (\<forall>c vs. get_col dados c = Inr vs \<longrightarrow>
              (\<exists>vs'. get_col (aplicar_mapeamento_categorias lw dados m) c = Inr vs' \<and>
                     length vs' = length vs \<and>
                     (\<forall>i < length vs. vs' ! i \<noteq> vs ! i \<longrightarrow> (\<exists>k \<in> fst ` set m. vs ! i = VStr k))))"
proof (intro conjI allI impI)
  let ?r = "aplicar_mapeamento_categorias lw dados m"
  show "nrows ?r = nrows dados" by (rule aplicar_mapeamento_nrows)
  show "columns ?r = columns dados" by (rule aplicar_mapeamento_columns)
  show "wf_frame ?r"
    using assms
    by (auto simp: wf_frame_def aplicar_mapeamento_columns aplicar_mapeamento_nrows
        aplicar_mapeamento_cols list_all_iff split: list.splits)
next
  fix c assume "take 1 (colunas_categoria lw dados) \<noteq> [c]"
  then show "get_col (aplicar_mapeamento_categorias lw dados m) c = get_col dados c"
    by (simp add: aplicar_mapeamento_get_col split: sum.splits)
next
  fix c vs assume g: "get_col dados c = Inr vs"
  let ?vs' = "if take 1 (colunas_categoria lw dados) = [c]
              then map (\<lambda>v. foldl (\<lambda>v par. trocar par v) v m) vs else vs"
  have "get_col (aplicar_mapeamento_categorias lw dados m) c = Inr ?vs'"
    by (simp add: aplicar_mapeamento_get_col g)
  moreover have "length ?vs' = length vs" by simp
  moreover have "\<forall>i < length vs. ?vs' ! i \<noteq> vs ! i \<longrightarrow> (\<exists>k \<in> fst ` set m. vs ! i = VStr k)"
    using foldl_trocar_change by (auto split: if_splits)
  ultimately show "\<exists>vs'. get_col (aplicar_mapeamento_categorias lw dados m) c = Inr vs' \<and>
                     length vs' = length vs \<and>
                     (\<forall>i < length vs. vs' ! i \<noteq> vs ! i \<longrightarrow> (\<exists>k \<in> fst ` set m. vs ! i = VStr k))"
    by blast
qed

lemma wf_lancamentos_exemplo: "wf_frame lancamentos_exemplo"
  by (simp add: wf_frame_def lancamentos_exemplo_def columns_def c_Categoria_def c_Valor_def ascii_def)

lemma colunas_categoria_exemplo:
  "colunas_categoria lower_latin1 lancamentos_exemplo = [c_Categoria]"
  by (simp add: colunas_categoria_def lancamentos_exemplo_def columns_def c_Categoria_def
      c_Valor_def ascii_def lower_latin1_def contains_def)

theorem aplicar_mapeamento_frame_witness:
  "wf_frame lancamentos_exemplo \<and>
   nrows (aplicar_mapeamento_categorias lower_latin1 lancamentos_exemplo
            [(ascii ''A'', ascii ''Z'')]) = 3 \<and>
   get_col (aplicar_mapeamento_categorias lower_latin1 lancamentos_exemplo
            [(ascii ''A'', ascii ''Z'')]) c_Valor = Inr [VInt 1500, VInt (- 25), VInt 7]"
proof -
  have "take 1 (colunas_categoria lower_latin1 lancamentos_exemplo) \<noteq> [c_Valor]"
    by (simp add: colunas_categoria_exemplo c_Categoria_def c_Valor_def ascii_def)
  with aplicar_mapeamento_frame [OF wf_lancamentos_exemplo, of lower_latin1 "[(ascii ''A'', ascii ''Z'')]"]
  have "nrows (aplicar_mapeamento_categorias lower_latin1 lancamentos_exemplo
            [(ascii ''A'', ascii ''Z'')]) = nrows lancamentos_exemplo"
    and "get_col (aplicar_mapeamento_categorias lower_latin1 lancamentos_exemplo
            [(ascii ''A'', ascii ''Z'')]) c_Valor = get_col lancamentos_exemplo c_Valor"
    by blast+
  then show ?thesis
    using wf_lancamentos_exemplo
    by (simp add: lancamentos_exemplo_def get_col_def c_Categoria_def c_Valor_def ascii_def)
qed

text \<open>
  Claim C10. The entries of the mapping are applied one after the other to the same table: with
  \<open>a\<close> mapped to \<open>b\<close> followed by \<open>b\<close> mapped to \<open>d\<close>, every cell of the category
  column that held \<open>a\<close> (or \<open>b\<close>) ends as \<open>d\<close>, not as \<open>b\<close>.
\<close>

theorem aplicar_mapeamento_encadeado:
  "colunas_categoria lw dados = c # cs \<longrightarrow>
   cols (aplicar_mapeamento_categorias lw dados [(a, b), (b, d)]) =
     map (\<lambda>kv. if fst kv = c
               then (fst kv, map (\<lambda>v. if v = VStr a \<or> v = VStr b then VStr d else v) (snd kv))
               else kv) (cols dados)"
  by (auto simp: aplicar_mapeamento_cols trocar_def)

theorem aplicar_mapeamento_encadeado_witness:
  "colunas_categoria lower_latin1 lancamentos_exemplo = [c_Categoria] \<and>
   get_col (aplicar_mapeamento_categorias lower_latin1 lancamentos_exemplo
              [(ascii ''A'', ascii ''B''), (ascii ''B'', ascii ''C'')]) c_Categoria =
     Inr [VStr (ascii ''C''), VStr (ascii ''X''), VStr (ascii ''C'')] \<and>
   ascii ''C'' \<noteq> ascii ''B''"
  using aplicar_mapeamento_encadeado [of lower_latin1 lancamentos_exemplo c_Categoria "[]"
      "ascii ''A''" "ascii ''B''" "ascii ''C''"]
  by (simp add: colunas_categoria_exemplo get_col_def)
     (simp add: lancamentos_exemplo_def c_Categoria_def c_Valor_def ascii_def)

section \<open>Enforcing a column list\<close>

lemma filter_key_distinct:
  "distinct (map fst xs) \<Longrightarrow>
   filter (\<lambda>kv. fst kv = c) xs = (case map_of xs c of None \<Rightarrow> [] | Some v \<Rightarrow> [(c, v)])"
proof (induction xs)
  case Nil
  then show ?case by simp
next
  case (Cons x xs)
  then have "map_of xs (fst x) = None"
    by (simp add: map_of_eq_None_iff)
  with Cons show ?case by (cases x) (auto split: option.splits)
qed

lemma map_of_None_columns: "(map_of (cols df) c = None) = (c \<notin> set (columns df))"
  by (simp add: columns_def map_of_eq_None_iff)

lemma select_cols_distinct:
  assumes "distinct (columns df)" and "set names \<subseteq> set (columns df)"
  shows "select_cols df names = Inr (df\<lparr>cols := map (\<lambda>c. (c, the (map_of (cols df) c))) names\<rparr>)"
proof -
  have "filter (\<lambda>c. c \<notin> set (columns df)) names = []"
    using assms(2) by (auto simp: filter_empty_conv)
  moreover have "concat (map (\<lambda>c. filter (\<lambda>kv. fst kv = c) (cols df)) names) =
                 map (\<lambda>c. (c, the (map_of (cols df) c))) names"
    using assms(2)
  proof (induction names)
    case Nil
    then show ?case by simp
  next
    case (Cons n ns)
    then obtain v where "map_of (cols df) n = Some v"
      using map_of_None_columns [of df n] by (cases "map_of (cols df) n") auto
    with Cons show ?case
      using filter_key_distinct [of "cols df" n] assms(1) by (simp add: columns_def)
  qed
  ultimately show ?thesis by (simp add: select_cols_def)
qed

lemma foldl_acrescentar:
  "distinct req \<Longrightarrow>
   foldl acrescentar df req =
     df\<lparr>cols := cols df @ map (\<lambda>c. (c, replicate (nrows df) (VStr [])))
                             (filter (\<lambda>c. c \<notin> set (columns df)) req)\<rparr>"
proof (induction req arbitrary: df)
  case Nil
  then show ?case by simp
next
  case (Cons x xs)
  show ?case
  proof (cases "x \<in> set (columns df)")
    case True
    then have "acrescentar df x = df" by (simp add: acrescentar_def)
    with Cons True show ?thesis by simp
  next
    case False
    let ?df = "df\<lparr>cols := cols df @ [(x, replicate (nrows df) (VStr []))]\<rparr>"
    have a: "acrescentar df x = ?df"
      using False by (simp add: acrescentar_def set_col_scalar_def set_col_def)
    have c: "columns ?df = columns df @ [x]" by (simp add: columns_def)
    have f: "filter (\<lambda>c. c \<notin> set (columns ?df)) xs = filter (\<lambda>c. c \<notin> set (columns df)) xs"
      using Cons.prems by (auto simp: c intro: filter_cong)
    have "foldl acrescentar df (x # xs) = foldl acrescentar ?df xs" by (simp add: a)
    also have "\<dots> = ?df\<lparr>cols := cols ?df @ map (\<lambda>c. (c, replicate (nrows ?df) (VStr [])))
                             (filter (\<lambda>c. c \<notin> set (columns ?df)) xs)\<rparr>"
      using Cons.prems by (intro Cons.IH) simp
    finally show ?thesis using False by (simp add: f)
  qed
qed


lemma garantir_colunas_eq:
  assumes wf: "distinct (columns dados)" and req: "distinct req"
  shows "garantir_colunas dados req = Inr (colunas_garantidas dados req)"
proof -
  let ?novas = "map (\<lambda>c. (c, replicate (nrows dados) (VStr [])))
                    (filter (\<lambda>c. c \<notin> set (columns dados)) req)"
  let ?df = "dados\<lparr>cols := cols dados @ ?novas\<rparr>"
  have fold: "foldl acrescentar dados req = ?df"
    using req by (rule foldl_acrescentar)
  have cols_df: "columns ?df = columns dados @ filter (\<lambda>c. c \<notin> set (columns dados)) req"
    by (simp add: columns_def comp_def)
  have dist: "distinct (columns ?df)"
    using wf req by (auto simp: cols_df)
  have sub: "set req \<subseteq> set (columns ?df)" by (auto simp: cols_df)
  then have all: "filter (\<lambda>col. col \<in> set (columns ?df)) req = req"
    by (auto simp: filter_id_conv)
  have look: "the (map_of (cols ?df) c) =
              (case map_of (cols dados) c of Some vs \<Rightarrow> vs
               | None \<Rightarrow> replicate (nrows dados) (VStr []))" if "c \<in> set req" for c
  proof (cases "map_of (cols dados) c")
    case (Some vs)
    then show ?thesis by (simp add: map_add_Some_iff)
  next
    case None
    then have "c \<notin> set (columns dados)" by (simp add: map_of_None_columns)
    with that have "map_of ?novas c = Some (replicate (nrows dados) (VStr []))"
      by (simp add: map_of_map_restrict)
    with None show ?thesis by (simp add: map_add_def)
  qed
  have "garantir_colunas dados req = select_cols ?df req"
    by (simp add: garantir_colunas_def Let_def fold all del: frame.simps)
  also have "\<dots> = Inr (?df\<lparr>cols := map (\<lambda>c. (c, the (map_of (cols ?df) c))) req\<rparr>)"
    using dist sub by (rule select_cols_distinct)
  also have "map (\<lambda>c. (c, the (map_of (cols ?df) c))) req =
             map (\<lambda>c. (c, case map_of (cols dados) c of Some vs \<Rightarrow> vs
                           | None \<Rightarrow> replicate (nrows dados) (VStr []))) req"
    using look by (intro map_cong) auto
  finally show ?thesis by (simp add: colunas_garantidas_def)
qed

lemma map_of_keyed: "map_of (map (\<lambda>c. (c, f c)) xs) c = (if c \<in> set xs then Some (f c) else None)"
  by (induction xs) auto

lemma colunas_garantidas_idem:
  "colunas_garantidas (colunas_garantidas dados req) req = colunas_garantidas dados req"
  by (simp add: colunas_garantidas_def map_of_keyed cong: map_cong)

text \<open>
  Claim C7. For a well-formed table and a required list without repeated names,
  \<open>_garantir_colunas\<close> never fails and returns a table whose columns are exactly the required
  list in the required order, with the same number of rows: a required column that the table
  had keeps its cells, a missing one is filled with the empty text, and every other column is
  gone. Applying it again with the same list returns the same table.
\<close>

theorem garantir_colunas_schema:
  assumes "wf_frame dados" and "distinct req"
  shows "\<exists>r. garantir_colunas dados req = Inr r \<and>
             columns r = req \<and> nrows r = nrows dados \<and> wf_frame r \<and>
             (\<forall>c \<in> set req. get_col r c =
                 (if c \<in> set (columns dados) then get_col dados c
                  else Inr (replicate (nrows dados) (VStr [])))) \<and>
             garantir_colunas r req = Inr r"
proof -
  let ?r = "colunas_garantidas dados req"
  from assms have d: "distinct (columns dados)" by (simp add: wf_frame_def)
  have 1: "garantir_colunas dados req = Inr ?r"
    using d assms(2) by (rule garantir_colunas_eq)
  have 2: "columns ?r = req"
    by (simp add: colunas_garantidas_def columns_def comp_def)
  have 3: "nrows ?r = nrows dados"
    by (simp add: colunas_garantidas_def)
  have len: "length vs = nrows dados" if "map_of (cols dados) c = Some vs" for c vs
    using assms(1) map_of_SomeD [OF that] by (auto simp: wf_frame_def list_all_iff)
  have 4: "wf_frame ?r"
    unfolding wf_frame_def 2 3 using assms(2) len
    by (auto simp: colunas_garantidas_def list_all_iff split: option.splits)
  have 5: "\<forall>c \<in> set req. get_col ?r c =
                 (if c \<in> set (columns dados) then get_col dados c
                  else Inr (replicate (nrows dados) (VStr [])))"
  proof
    fix c assume "c \<in> set req"
    then show "get_col ?r c =
                 (if c \<in> set (columns dados) then get_col dados c
                  else Inr (replicate (nrows dados) (VStr [])))"
      using map_of_None_columns [of dados c]
      by (cases "map_of (cols dados) c")
         (simp_all add: get_col_def colunas_garantidas_def map_of_keyed)
  qed
  have "garantir_colunas ?r req = Inr (colunas_garantidas ?r req)"
    using assms(2) by (intro garantir_colunas_eq) (simp_all add: 2)
  then have 6: "garantir_colunas ?r req = Inr ?r"
    by (simp add: colunas_garantidas_idem)
  from 1 2 3 4 5 6 show ?thesis by blast
qed


theorem garantir_colunas_schema_witness:
  "wf_frame lancamentos_exemplo \<and> distinct [c_Valor, c_Nome, c_Categoria] \<and>
   (\<exists>r. garantir_colunas lancamentos_exemplo [c_Valor, c_Nome, c_Categoria] = Inr r \<and>
        columns r = [c_Valor, c_Nome, c_Categoria] \<and> nrows r = 3 \<and>
        get_col r c_Nome = Inr [VStr [], VStr [], VStr []] \<and>
        get_col r c_Valor = Inr [VInt 1500, VInt (- 25), VInt 7] \<and>
        garantir_colunas r [c_Valor, c_Nome, c_Categoria] = Inr r)"
proof -
  have d: "distinct [c_Valor, c_Nome, c_Categoria]"
    by (simp add: c_Valor_def c_Nome_def c_Categoria_def ascii_def)
  from garantir_colunas_schema [OF wf_lancamentos_exemplo d]
  obtain r where r: "garantir_colunas lancamentos_exemplo [c_Valor, c_Nome, c_Categoria] = Inr r"
    "columns r = [c_Valor, c_Nome, c_Categoria]" "nrows r = nrows lancamentos_exemplo"
    "\<forall>c \<in> set [c_Valor, c_Nome, c_Categoria]. get_col r c =
        (if c \<in> set (columns lancamentos_exemplo) then get_col lancamentos_exemplo c
         else Inr (replicate (nrows lancamentos_exemplo) (VStr [])))"
    "garantir_colunas r [c_Valor, c_Nome, c_Categoria] = Inr r"
    by blast
  have n: "nrows r = 3" using r(3) by (simp add: lancamentos_exemplo_def)
  have g: "get_col r c_Nome = Inr [VStr [], VStr [], VStr []]"
    "get_col r c_Valor = Inr [VInt 1500, VInt (- 25), VInt 7]"
    using r(4)
    by (simp_all add: lancamentos_exemplo_def columns_def get_col_def c_Valor_def c_Nome_def
        c_Categoria_def ascii_def numeral_3_eq_3)
  show ?thesis
    by (intro conjI exI [of _ r]) (fact wf_lancamentos_exemplo d r(1) r(2) n g(1) g(2) r(5))+
qed

section \<open>Transfers\<close>

lemma contas_da_movimentacao_blank:
  "isna v \<or> \<not> contains sep_para (py_str v) \<Longrightarrow> contas_da_movimentacao v = Inr ([], [])"
  by (auto simp: contas_da_movimentacao_def)

lemma sep_para_nonempty: "sep_para \<noteq> []"
  by (simp add: sep_para_def ascii_def)

lemma contas_da_movimentacao_split:
  assumes "\<not> isna v" and "py_str v = a @ sep_para @ b"
    and "\<not> contains sep_para (a @ butlast sep_para)"
  shows "contas_da_movimentacao v = Inr (strip a, strip b)"
proof -
  have "find_sub sep_para (a @ sep_para @ b) = Some (length a)"
    using sep_para_nonempty assms(3) by (rule find_sub_first)
  then have "split1 sep_para (py_str v) = Inr [a, b]"
    using sep_para_nonempty by (simp add: split1_def assms(2))
  moreover have "contains sep_para (py_str v)"
    unfolding assms(2) by (rule contains_occurrence)
  ultimately show ?thesis using assms(1) by (simp add: contas_da_movimentacao_def)
qed

lemma contas_da_movimentacao_total: "\<exists>p. contas_da_movimentacao v = Inr p"
  using sep_para_nonempty
  by (auto simp: contas_da_movimentacao_def split1_def split: option.splits)

lemma sequence_err_total:
  "\<forall>x \<in> set xs. \<exists>p. f x = Inr p \<Longrightarrow>
   \<exists>ps. sequence_err (map f xs) = Inr ps \<and> length ps = length xs \<and>
        (\<forall>i < length xs. f (xs ! i) = Inr (ps ! i))"
proof (induction xs)
  case Nil
  then show ?case by simp
next
  case (Cons x xs)
  then obtain p where p: "f x = Inr p" by auto
  from Cons obtain ps where ps: "sequence_err (map f xs) = Inr ps" "length ps = length xs"
    "\<forall>i < length xs. f (xs ! i) = Inr (ps ! i)" by auto
  have "\<forall>i < length (x # xs). f ((x # xs) ! i) = Inr ((p # ps) ! i)"
    using p ps(3) by (auto simp: nth_Cons split: nat.splits)
  with p ps(1,2) show ?case by (intro exI [of _ "p # ps"]) simp
qed

lemma columns_set_col:
  "columns (set_col df c vs) = (if c \<in> set (columns df) then columns df else columns df @ [c])"
  by (auto simp: set_col_def columns_def intro: map_idI)

lemma nrows_set_col: "nrows (set_col df c vs) = nrows df"
  by (simp add: set_col_def)

lemma map_of_replace:
  "map_of (map (\<lambda>kv. if fst kv = c then (c, vs) else kv) xs) c' =
     (if c' = c then map_option (\<lambda>_. vs) (map_of xs c) else map_of xs c')"
  by (induction xs) auto

lemma get_col_set_col: "get_col (set_col df c vs) c' = (if c' = c then Inr vs else get_col df c')"
proof (cases "c \<in> set (columns df)")
  case True
  then obtain v where "map_of (cols df) c = Some v"
    using map_of_None_columns [of df c] by (cases "map_of (cols df) c") auto
  with True show ?thesis
    by (simp add: get_col_def set_col_def map_of_replace)
next
  case False
  then have "map_of (cols df) c = None" by (simp add: map_of_None_columns)
  with False show ?thesis
    by (auto simp: get_col_def set_col_def map_add_def split: option.splits)
qed

lemma columns_drop_col: "columns (drop_col df c) = filter (\<lambda>k. k \<noteq> c) (columns df)"
  by (simp add: drop_col_def columns_def filter_map comp_def)

lemma nrows_drop_col: "nrows (drop_col df c) = nrows df"
  by (simp add: drop_col_def)

lemma map_of_filter_key:
  "map_of (filter (\<lambda>kv. fst kv \<noteq> c) xs) c' = (if c' = c then None else map_of xs c')"
  by (induction xs) auto

lemma get_col_drop_col:
  "get_col (drop_col df c) c' = (if c' = c then Inl (KeyError c') else get_col df c')"
  by (simp add: get_col_def drop_col_def map_of_filter_key)

lemma acrescentar_padrao_cases:
  "acrescentar_padrao hoje df c = df \<and> c \<in> set (columns df) \<or>
   (\<exists>v. acrescentar_padrao hoje df c = set_col_scalar df c v) \<and> c \<notin> set (columns df)"
  by (auto simp: acrescentar_padrao_def)

lemma get_col_acrescentar_padrao:
  "c \<in> set (columns df) \<Longrightarrow> get_col (acrescentar_padrao hoje df c') c = get_col df c"
  using acrescentar_padrao_cases [of hoje df c']
  by (auto simp: set_col_scalar_def get_col_set_col)

lemma columns_acrescentar_padrao:
  "columns (acrescentar_padrao hoje df c) =
     (if c \<in> set (columns df) then columns df else columns df @ [c])"
  using acrescentar_padrao_cases [of hoje df c]
  by (auto simp: set_col_scalar_def columns_set_col)

lemma foldl_acrescentar_padrao:
  "c \<in> set (columns df) \<longrightarrow> get_col (foldl (acrescentar_padrao hoje) df req) c = get_col df c"
  "distinct (columns df) \<longrightarrow> distinct (columns (foldl (acrescentar_padrao hoje) df req))"
  "set (columns (foldl (acrescentar_padrao hoje) df req)) = set (columns df) \<union> set req"
proof (induction req arbitrary: df)
  case Nil
  { case 1 show ?case by simp }
  { case 2 show ?case by simp }
  { case 3 show ?case by simp }
next
  case (Cons x xs)
  { case 1 show ?case
      using Cons(1) [of "acrescentar_padrao hoje df x"]
      by (auto simp: get_col_acrescentar_padrao columns_acrescentar_padrao) }
  { case 2 show ?case
      using Cons(2) [of "acrescentar_padrao hoje df x"]
      by (auto simp: columns_acrescentar_padrao) }
  { case 3 show ?case
      using Cons(3) [of "acrescentar_padrao hoje df x"]
      by (auto simp: columns_acrescentar_padrao) }
qed


lemma select_cols_get_col:
  assumes "distinct (columns df)" and "set names \<subseteq> set (columns df)"
  shows "\<exists>r. select_cols df names = Inr r \<and> columns r = names \<and> nrows r = nrows df \<and>
             (\<forall>c \<in> set names. get_col r c = get_col df c)"
proof -
  let ?r = "df\<lparr>cols := map (\<lambda>c. (c, the (map_of (cols df) c))) names\<rparr>"
  have 1: "select_cols df names = Inr ?r"
    using assms by (rule select_cols_distinct)
  have 2: "columns ?r = names" by (simp add: columns_def comp_def)
  have 3: "\<forall>c \<in> set names. get_col ?r c = get_col df c"
  proof
    fix c assume c: "c \<in> set names"
    with assms(2) obtain v where "map_of (cols df) c = Some v"
      using map_of_None_columns [of df c] by (cases "map_of (cols df) c") auto
    with c show "get_col ?r c = get_col df c"
      by (simp add: get_col_def map_of_keyed)
  qed
  from 1 2 3 show ?thesis by (intro exI [of _ ?r]) simp
qed

lemma nomes_transferencias:
  "c_ContaDebito \<noteq> c_ContaCredito" "c_ContaDebito \<noteq> c_Movimentacao"
  "c_ContaCredito \<noteq> c_Movimentacao"
  "c_ContaDebito \<in> set colunas_obrigatorias" "c_ContaCredito \<in> set colunas_obrigatorias"
  by (simp_all add: colunas_obrigatorias_def c_ContaDebito_def c_ContaCredito_def
      c_Movimentacao_def ascii_def)

lemma distinct_set_col: "distinct (columns df) \<Longrightarrow> distinct (columns (set_col df c vs))"
  by (simp add: columns_set_col)

lemma get_col_empty_frame:
  "c \<in> set names \<Longrightarrow> get_col (empty_frame names) c = Inr []"
  by (simp add: get_col_def empty_frame_def map_of_keyed)

lemma processar_transferencias_colunas:
  assumes wf: "wf_frame df" and mov: "get_col df c_Movimentacao = Inr movs"
    and seq: "sequence_err (map contas_da_movimentacao movs) = Inr contas"
    and len: "length contas = length movs"
  shows "\<exists>r. processar_transferencias hoje df = Inr r \<and> columns r = colunas_obrigatorias \<and>
             get_col r c_ContaDebito = Inr (map (\<lambda>p. VStr (fst p)) contas) \<and>
             get_col r c_ContaCredito = Inr (map (\<lambda>p. VStr (snd p)) contas)"
proof -
  from mov have some: "map_of (cols df) c_Movimentacao = Some movs"
    by (auto simp: get_col_def split: option.splits)
  then have incol: "c_Movimentacao \<in> set (columns df)"
    using map_of_None_columns [of df c_Movimentacao] by auto
  then have ne: "cols df \<noteq> []" by (auto simp: columns_def)
  from wf map_of_SomeD [OF some] have lm: "length movs = nrows df"
    by (auto simp: wf_frame_def list_all_iff)
  show ?thesis
  proof (cases "is_empty df")
    case True
    with ne lm len have "contas = []" by (simp add: is_empty_def)
    moreover have "columns (empty_frame colunas_obrigatorias) = colunas_obrigatorias"
      by (simp add: empty_frame_def columns_def comp_def)
    ultimately show ?thesis
      using True by (simp add: processar_transferencias_def get_col_empty_frame nomes_transferencias)
  next
    case False
    let ?d1 = "drop_col (set_col (set_col df c_ContaDebito (map (\<lambda>p. VStr (fst p)) contas))
                           c_ContaCredito (map (\<lambda>p. VStr (snd p)) contas)) c_Movimentacao"
    let ?d2 = "foldl (acrescentar_padrao hoje) ?d1 colunas_obrigatorias"
    have p: "processar_transferencias hoje df = select_cols ?d2 colunas_obrigatorias"
      using False incol by (simp add: processar_transferencias_def mov seq)
    have g1: "get_col ?d1 c_ContaDebito = Inr (map (\<lambda>p. VStr (fst p)) contas)"
      "get_col ?d1 c_ContaCredito = Inr (map (\<lambda>p. VStr (snd p)) contas)"
      by (simp_all add: get_col_drop_col get_col_set_col nomes_transferencias)
    have in1: "c_ContaDebito \<in> set (columns ?d1)" "c_ContaCredito \<in> set (columns ?d1)"
      by (auto simp: columns_drop_col columns_set_col nomes_transferencias)
    have d1: "distinct (columns ?d1)"
      using wf by (simp add: columns_drop_col distinct_set_col wf_frame_def)
    have d2: "distinct (columns ?d2)"
      using d1 foldl_acrescentar_padrao(2) by blast
    have s2: "set colunas_obrigatorias \<subseteq> set (columns ?d2)"
      by (simp add: foldl_acrescentar_padrao(3))
    have g2: "get_col ?d2 c_ContaDebito = Inr (map (\<lambda>p. VStr (fst p)) contas)"
      "get_col ?d2 c_ContaCredito = Inr (map (\<lambda>p. VStr (snd p)) contas)"
      using in1 g1 foldl_acrescentar_padrao(1) by simp_all
    from select_cols_get_col [OF d2 s2] obtain r where
      r: "select_cols ?d2 colunas_obrigatorias = Inr r" "columns r = colunas_obrigatorias"
         "\<forall>c \<in> set colunas_obrigatorias. get_col r c = get_col ?d2 c" by blast
    from r(3) g2 have "get_col r c_ContaDebito = Inr (map (\<lambda>p. VStr (fst p)) contas)"
      "get_col r c_ContaCredito = Inr (map (\<lambda>p. VStr (snd p)) contas)"
      by (simp_all add: nomes_transferencias)
    with p r(1,2) show ?thesis by simp
  qed
qed

text \<open>
  Claim C8. For a transfers table with a \<open>Movimentacao\<close> column the result has the five
  required columns, and row by row: a movement that is missing or whose text does not contain
  \<open>" para "\<close> gives a blank debit and a blank credit account; a movement of the form
  source, \<open>" para "\<close>, destination (split at the first \<open>" para "\<close>) gives the trimmed source
  as \<open>Conta Debito\<close> and the trimmed destination as \<open>Conta Credito\<close>.
\<close>

theorem processar_transferencias_contas:
  assumes "wf_frame df" and "get_col df c_Movimentacao = Inr movs"
  shows "\<exists>r deb cred.
           processar_transferencias hoje df = Inr r \<and> columns r = colunas_obrigatorias \<and>
           get_col r c_ContaDebito = Inr (map VStr deb) \<and>
           get_col r c_ContaCredito = Inr (map VStr cred) \<and>
           length deb = length movs \<and> length cred = length movs \<and>
           (\<forall>i < length movs.
              (isna (movs ! i) \<or> \<not> contains sep_para (py_str (movs ! i))
                 \<longrightarrow> deb ! i = [] \<and> cred ! i = []) \<and>
              (\<forall>a b. \<not> isna (movs ! i) \<and> py_str (movs ! i) = a @ sep_para @ b \<and>
                     \<not> contains sep_para (a @ butlast sep_para)
                 \<longrightarrow> deb ! i = strip a \<and> cred ! i = strip b))"
proof -
  from sequence_err_total [of movs contas_da_movimentacao] contas_da_movimentacao_total
  obtain contas where c: "sequence_err (map contas_da_movimentacao movs) = Inr contas"
    "length contas = length movs"
    "\<forall>i < length movs. contas_da_movimentacao (movs ! i) = Inr (contas ! i)" by blast
  from processar_transferencias_colunas [OF assms c(1,2), of hoje]
  obtain r where r: "processar_transferencias hoje df = Inr r" "columns r = colunas_obrigatorias"
    "get_col r c_ContaDebito = Inr (map (\<lambda>p. VStr (fst p)) contas)"
    "get_col r c_ContaCredito = Inr (map (\<lambda>p. VStr (snd p)) contas)" by blast
  let ?deb = "map fst contas" and ?cred = "map snd contas"
  have 1: "get_col r c_ContaDebito = Inr (map VStr ?deb)"
    "get_col r c_ContaCredito = Inr (map VStr ?cred)"
    using r(3,4) by (simp_all add: comp_def)
  have 2: "length ?deb = length movs" "length ?cred = length movs"
    using c(2) by simp_all
  have 3: "\<forall>i < length movs.
              (isna (movs ! i) \<or> \<not> contains sep_para (py_str (movs ! i))
                 \<longrightarrow> ?deb ! i = [] \<and> ?cred ! i = []) \<and>
              (\<forall>a b. \<not> isna (movs ! i) \<and> py_str (movs ! i) = a @ sep_para @ b \<and>
                     \<not> contains sep_para (a @ butlast sep_para)
                 \<longrightarrow> ?deb ! i = strip a \<and> ?cred ! i = strip b)"
  proof (intro allI impI conjI)
    fix i assume i: "i < length movs"
      and b: "isna (movs ! i) \<or> \<not> contains sep_para (py_str (movs ! i))"
    from contas_da_movimentacao_blank [OF b] c(3) i have "contas ! i = ([], [])" by simp
    with i c(2) show "?deb ! i = []" "?cred ! i = []" by simp_all
  next
    fix i a b assume i: "i < length movs"
      and s: "\<not> isna (movs ! i) \<and> py_str (movs ! i) = a @ sep_para @ b \<and>
              \<not> contains sep_para (a @ butlast sep_para)"
    then have "contas_da_movimentacao (movs ! i) = Inr (strip a, strip b)"
      using contas_da_movimentacao_split by blast
    with c(3) i have "contas ! i = (strip a, strip b)" by simp
    with i c(2) show "?deb ! i = strip a" "?cred ! i = strip b" by simp_all
  qed
  show ?thesis
    by (intro exI [of _ r] exI [of _ ?deb] exI [of _ ?cred] conjI)
       (fact r(1) r(2) 1(1) 1(2) 2(1) 2(2) 3)+
qed


lemma wf_transferencias_exemplo: "wf_frame transferencias_exemplo"
  by (simp add: wf_frame_def transferencias_exemplo_def columns_def c_Valor_def
      c_Movimentacao_def ascii_def)

lemma movimentacao_exemplo:
  "get_col transferencias_exemplo c_Movimentacao =
     Inr [VStr (ascii ''Banco A para Banco B''), VStr (ascii ''Saque''), VNaN]"
  by (simp add: get_col_def transferencias_exemplo_def c_Valor_def c_Movimentacao_def ascii_def)

lemma list3: "length xs = 3 \<Longrightarrow> xs = [xs ! 0, xs ! 1, xs ! 2]"
proof -
  assume "length xs = 3"
  then obtain a b c where "xs = [a, b, c]"
    by (cases xs; cases "tl xs"; cases "tl (tl xs)") (auto simp: numeral_3_eq_3)
  then show ?thesis by simp
qed

theorem processar_transferencias_contas_witness:
  "wf_frame transferencias_exemplo \<and>
   get_col transferencias_exemplo c_Movimentacao =
     Inr [VStr (ascii ''Banco A para Banco B''), VStr (ascii ''Saque''), VNaN] \<and>
   (\<exists>r. processar_transferencias (ascii ''05/11/2026'') transferencias_exemplo = Inr r \<and>
        get_col r c_ContaDebito = Inr [VStr (ascii ''Banco A''), VStr [], VStr []] \<and>
        get_col r c_ContaCredito = Inr [VStr (ascii ''Banco B''), VStr [], VStr []])"
proof -
  let ?movs = "[VStr (ascii ''Banco A para Banco B''), VStr (ascii ''Saque''), VNaN]"
  from processar_transferencias_contas [OF wf_transferencias_exemplo movimentacao_exemplo,
      of "ascii ''05/11/2026''"]
  obtain r deb cred where
    r: "processar_transferencias (ascii ''05/11/2026'') transferencias_exemplo = Inr r"
       "get_col r c_ContaDebito = Inr (map VStr deb)"
       "get_col r c_ContaCredito = Inr (map VStr cred)"
    and len: "length deb = length ?movs" "length cred = length ?movs"
    and rows: "\<forall>i < length ?movs.
              (isna (?movs ! i) \<or> \<not> contains sep_para (py_str (?movs ! i))
                 \<longrightarrow> deb ! i = [] \<and> cred ! i = []) \<and>
              (\<forall>a b. \<not> isna (?movs ! i) \<and> py_str (?movs ! i) = a @ sep_para @ b \<and>
                     \<not> contains sep_para (a @ butlast sep_para)
                 \<longrightarrow> deb ! i = strip a \<and> cred ! i = strip b)"
    by (elim exE conjE)
  have i0: "0 < length ?movs" and i1: "1 < length ?movs" and i2: "2 < length ?movs"
    by simp_all
  have h0: "\<not> isna (?movs ! 0) \<and>
        py_str (?movs ! 0) = ascii ''Banco A'' @ sep_para @ ascii ''Banco B'' \<and>
        \<not> contains sep_para (ascii ''Banco A'' @ butlast sep_para)"
    by (simp add: sep_para_def ascii_def contains_def)
  have st: "strip (ascii ''Banco A'') = ascii ''Banco A''"
    "strip (ascii ''Banco B'') = ascii ''Banco B''"
    by (simp_all add: strip_def ascii_def is_space_def)
  from rows [rule_format, OF i0, THEN conjunct2, rule_format, OF h0]
  have 0: "deb ! 0 = ascii ''Banco A''" "cred ! 0 = ascii ''Banco B''"
    by (simp_all only: st)
  have h1: "isna (?movs ! 1) \<or> \<not> contains sep_para (py_str (?movs ! 1))"
    by (simp add: sep_para_def ascii_def contains_def)
  from rows [rule_format, OF i1, THEN conjunct1, rule_format, OF h1]
  have 1: "deb ! 1 = []" "cred ! 1 = []" by simp_all
  have h2: "isna (?movs ! 2) \<or> \<not> contains sep_para (py_str (?movs ! 2))"
    by simp
  from rows [rule_format, OF i2, THEN conjunct1, rule_format, OF h2]
  have 2: "deb ! 2 = []" "cred ! 2 = []" by simp_all
  have l3: "length deb = 3" "length cred = 3" using len by simp_all
  have "deb = [deb ! 0, deb ! 1, deb ! 2]" "cred = [cred ! 0, cred ! 1, cred ! 2]"
    by (rule list3 [OF l3(1)], rule list3 [OF l3(2)])
  then have "deb = [ascii ''Banco A'', [], []]" "cred = [ascii ''Banco B'', [], []]"
    by (simp_all only: 0 1 2)
  then have g: "get_col r c_ContaDebito = Inr [VStr (ascii ''Banco A''), VStr [], VStr []]"
    "get_col r c_ContaCredito = Inr [VStr (ascii ''Banco B''), VStr [], VStr []]"
    using r(2,3) by simp_all
  show ?thesis
    by (intro conjI exI [of _ r])
       (fact wf_transferencias_exemplo movimentacao_exemplo r(1) g(1) g(2))+
qed

lemma data_exemplo:
  "\<exists>r. processar_transferencias hoje transferencias_exemplo = Inr r \<and>
       get_col r c_Data = Inr [VStr hoje, VStr hoje, VStr hoje]"
  by (simp add: processar_transferencias_def is_empty_def transferencias_exemplo_def columns_def
      get_col_def contas_da_movimentacao_def sep_para_def contains_def split1_def strip_def
      is_space_def drop_col_def set_col_def set_col_scalar_def acrescentar_padrao_def
      colunas_obrigatorias_def select_cols_def c_Data_def c_Valor_def c_Descricao_def
      c_ContaDebito_def c_ContaCredito_def c_Movimentacao_def ascii_def numeral_3_eq_3)


text \<open>
  Claim C5. The transfers output is not a function of the input tables alone: a table without
  a \<open>Data\<close> column gets the date of the run in every row, so the same table processed on two
  different days gives two different outputs. (The source's own comment in this function asks
  for a missing date to stay empty, and the sibling \<open>_processar_lancamentos\<close> and
  \<open>_formatar_transferencias\<close> do leave it empty.)
\<close>

theorem processar_transferencias_depende_do_relogio:
  "processar_transferencias (ascii ''05/11/2026'') transferencias_exemplo \<noteq>
   processar_transferencias (ascii ''06/11/2026'') transferencias_exemplo"
proof
  assume eq: "processar_transferencias (ascii ''05/11/2026'') transferencias_exemplo =
              processar_transferencias (ascii ''06/11/2026'') transferencias_exemplo"
  from data_exemplo [of "ascii ''05/11/2026''"] obtain r1 where
    r1: "processar_transferencias (ascii ''05/11/2026'') transferencias_exemplo = Inr r1"
        "get_col r1 c_Data = Inr (replicate 3 (VStr (ascii ''05/11/2026'')))"
    by (auto simp: numeral_3_eq_3)
  from data_exemplo [of "ascii ''06/11/2026''"] obtain r2 where
    r2: "processar_transferencias (ascii ''06/11/2026'') transferencias_exemplo = Inr r2"
        "get_col r2 c_Data = Inr (replicate 3 (VStr (ascii ''06/11/2026'')))"
    by (auto simp: numeral_3_eq_3)
  from eq r1(1) r2(1) have "r1 = r2" by simp
  with r1(2) r2(2) have "replicate 3 (VStr (ascii ''05/11/2026'')) =
                         replicate 3 (VStr (ascii ''06/11/2026''))" by simp
  then show False by (simp add: numeral_3_eq_3 ascii_def)
qed

section \<open>Numbers\<close>

text \<open>What Python prints for some floats, written as their decimals.\<close>

lemma replicate_pos: "0 < n \<Longrightarrow> replicate n x = x # replicate (n - 1) x"
  by (cases n) auto

lemma repr_float_exemplos:
  "repr_float 0 0 = ascii ''0.0''"
  "repr_float 7 0 = ascii ''7.0''"
  "repr_float 70 (- 1) = ascii ''7.0''"
  "repr_float 101 (- 2) = ascii ''1.01''"
  "repr_float (- 25) (- 1) = ascii ''-2.5''"
  "repr_float 12345 (- 1) = ascii ''1234.5''"
  "repr_float 1 (- 4) = ascii ''0.0001''"
  "repr_float 15 (- 6) = ascii ''1.5e-05''"
  "repr_float 1 15 = ascii ''1000000000000000.0''"
  "repr_float 1 16 = ascii ''1e+16''"
  "repr_float 12345 96 = ascii ''1.2345e+100''"
  by (simp_all add: repr_float_def sem_zeros.simps dec_digits.simps pad_def ascii_def
      replicate_pos)

text \<open>
  Equal numbers have the same representative, and \<open>unique\<close> and \<open>sorted\<close> treat whole
  numbers and floats together: of 1 and 1.0 the first one stays, and 2.5, 1, 1.5 are sorted
  by value.
\<close>

lemma chave_exemplos:
  "chave (VFloat 1 0) = VInt 1" "chave (VFloat 10 (- 1)) = VInt 1"
  "chave (VFloat 150 (- 2)) = VFloat 15 (- 1)" "chave (VFloat 0 3) = VInt 0"
  "chave (VFloat (- 2) 1) = VInt (- 20)"
  by (simp_all add: sem_zeros.simps)

lemma unique_numeros:
  "unique [VInt 1, VFloat 1 0, VStr (ascii ''1''), VFloat 15 (- 1), VInt 1] =
     [VInt 1, VStr (ascii ''1''), VFloat 15 (- 1)]"
  by (simp add: sem_zeros.simps)

lemma py_sorted_numeros:
  "py_sorted [VFloat 25 (- 1), VInt 1, VFloat 15 (- 1)] =
     Inr [VInt 1, VFloat 15 (- 1), VFloat 25 (- 1)]"
  "py_sorted [VInt 1, VStr (ascii ''1'')] = Inl TypeError"
  by (simp_all add: py_sorted_def ordem_numero_def)

section \<open>Inconsistent categories\<close>

lemma set_unique_subset: "set (unique vs) \<subseteq> set vs"
  by (induction vs) auto

lemma distinct_unique: "distinct (unique vs)"
  by (induction vs) auto

lemma set_unique: "inj_on chave (set vs) \<Longrightarrow> set (unique vs) = set vs"
proof (induction vs)
  case Nil
  then show ?case by simp
next
  case (Cons v vs)
  from Cons.prems have "inj_on chave (set vs)" by (simp add: inj_on_def)
  with Cons.IH have ih: "set (unique vs) = set vs" by simp
  have "{w \<in> set vs. chave w \<noteq> chave v} = set vs - {v}"
    using Cons.prems by (auto simp: inj_on_def)
  with ih show ?case by auto
qed

lemma chave_str: "is_str v \<Longrightarrow> chave v = v"
  by (cases v) auto

lemma image_fixed: "\<forall>x \<in> A. f x = x \<Longrightarrow> f ` A = A"
  by force

lemma set_dropna: "set (dropna vs) = {v \<in> set vs. \<not> isna v}"
  by (auto simp: dropna_def)

lemma VStr_the_str: "is_str v \<Longrightarrow> VStr (the_str v) = v"
  by (cases v) auto

lemma py_sorted_str:
  assumes "\<forall>v \<in> set vs. is_str v" and "distinct vs"
  shows "\<exists>res. py_sorted vs = Inr res \<and> set res = set vs \<and> distinct res \<and>
               py_sorted res = Inr res"
proof (cases "length vs \<le> 1")
  case True
  then show ?thesis using assms(2) by (simp add: py_sorted_def)
next
  case False
  let ?res = "map VStr (sort (map the_str vs))"
  have 1: "py_sorted vs = Inr ?res" using False assms(1) by (simp add: py_sorted_def)
  have "set ?res = (\<lambda>v. VStr (the_str v)) ` set vs" by (simp add: image_image)
  also have "\<dots> = set vs" using assms(1) by (auto simp: VStr_the_str image_iff)
  finally have 2: "set ?res = set vs" .
  have "inj_on the_str (set vs)"
    using assms(1) by (intro inj_onI) (metis VStr_the_str)
  then have "distinct (map the_str vs)" using assms(2) by (simp add: distinct_map)
  then have 3: "distinct ?res" by (simp add: distinct_map inj_on_def)
  have "map the_str ?res = sort (map the_str vs)" by (simp add: comp_def)
  then have "sort (map the_str ?res) = sort (map the_str vs)"
    by (simp add: sort_key_id_if_sorted)
  moreover have "\<forall>v \<in> set ?res. is_str v" by auto
  ultimately have 4: "py_sorted ?res = Inr ?res"
    using False by (simp add: py_sorted_def)
  from 1 2 3 4 show ?thesis by blast
qed

lemma limpar_categoria_pares:
  "\<exists>pares. sequence_err (map limpar_categoria ps) = Inr pares \<and> length pares = length ps \<and>
           (\<forall>i < length ps. limpar_categoria (ps ! i) = Inr (pares ! i))"
  using sequence_err_total [of ps limpar_categoria] limpar_categoria_total by auto

lemma nomes_limpos_set:
  assumes "length pares = length ps"
    and "\<forall>i < length ps. limpar_categoria (ps ! i) = Inr (pares ! i)"
  shows "set (map (\<lambda>p. VStr (snd p)) pares) =
         {VStr nome |x codigo nome. x \<in> set ps \<and> limpar_categoria x = Inr (codigo, nome)}"
proof (intro set_eqI iffI)
  fix v assume "v \<in> set (map (\<lambda>p. VStr (snd p)) pares)"
  then obtain i where i: "i < length pares" "v = VStr (snd (pares ! i))"
    by (auto simp: in_set_conv_nth)
  with assms have "limpar_categoria (ps ! i) = Inr (fst (pares ! i), snd (pares ! i))"
    "ps ! i \<in> set ps" by auto
  with i(2) show "v \<in> {VStr nome |x codigo nome. x \<in> set ps \<and> limpar_categoria x = Inr (codigo, nome)}"
    by blast
next
  fix v assume "v \<in> {VStr nome |x codigo nome. x \<in> set ps \<and> limpar_categoria x = Inr (codigo, nome)}"
  then obtain x codigo nome where x: "v = VStr nome" "x \<in> set ps"
    "limpar_categoria x = Inr (codigo, nome)" by blast
  from x(2) obtain i where i: "i < length ps" "ps ! i = x" by (auto simp: in_set_conv_nth)
  with assms x(3) have "pares ! i = (codigo, nome)" "i < length pares" by auto
  then have "VStr (snd (pares ! i)) \<in> set (map (\<lambda>p. VStr (snd p)) pares)"
    by (metis (no_types, lifting) length_map nth_map nth_mem)
  with x(1) \<open>pares ! i = (codigo, nome)\<close> show "v \<in> set (map (\<lambda>p. VStr (snd p)) pares)" by simp
qed

lemma dropna_VStr: "dropna (map (\<lambda>p. VStr (f p)) xs) = map (\<lambda>p. VStr (f p)) xs"
  by (induction xs) (auto simp: dropna_def)

lemma filter_chave_textos:
  assumes "\<forall>v \<in> set xs. is_str v"
  shows "set (filter (\<lambda>v. chave v \<notin> N) xs) = set xs - N"
  using assms chave_str by auto

lemma analisar_categorias_eq:
  assumes "get_col lanc cl = Inr vs" and "get_col cats cp = Inr ps"
    and "\<forall>v \<in> set vs. isna v \<or> is_str v"
  shows "\<exists>d. analisar_categorias lanc cats cl cp = py_sorted d \<and> distinct d \<and>
             (\<forall>v \<in> set d. is_str v) \<and>
             set d = {v \<in> set vs. \<not> isna v} -
                     {VStr nome |x codigo nome. x \<in> set ps \<and> limpar_categoria x = Inr (codigo, nome)}"
proof -
  from limpar_categoria_pares [of ps] obtain pares where
    p: "sequence_err (map limpar_categoria ps) = Inr pares" "length pares = length ps"
       "\<forall>i < length ps. limpar_categoria (ps ! i) = Inr (pares ! i)" by blast
  define nomes where "nomes = map (\<lambda>p. VStr (snd p)) pares"
  let ?d = "filter (\<lambda>v. chave v \<notin> set (map chave (unique (dropna nomes)))) (unique (dropna vs))"
  have tx: "\<forall>v \<in> set (dropna vs). is_str v"
    using assms(3) by (auto simp: set_dropna)
  then have inj: "inj_on chave (set (dropna vs))"
    by (intro inj_onI) (metis chave_str)
  have u: "set (unique (dropna vs)) = set (dropna vs)"
    using inj by (rule set_unique)
  have nm: "\<forall>v \<in> set nomes. is_str v" by (auto simp: nomes_def)
  then have inj': "inj_on chave (set nomes)"
    by (intro inj_onI) (metis chave_str)
  have dn: "dropna nomes = nomes" unfolding nomes_def by (rule dropna_VStr)
  have "set (map chave (unique (dropna nomes))) = chave ` set nomes"
    using set_unique [OF inj'] by (simp add: dn)
  also have "\<dots> = set nomes" using nm chave_str by (intro image_fixed) blast
  finally have k: "set (map chave (unique (dropna nomes))) = set nomes" .
  have "analisar_categorias lanc cats cl cp = py_sorted ?d"
    by (simp add: analisar_categorias_def processar_categorias_com_codigo_def assms(1,2) p(1)
        get_col_set_col Let_def nomes_def)
  moreover have "distinct ?d" by (simp add: distinct_unique)
  moreover have "\<forall>v \<in> set ?d. is_str v"
    using tx u by auto
  moreover have "set ?d = set (unique (dropna vs)) - set nomes"
    unfolding k using tx u by (intro filter_chave_textos) simp
  then have "set ?d = {v \<in> set vs. \<not> isna v} - set nomes"
    unfolding u set_dropna .
  then have "set ?d = {v \<in> set vs. \<not> isna v} -
                     {VStr nome |x codigo nome. x \<in> set ps \<and> limpar_categoria x = Inr (codigo, nome)}"
    unfolding nomes_def nomes_limpos_set [OF p(2,3), symmetric] .
  ultimately show ?thesis by blast
qed

text \<open>
  What the function does when every category of the transactions is a text or is missing:
  it writes no message and returns, each once and in sorted order, exactly the categories
  that are the clean name of no chart entry (equality of texts, so case-sensitive).
\<close>

lemma encontrar_categorias_inconsistentes_textos:
  assumes "get_col lanc (coluna_lancamentos ml) = Inr vs"
    and "coluna_plano lw cats mp = Some cp" and "get_col cats cp = Inr ps"
    and "\<forall>v \<in> set vs. isna v \<or> is_str v"
  shows "\<exists>res. encontrar_categorias_inconsistentes lw lanc cats ml mp = ([], Inr res) \<and>
               set res = {v \<in> set vs. \<not> isna v} -
                         {VStr nome |x codigo nome.
                            x \<in> set ps \<and> limpar_categoria x = Inr (codigo, nome)} \<and>
               distinct res \<and> py_sorted res = Inr res"
proof -
  from analisar_categorias_eq [OF assms(1,3,4)] obtain d where
    d: "analisar_categorias lanc cats (coluna_lancamentos ml) cp = py_sorted d" "distinct d"
       "\<forall>v \<in> set d. is_str v"
       "set d = {v \<in> set vs. \<not> isna v} -
                {VStr nome |x codigo nome. x \<in> set ps \<and> limpar_categoria x = Inr (codigo, nome)}"
    by blast
  from py_sorted_str [OF d(3,2)] obtain res where res: "py_sorted d = Inr res" "set res = set d"
    "distinct res" "py_sorted res = Inr res"
    by blast
  have "encontrar_categorias_inconsistentes lw lanc cats ml mp = ([], Inr res)"
    by (simp add: encontrar_categorias_inconsistentes_def assms(2) d(1) res(1))
  with res(2,3,4) d(4) show ?thesis by blast
qed

lemma distinct_singleton: "distinct xs \<Longrightarrow> set xs = {x} \<Longrightarrow> xs = [x]"
  by (cases xs; cases "tl xs") auto

lemma limpar_despesa_x:
  "limpar_categoria (VStr (ascii ''2.01 - Despesa X'')) = Inr (ascii ''2.01'', ascii ''Despesa X'')"
  by (simp add: limpar_categoria_def texto_de_def strip_def is_space_def separadores_def
      contains_def split1_def ascii_def)

lemma coluna_plano_exemplo: "coluna_plano lower_latin1 plano_exemplo None = Some c_Nome"
  by (simp add: coluna_plano_def encontrar_coluna_categoria_def plano_exemplo_def columns_def
      palavras_chave_def c_Nome_def lower_latin1_def strip_def is_space_def contains_def
      ascii_def)

lemma coluna_plano_numerico: "coluna_plano lower_latin1 plano_numerico None = None"
  by (simp add: coluna_plano_def encontrar_coluna_categoria_def plano_numerico_def columns_def
      palavras_chave_def lower_latin1_def strip_def is_space_def contains_def ascii_def
      coluna_de_texto_def dtype_object_def)


lemma pair_minus_single: "x \<noteq> y \<Longrightarrow> {x, y} - {y} = {x}"
  by auto

text \<open>
  The example of the specification: the categories \<open>Receita Vendas\<close> and \<open>Despesa X\<close>
  against a chart whose only clean name is \<open>Despesa X\<close> give \<open>Receita Vendas\<close>.
\<close>

lemma encontrar_categorias_inconsistentes_vendas:
  "encontrar_categorias_inconsistentes lower_latin1 lancamentos_vendas plano_exemplo None None =
     ([], Inr [VStr (ascii ''Receita Vendas'')])"
proof -
  let ?rv = "VStr (ascii ''Receita Vendas'')" and ?dx = "VStr (ascii ''Despesa X'')"
  let ?vs = "[?rv, ?dx, ?rv, VNaN]"
  let ?ps = "[VStr (ascii ''2.01 - Despesa X'')]"
  have g1: "get_col lancamentos_vendas (coluna_lancamentos None) = Inr ?vs"
    by (simp add: get_col_def lancamentos_vendas_def coluna_lancamentos_def)
  have g2: "get_col plano_exemplo c_Nome = Inr ?ps"
    by (simp add: get_col_def plano_exemplo_def)
  have h: "\<forall>v \<in> set ?vs. isna v \<or> is_str v"
    by simp
  from encontrar_categorias_inconsistentes_textos [OF g1 coluna_plano_exemplo g2 h]
  obtain res where res:
    "encontrar_categorias_inconsistentes lower_latin1 lancamentos_vendas plano_exemplo None None =
       ([], Inr res)"
    "set res = {v \<in> set ?vs. \<not> isna v} -
               {VStr nome |x codigo nome. x \<in> set ?ps \<and> limpar_categoria x = Inr (codigo, nome)}"
    "distinct res" by (elim exE conjE)
  have a: "{VStr nome |x codigo nome. x \<in> set ?ps \<and> limpar_categoria x = Inr (codigo, nome)} =
        {?dx}"
    by (auto simp: limpar_despesa_x)
  have b: "{v \<in> set ?vs. \<not> isna v} = {?rv, ?dx}"
    by auto
  have c: "?rv \<noteq> ?dx"
    by (simp add: ascii_def)
  have "set res = {?rv, ?dx} - {?dx}"
    using res(2) unfolding a b .
  also have "\<dots> = {?rv}" using c by (rule pair_minus_single)
  finally have "res = [?rv]" using res(3) by (intro distinct_singleton)
  with res(1) show ?thesis by simp
qed


lemma get_col_absent: "c \<notin> set (columns df) \<Longrightarrow> get_col df c = Inl (KeyError c)"
  using map_of_None_columns [of df c] by (simp add: get_col_def)

lemma get_col_present: "c \<in> set (columns df) \<Longrightarrow> \<exists>vs. get_col df c = Inr vs"
  using map_of_None_columns [of df c] by (cases "map_of (cols df) c") (auto simp: get_col_def)

lemma analisar_categorias_sem_plano:
  "cp \<notin> set (columns cats) \<Longrightarrow> analisar_categorias lanc cats cl cp = Inl (KeyError cp)"
  by (simp add: analisar_categorias_def processar_categorias_com_codigo_def get_col_absent)

lemma analisar_categorias_sem_lancamentos:
  assumes "cp \<in> set (columns cats)" and cl: "cl \<notin> set (columns lanc)"
  shows "analisar_categorias lanc cats cl cp = Inl (KeyError cl)"
proof -
  from assms(1) obtain ps where "get_col cats cp = Inr ps" using get_col_present by blast
  moreover from limpar_categoria_pares [of ps] obtain pares where
    "sequence_err (map limpar_categoria ps) = Inr pares" by blast
  ultimately show ?thesis
    using cl by (simp add: analisar_categorias_def processar_categorias_com_codigo_def
        get_col_absent)
qed

text \<open>
  Claim C3, as the code has it. The function never raises. When no category column can be
  found in the chart, or the chart column or the transactions column is absent, it writes
  exactly one error message and returns the empty list, which is also what it returns when
  every category is consistent.
\<close>

theorem encontrar_categorias_inconsistentes_falhas:
  "(\<exists>r. snd (encontrar_categorias_inconsistentes lw lanc cats ml mp) = Inr r) \<and>
   (coluna_plano lw cats mp = None \<longrightarrow>
      encontrar_categorias_inconsistentes lw lanc cats ml mp = ([Coluna_nao_encontrada], Inr [])) \<and>
   (\<forall>cp. coluna_plano lw cats mp = Some cp \<and> cp \<notin> set (columns cats) \<longrightarrow>
      encontrar_categorias_inconsistentes lw lanc cats ml mp =
        ([Erro_ao_analisar (KeyError cp)], Inr [])) \<and>
   (\<forall>cp. coluna_plano lw cats mp = Some cp \<and> cp \<in> set (columns cats) \<and>
         coluna_lancamentos ml \<notin> set (columns lanc) \<longrightarrow>
      encontrar_categorias_inconsistentes lw lanc cats ml mp =
        ([Erro_ao_analisar (KeyError (coluna_lancamentos ml))], Inr []))"
proof (intro conjI allI impI)
  show "\<exists>r. snd (encontrar_categorias_inconsistentes lw lanc cats ml mp) = Inr r"
    by (simp add: encontrar_categorias_inconsistentes_def split: option.splits sum.splits)
  show "encontrar_categorias_inconsistentes lw lanc cats ml mp = ([Coluna_nao_encontrada], Inr [])"
    if "coluna_plano lw cats mp = None"
    using that by (simp add: encontrar_categorias_inconsistentes_def)
next
  fix cp assume "coluna_plano lw cats mp = Some cp \<and> cp \<notin> set (columns cats)"
  then show "encontrar_categorias_inconsistentes lw lanc cats ml mp =
        ([Erro_ao_analisar (KeyError cp)], Inr [])"
    by (simp add: encontrar_categorias_inconsistentes_def analisar_categorias_sem_plano)
next
  fix cp assume "coluna_plano lw cats mp = Some cp \<and> cp \<in> set (columns cats) \<and>
         coluna_lancamentos ml \<notin> set (columns lanc)"
  then show "encontrar_categorias_inconsistentes lw lanc cats ml mp =
        ([Erro_ao_analisar (KeyError (coluna_lancamentos ml))], Inr [])"
    by (simp add: encontrar_categorias_inconsistentes_def analisar_categorias_sem_lancamentos)
qed

lemma sem_categoria:
  "c_Nome \<in> set (columns plano_exemplo) \<and>
   coluna_lancamentos None \<notin> set (columns lancamentos_sem_categoria)"
  by (simp add: plano_exemplo_def columns_def coluna_lancamentos_def
      lancamentos_sem_categoria_def c_Categoria_def c_Valor_def ascii_def)

text \<open>
  The claim as stated asks for a failure that reaches the caller. With the category column
  absent from the transactions the outcome is a normal return of the empty list.
\<close>

theorem encontrar_categorias_inconsistentes_retorna_vazio:
  "snd (encontrar_categorias_inconsistentes lower_latin1 lancamentos_sem_categoria plano_exemplo
          None None) = Inr [] \<and>
   c_Categoria \<notin> set (columns lancamentos_sem_categoria)"
  using sem_categoria
  by (simp add: encontrar_categorias_inconsistentes_def coluna_plano_exemplo
      analisar_categorias_sem_lancamentos coluna_lancamentos_def)

theorem encontrar_categorias_inconsistentes_falhas_witness:
  "coluna_plano lower_latin1 plano_numerico None = None \<and>
   encontrar_categorias_inconsistentes lower_latin1 lancamentos_vendas plano_numerico None None =
     ([Coluna_nao_encontrada], Inr []) \<and>
   coluna_plano lower_latin1 plano_exemplo None = Some c_Nome \<and>
   c_Nome \<in> set (columns plano_exemplo) \<and>
   coluna_lancamentos None \<notin> set (columns lancamentos_sem_categoria) \<and>
   encontrar_categorias_inconsistentes lower_latin1 lancamentos_sem_categoria plano_exemplo
     None None = ([Erro_ao_analisar (KeyError (coluna_lancamentos None))], Inr [])"
proof -
  have cp: "coluna_plano lower_latin1 plano_exemplo None = Some c_Nome \<and>
            c_Nome \<in> set (columns plano_exemplo) \<and>
            coluna_lancamentos None \<notin> set (columns lancamentos_sem_categoria)"
    using coluna_plano_exemplo sem_categoria by simp
  note t1 = encontrar_categorias_inconsistentes_falhas [of lower_latin1 lancamentos_vendas
      plano_numerico None None, THEN conjunct2, THEN conjunct1, rule_format,
      OF coluna_plano_numerico]
  note t2 = encontrar_categorias_inconsistentes_falhas [of lower_latin1
      lancamentos_sem_categoria plano_exemplo None None, THEN conjunct2, THEN conjunct2,
      THEN conjunct2, rule_format, OF cp]
  from coluna_plano_numerico cp t1 t2 show ?thesis by simp
qed


text \<open>
  Claim C1. The result is not always the set difference. With the transaction categories
  \<open>Receita Vendas\<close> (a text) and 2024 (a number) and a chart whose only clean name is
  \<open>Despesa X\<close>, both categories are absent from the chart, but \<open>sorted\<close> cannot compare a
  text with a number: it raises \<open>TypeError\<close>, the \<open>except\<close> clause writes the message and
  the function returns the empty list.
\<close>

theorem encontrar_categorias_inconsistentes_mistas:
  "get_col lancamentos_mistos c_Categoria = Inr [VStr (ascii ''Receita Vendas''), VInt 2024] \<and>
   get_col plano_exemplo c_Nome = Inr [VStr (ascii ''2.01 - Despesa X'')] \<and>
   limpar_categoria (VStr (ascii ''2.01 - Despesa X'')) =
     Inr (ascii ''2.01'', ascii ''Despesa X'') \<and>
   encontrar_categorias_inconsistentes lower_latin1 lancamentos_mistos plano_exemplo None None =
     ([Erro_ao_analisar TypeError], Inr [])"
proof -
  have g1: "get_col lancamentos_mistos (coluna_lancamentos None) =
          Inr [VStr (ascii ''Receita Vendas''), VInt 2024]"
    by (simp add: get_col_def lancamentos_mistos_def coluna_lancamentos_def)
  have g2: "get_col plano_exemplo c_Nome = Inr [VStr (ascii ''2.01 - Despesa X'')]"
    by (simp add: get_col_def plano_exemplo_def)
  have "analisar_categorias lancamentos_mistos plano_exemplo (coluna_lancamentos None) c_Nome =
          py_sorted (filter (\<lambda>v. chave v \<notin> set (map chave (unique (dropna [VStr (ascii ''Despesa X'')]))))
                            (unique (dropna [VStr (ascii ''Receita Vendas''), VInt 2024])))"
    by (simp add: analisar_categorias_def processar_categorias_com_codigo_def g1 g2
        limpar_despesa_x get_col_set_col)
  also have "\<dots> = Inl TypeError"
    by (simp add: dropna_def py_sorted_def ascii_def)
  finally have "encontrar_categorias_inconsistentes lower_latin1 lancamentos_mistos plano_exemplo
      None None = ([Erro_ao_analisar TypeError], Inr [])"
    by (simp add: encontrar_categorias_inconsistentes_def coluna_plano_exemplo)
  with g1 g2 limpar_despesa_x show ?thesis
    by (simp add: coluna_lancamentos_def)
qed

section \<open>The categories table\<close>

lemma nomes_categorias: "c_Codigo \<noteq> c_Nome"
  by (simp add: c_Codigo_def c_Nome_def ascii_def)

lemma colunas_finais_ext:
  "\<exists>ext. foldl (\<lambda>finais col.
              if col \<notin> set finais \<and> lw col \<in> set [ascii ''tipo'', ascii ''ativo'', ascii ''descricao'']
              then finais @ [col] else finais) f0 cs = f0 @ ext \<and> set ext \<subseteq> set cs"
proof (induction cs arbitrary: f0)
  case Nil
  then show ?case by simp
next
  case (Cons c cs)
  let ?step = "\<lambda>finais col.
              if col \<notin> set finais \<and> lw col \<in> set [ascii ''tipo'', ascii ''ativo'', ascii ''descricao'']
              then finais @ [col] else finais"
  from Cons [of "?step f0 c"] obtain ext where
    e: "foldl ?step (?step f0 c) cs = ?step f0 c @ ext" "set ext \<subseteq> set cs" by blast
  show ?case
  proof (cases "?step f0 c = f0")
    case True
    with e show ?thesis by (intro exI [of _ ext]) auto
  next
    case False
    then have "?step f0 c = f0 @ [c]" by (simp split: if_splits)
    with e show ?thesis by (intro exI [of _ "c # ext"]) auto
  qed
qed

lemma colunas_finais_props:
  "take 2 (colunas_finais lw df) = [c_Codigo, c_Nome]"
  "set (colunas_finais lw df) \<subseteq> {c_Codigo, c_Nome} \<union> set (columns df)"
proof -
  from colunas_finais_ext [of lw "[c_Codigo, c_Nome]" "columns df"] obtain ext where
    "colunas_finais lw df = [c_Codigo, c_Nome] @ ext" "set ext \<subseteq> set (columns df)"
    unfolding colunas_finais_def by blast
  then show "take 2 (colunas_finais lw df) = [c_Codigo, c_Nome]"
    "set (colunas_finais lw df) \<subseteq> {c_Codigo, c_Nome} \<union> set (columns df)"
    by auto
qed

lemma sep_hifen_nonempty: "sep_hifen \<noteq> []"
  by (simp add: sep_hifen_def ascii_def)

lemma separar_nome_total: "\<exists>p. separar_nome v = Inr p"
  using sep_hifen_nonempty
  by (auto simp: separar_nome_def split1_def split: option.splits)

lemma separar_nome_sem_hifen:
  "\<not> (is_str v \<and> contains sep_hifen (py_str v)) \<Longrightarrow>
   separar_nome v = Inr ([], if v \<noteq> VNone then py_str v else [])"
  by (auto simp: separar_nome_def)

lemma separar_nome_hifen:
  assumes "\<not> contains sep_hifen (a @ butlast sep_hifen)"
  shows "separar_nome (VStr (a @ sep_hifen @ b)) = Inr (strip a, strip b)"
proof -
  have "find_sub sep_hifen (a @ sep_hifen @ b) = Some (length a)"
    using sep_hifen_nonempty assms by (rule find_sub_first)
  then have "split1 sep_hifen (a @ sep_hifen @ b) = Inr [a, b]"
    using sep_hifen_nonempty by (simp add: split1_def)
  then show ?thesis
    by (simp add: separar_nome_def contains_occurrence)
qed


lemma separar_nome_pares:
  "\<exists>pares. sequence_err (map separar_nome itens) = Inr pares \<and> length pares = length itens \<and>
           (\<forall>i < length itens. separar_nome (itens ! i) = Inr (pares ! i))"
  using sequence_err_total [of itens separar_nome] separar_nome_total by auto

lemma get_col_length: "wf_frame df \<Longrightarrow> get_col df c = Inr vs \<Longrightarrow> length vs = nrows df"
  by (auto simp: get_col_def wf_frame_def list_all_iff split: option.splits dest!: map_of_SomeD)

lemma wf_set_col:
  assumes "wf_frame df" and "length vs = nrows df"
  shows "wf_frame (set_col df c vs)"
proof -
  have "distinct (columns (set_col df c vs))"
    using assms(1) by (simp add: wf_frame_def distinct_set_col)
  moreover have "list_all (\<lambda>kv. length (snd kv) = nrows (set_col df c vs)) (cols (set_col df c vs))"
    using assms by (auto simp: set_col_def list_all_iff wf_frame_def)
  ultimately show ?thesis by (simp add: wf_frame_def)
qed

lemma garantir_codigo_frame:
  assumes "wf_frame dados"
  shows "\<exists>d1. garantir_codigo dados = Inr d1 \<and> nrows d1 = nrows dados \<and> wf_frame d1 \<and>
              columns d1 =
                columns dados @ (if c_Codigo \<in> set (columns dados) then [] else [c_Codigo]) \<and>
              (\<forall>c. c \<noteq> c_Codigo \<and> c \<noteq> c_Nome \<longrightarrow> get_col d1 c = get_col dados c) \<and>
              (c_Codigo \<in> set (columns dados) \<longrightarrow> d1 = dados) \<and>
              (\<forall>a. c_Codigo \<notin> set (columns dados) \<and>
                   find (\<lambda>col. col \<in> set (columns dados)) colunas_possiveis_codigo = Some a \<longrightarrow>
                   get_col d1 c_Codigo = get_col dados a \<and> get_col d1 c_Nome = get_col dados c_Nome) \<and>
              (\<forall>itens. c_Codigo \<notin> set (columns dados) \<and>
                   find (\<lambda>col. col \<in> set (columns dados)) colunas_possiveis_codigo = None \<and>
                   get_col dados c_Nome = Inr itens \<longrightarrow>
                   (\<exists>pares. length pares = length itens \<and>
                      (\<forall>i < length itens. separar_nome (itens ! i) = Inr (pares ! i)) \<and>
                      get_col d1 c_Codigo = Inr (map (\<lambda>p. VStr (fst p)) pares) \<and>
                      get_col d1 c_Nome = Inr (map (\<lambda>p. VStr (snd p)) pares))) \<and>
              (c_Codigo \<notin> set (columns dados) \<and>
                   find (\<lambda>col. col \<in> set (columns dados)) colunas_possiveis_codigo = None \<and>
                   c_Nome \<notin> set (columns dados) \<longrightarrow>
                   get_col d1 c_Codigo = Inr (map (\<lambda>i. VInt (int i)) [1 ..< nrows dados + 1]))"
proof (cases "c_Codigo \<in> set (columns dados)")
  case True
  then have "garantir_codigo dados = Inr dados" by (simp add: garantir_codigo_def)
  with True assms show ?thesis by (intro exI [of _ dados]) simp
next
  case nc: False
  show ?thesis
  proof (cases "find (\<lambda>col. col \<in> set (columns dados)) colunas_possiveis_codigo")
    case (Some a)
    then have "a \<in> set (columns dados)" by (auto simp: find_Some_iff)
    then obtain vs where vs: "get_col dados a = Inr vs" using get_col_present by blast
    let ?d1 = "set_col dados c_Codigo vs"
    have "garantir_codigo dados = Inr ?d1"
      using nc Some vs by (simp add: garantir_codigo_def)
    moreover have "columns ?d1 = columns dados @ [c_Codigo]"
      using nc by (simp add: columns_set_col)
    moreover have "wf_frame ?d1"
      using assms get_col_length [OF assms vs] by (rule wf_set_col)
    ultimately show ?thesis
      using nc Some vs nomes_categorias
      by (intro exI [of _ ?d1]) (auto simp: nrows_set_col get_col_set_col)
  next
    case None
    show ?thesis
    proof (cases "c_Nome \<in> set (columns dados)")
      case True
      then obtain itens where it: "get_col dados c_Nome = Inr itens"
        using get_col_present by blast
      from separar_nome_pares [of itens] obtain pares where
        p: "sequence_err (map separar_nome itens) = Inr pares" "length pares = length itens"
           "\<forall>i < length itens. separar_nome (itens ! i) = Inr (pares ! i)" by blast
      let ?d0 = "set_col dados c_Codigo (map (\<lambda>p. VStr (fst p)) pares)"
      let ?d1 = "set_col ?d0 c_Nome (map (\<lambda>p. VStr (snd p)) pares)"
      have len: "length pares = nrows dados"
        using p(2) get_col_length [OF assms it] by simp
      have g: "garantir_codigo dados = Inr ?d1"
        using nc None True it p(1) by (simp add: garantir_codigo_def)
      have c: "columns ?d1 = columns dados @ [c_Codigo]"
        using nc True by (simp add: columns_set_col)
      have w0: "wf_frame ?d0" using assms by (rule wf_set_col) (simp add: len)
      have w: "wf_frame ?d1" using w0 by (rule wf_set_col) (simp add: nrows_set_col len)
      have gc: "get_col ?d1 c_Codigo = Inr (map (\<lambda>p. VStr (fst p)) pares)"
        "get_col ?d1 c_Nome = Inr (map (\<lambda>p. VStr (snd p)) pares)"
        using nomes_categorias by (simp_all add: get_col_set_col)
      have ex: "\<exists>pares'. length pares' = length itens \<and>
                      (\<forall>i < length itens. separar_nome (itens ! i) = Inr (pares' ! i)) \<and>
                      get_col ?d1 c_Codigo = Inr (map (\<lambda>p. VStr (fst p)) pares') \<and>
                      get_col ?d1 c_Nome = Inr (map (\<lambda>p. VStr (snd p)) pares')"
        using p(2,3) gc by blast
      show ?thesis
        using g c w ex nc None True it
        by (intro exI [of _ ?d1]) (auto simp: nrows_set_col get_col_set_col)
    next
      case False
      let ?d1 = "set_col dados c_Codigo (map (\<lambda>i. VInt (int i)) [1 ..< nrows dados + 1])"
      have "garantir_codigo dados = Inr ?d1"
        using nc None False by (simp add: garantir_codigo_def)
      moreover have "columns ?d1 = columns dados @ [c_Codigo]"
        using nc by (simp add: columns_set_col)
      moreover have "get_col dados c_Nome = Inl (KeyError c_Nome)"
        using False by (rule get_col_absent)
      moreover have "wf_frame ?d1" using assms by (intro wf_set_col) simp_all
      ultimately show ?thesis
        using nc None False nomes_categorias
        by (intro exI [of _ ?d1]) (auto simp: nrows_set_col get_col_set_col)
    qed
  qed
qed

lemma length_astype_str: "length (astype_str vs) = length vs"
  by (simp add: astype_str_def)

lemma astype_str_inteiros:
  "astype_str (map (\<lambda>i. VInt (int i)) xs) = map (\<lambda>i. str_int (int i)) xs"
  by (cases xs) (auto simp: astype_str_def)

lemma garantir_nome_frame:
  assumes "wf_frame d1" and "c_Codigo \<in> set (columns d1)"
  shows "\<exists>d2. garantir_nome lw d1 = Inr d2 \<and> nrows d2 = nrows d1 \<and> wf_frame d2 \<and>
              c_Codigo \<in> set (columns d2) \<and> c_Nome \<in> set (columns d2) \<and>
              get_col d2 c_Codigo = get_col d1 c_Codigo \<and>
              (c_Nome \<in> set (columns d1) \<longrightarrow> d2 = d1) \<and>
              (\<forall>nome_col. c_Nome \<notin> set (columns d1) \<and>
                   (\<exists>col \<in> set (columns d1). contains (ascii ''nome'') (lw col) \<and> col \<noteq> []) \<and>
                   find (\<lambda>col. contains (ascii ''nome'') (lw col)) (columns d1) = Some nome_col \<longrightarrow>
                   get_col d2 c_Nome = get_col d1 nome_col) \<and>
              (\<forall>cods. c_Nome \<notin> set (columns d1) \<and>
                   \<not> (\<exists>col \<in> set (columns d1). contains (ascii ''nome'') (lw col) \<and> col \<noteq> []) \<and>
                   get_col d1 c_Codigo = Inr cods \<longrightarrow>
                   get_col d2 c_Nome =
                     Inr (map (\<lambda>t. VStr (ascii ''Categoria '' @ t)) (astype_str cods)))"
proof (cases "c_Nome \<in> set (columns d1)")
  case True
  then have "garantir_nome lw d1 = Inr d1" by (simp add: garantir_nome_def)
  with True assms show ?thesis by (intro exI [of _ d1]) simp
next
  case nn: False
  show ?thesis
  proof (cases "\<exists>col \<in> set (columns d1). contains (ascii ''nome'') (lw col) \<and> col \<noteq> []")
    case True
    then obtain nome_col where
      f: "find (\<lambda>col. contains (ascii ''nome'') (lw col)) (columns d1) = Some nome_col"
      by (cases "find (\<lambda>col. contains (ascii ''nome'') (lw col)) (columns d1)")
         (auto simp: find_None_iff)
    then have "nome_col \<in> set (columns d1)" by (auto simp: find_Some_iff)
    then obtain vs where vs: "get_col d1 nome_col = Inr vs" using get_col_present by blast
    let ?d2 = "set_col d1 c_Nome vs"
    have "garantir_nome lw d1 = Inr ?d2"
      using nn True f vs by (simp add: garantir_nome_def)
    moreover have "columns ?d2 = columns d1 @ [c_Nome]"
      using nn by (simp add: columns_set_col)
    moreover have "wf_frame ?d2"
      using assms(1) get_col_length [OF assms(1) vs] by (rule wf_set_col)
    ultimately show ?thesis
      using nn True f vs assms nomes_categorias
      by (intro exI [of _ ?d2]) (auto simp: nrows_set_col get_col_set_col)
  next
    case False
    from assms(2) obtain cods where cods: "get_col d1 c_Codigo = Inr cods"
      using get_col_present by blast
    let ?d2 = "set_col d1 c_Nome (map (\<lambda>t. VStr (ascii ''Categoria '' @ t)) (astype_str cods))"
    have "garantir_nome lw d1 = Inr ?d2"
      unfolding garantir_nome_def using nn False cods by (simp only: if_True if_False) simp
    moreover have "columns ?d2 = columns d1 @ [c_Nome]"
      using nn by (simp add: columns_set_col)
    moreover have "wf_frame ?d2"
      using assms(1) get_col_length [OF assms(1) cods]
      by (intro wf_set_col) (simp_all add: length_astype_str)
    ultimately show ?thesis
      using nn False assms nomes_categorias cods
      by (intro exI [of _ ?d2]) (auto simp: nrows_set_col get_col_set_col)
  qed
qed

lemma processar_categorias_passos:
  assumes "wf_frame dados"
  shows "\<exists>d1 d2 r. garantir_codigo dados = Inr d1 \<and> garantir_nome lw d1 = Inr d2 \<and>
                   processar_categorias lw dados = Inr r \<and> nrows r = nrows d2 \<and>
                   take 2 (columns r) = [c_Codigo, c_Nome] \<and>
                   get_col r c_Codigo = get_col d2 c_Codigo \<and> get_col r c_Nome = get_col d2 c_Nome"
proof -
  from garantir_codigo_frame [OF assms] obtain d1 where
    d1: "garantir_codigo dados = Inr d1" "wf_frame d1"
        "columns d1 = columns dados @ (if c_Codigo \<in> set (columns dados) then [] else [c_Codigo])"
    by blast
  from d1(3) have cod: "c_Codigo \<in> set (columns d1)" by auto
  from garantir_nome_frame [OF d1(2) cod, of lw] obtain d2 where
    d2: "garantir_nome lw d1 = Inr d2" "wf_frame d2" "c_Codigo \<in> set (columns d2)"
        "c_Nome \<in> set (columns d2)" by blast
  from d2(2) have dist: "distinct (columns d2)" by (simp add: wf_frame_def)
  have sub: "set (colunas_finais lw d2) \<subseteq> set (columns d2)"
    using colunas_finais_props(2) [of lw d2] d2(3,4) by auto
  from select_cols_get_col [OF dist sub] obtain r where
    r: "select_cols d2 (colunas_finais lw d2) = Inr r" "columns r = colunas_finais lw d2"
       "nrows r = nrows d2" "\<forall>c \<in> set (colunas_finais lw d2). get_col r c = get_col d2 c"
    by blast
  have t: "take 2 (colunas_finais lw d2) = [c_Codigo, c_Nome]"
    by (rule colunas_finais_props(1))
  then have "c_Codigo \<in> set (colunas_finais lw d2)" "c_Nome \<in> set (colunas_finais lw d2)"
    by (metis in_set_takeD list.set_intros(1), metis in_set_takeD list.set_intros(1,2))
  with r(4) have g: "get_col r c_Codigo = get_col d2 c_Codigo" "get_col r c_Nome = get_col d2 c_Nome"
    by simp_all
  have "processar_categorias lw dados = Inr r"
    by (simp add: processar_categorias_def d1(1) d2(1) r(1))
  with d1(1) d2(1) r(2,3) t g show ?thesis by auto
qed


text \<open>
  Claim C6, as the code has it. For every well-formed chart of accounts, also one with no
  rows, \<open>_processar_categorias\<close> returns a table with the same number of rows whose first
  two columns are \<open>Codigo\<close> and \<open>Nome\<close>, with one code and one name for every row, blank or
  not.

  The code is the \<open>Codigo\<close> column of the input when there is one; else the first existing
  column among the aliases \<open>colunas_possiveis_codigo\<close>; else, when there is a \<open>Nome\<close>
  column, what is left of the first \<open>" - "\<close> of each name, trimmed, and the empty text for a
  name that has no \<open>" - "\<close> or is not a text (no other separator and no code pattern is
  tried); else the numbers 1 to n.

  The name is the \<open>Nome\<close> column of the input when there is one, unchanged when the code
  came from a column, and otherwise what is right of the first \<open>" - "\<close>, trimmed, or the
  \<open>str()\<close> of the whole cell (the empty text for \<open>None\<close>). Without a \<open>Nome\<close> column the name
  is copied from the first column, of the input's columns followed by the added \<open>Codigo\<close>,
  whose lower-cased name contains \<open>nome\<close>; without such a column it is \<open>Categoria\<close>
  followed by the \<open>astype(str)\<close> of the code, so \<open>Categoria 1\<close> to \<open>Categoria n\<close> for the
  numbers 1 to n.
\<close>

theorem processar_categorias_tabela:
  assumes "wf_frame dados"
  shows "\<exists>r. processar_categorias lw dados = Inr r \<and> nrows r = nrows dados \<and>
             take 2 (columns r) = [c_Codigo, c_Nome] \<and>
             (\<exists>cods nomes. get_col r c_Codigo = Inr cods \<and> get_col r c_Nome = Inr nomes \<and>
                 length cods = nrows dados \<and> length nomes = nrows dados) \<and>
             (c_Codigo \<in> set (columns dados) \<longrightarrow> get_col r c_Codigo = get_col dados c_Codigo) \<and>
             (\<forall>a. c_Codigo \<notin> set (columns dados) \<and>
                  find (\<lambda>col. col \<in> set (columns dados)) colunas_possiveis_codigo = Some a \<longrightarrow>
                  get_col r c_Codigo = get_col dados a) \<and>
             (c_Nome \<in> set (columns dados) \<and>
              (c_Codigo \<in> set (columns dados) \<or>
               find (\<lambda>col. col \<in> set (columns dados)) colunas_possiveis_codigo \<noteq> None) \<longrightarrow>
                  get_col r c_Nome = get_col dados c_Nome) \<and>
             (\<forall>itens. c_Codigo \<notin> set (columns dados) \<and>
                  find (\<lambda>col. col \<in> set (columns dados)) colunas_possiveis_codigo = None \<and>
                  get_col dados c_Nome = Inr itens \<longrightarrow>
                  (\<exists>pares. length pares = length itens \<and>
                     (\<forall>i < length itens. separar_nome (itens ! i) = Inr (pares ! i)) \<and>
                     get_col r c_Codigo = Inr (map (\<lambda>p. VStr (fst p)) pares) \<and>
                     get_col r c_Nome = Inr (map (\<lambda>p. VStr (snd p)) pares))) \<and>
             (c_Codigo \<notin> set (columns dados) \<and>
              find (\<lambda>col. col \<in> set (columns dados)) colunas_possiveis_codigo = None \<and>
              c_Nome \<notin> set (columns dados) \<longrightarrow>
                  get_col r c_Codigo = Inr (map (\<lambda>i. VInt (int i)) [1 ..< nrows dados + 1]) \<and>
                  (\<not> (\<exists>col \<in> insert c_Codigo (set (columns dados)).
                         contains (ascii ''nome'') (lw col) \<and> col \<noteq> []) \<longrightarrow>
                   get_col r c_Nome =
                     Inr (map (\<lambda>i. VStr (ascii ''Categoria '' @ str_int (int i)))
                              [1 ..< nrows dados + 1]))) \<and>
             (\<forall>nome_col. c_Nome \<notin> set (columns dados) \<and>
                  (\<exists>col \<in> insert c_Codigo (set (columns dados)).
                      contains (ascii ''nome'') (lw col) \<and> col \<noteq> []) \<and>
                  find (\<lambda>col. contains (ascii ''nome'') (lw col))
                       (columns dados @
                          (if c_Codigo \<in> set (columns dados) then [] else [c_Codigo])) =
                    Some nome_col \<longrightarrow>
                  get_col r c_Nome =
                    (if nome_col = c_Codigo then get_col r c_Codigo else get_col dados nome_col)) \<and>
             (\<forall>cods. c_Nome \<notin> set (columns dados) \<and>
                  \<not> (\<exists>col \<in> insert c_Codigo (set (columns dados)).
                         contains (ascii ''nome'') (lw col) \<and> col \<noteq> []) \<and>
                  get_col r c_Codigo = Inr cods \<longrightarrow>
                  get_col r c_Nome =
                    Inr (map (\<lambda>t. VStr (ascii ''Categoria '' @ t)) (astype_str cods))) \<and>
             (\<forall>v. \<not> (is_str v \<and> contains sep_hifen (py_str v)) \<longrightarrow>
                  separar_nome v = Inr ([], if v \<noteq> VNone then py_str v else [])) \<and>
             (\<forall>a b. \<not> contains sep_hifen (a @ butlast sep_hifen) \<longrightarrow>
                  separar_nome (VStr (a @ sep_hifen @ b)) = Inr (strip a, strip b)) \<and>
             sep_hifen = ascii '' - '' \<and>
             colunas_possiveis_codigo =
               [ascii ''C'' @ [243] @ ascii ''digo'', ascii ''Code'', ascii ''ID'',
                ascii ''C'' @ [243] @ ascii ''digo Pai'']"
proof -
  from garantir_codigo_frame [OF assms] obtain d1 where
    d1: "garantir_codigo dados = Inr d1" "nrows d1 = nrows dados" "wf_frame d1"
      "columns d1 = columns dados @ (if c_Codigo \<in> set (columns dados) then [] else [c_Codigo])"
      "\<forall>c. c \<noteq> c_Codigo \<and> c \<noteq> c_Nome \<longrightarrow> get_col d1 c = get_col dados c"
    and A: "c_Codigo \<in> set (columns dados) \<longrightarrow> d1 = dados"
    and B: "\<forall>a. c_Codigo \<notin> set (columns dados) \<and>
                   find (\<lambda>col. col \<in> set (columns dados)) colunas_possiveis_codigo = Some a \<longrightarrow>
                   get_col d1 c_Codigo = get_col dados a \<and> get_col d1 c_Nome = get_col dados c_Nome"
    and C: "\<forall>itens. c_Codigo \<notin> set (columns dados) \<and>
                   find (\<lambda>col. col \<in> set (columns dados)) colunas_possiveis_codigo = None \<and>
                   get_col dados c_Nome = Inr itens \<longrightarrow>
                   (\<exists>pares. length pares = length itens \<and>
                      (\<forall>i < length itens. separar_nome (itens ! i) = Inr (pares ! i)) \<and>
                      get_col d1 c_Codigo = Inr (map (\<lambda>p. VStr (fst p)) pares) \<and>
                      get_col d1 c_Nome = Inr (map (\<lambda>p. VStr (snd p)) pares))"
    and D: "c_Codigo \<notin> set (columns dados) \<and>
                   find (\<lambda>col. col \<in> set (columns dados)) colunas_possiveis_codigo = None \<and>
                   c_Nome \<notin> set (columns dados) \<longrightarrow>
                   get_col d1 c_Codigo = Inr (map (\<lambda>i. VInt (int i)) [1 ..< nrows dados + 1])"
    by (elim exE conjE)
  have cod1: "c_Codigo \<in> set (columns d1)" using d1(4) by auto
  have set1: "set (columns d1) = insert c_Codigo (set (columns dados))" using d1(4) by auto
  have nome1: "(c_Nome \<in> set (columns d1)) = (c_Nome \<in> set (columns dados))"
    using set1 nomes_categorias by auto
  from garantir_nome_frame [OF d1(3) cod1, of lw] obtain d2 where
    d2: "garantir_nome lw d1 = Inr d2" "nrows d2 = nrows d1" "wf_frame d2"
      "c_Codigo \<in> set (columns d2)" "c_Nome \<in> set (columns d2)"
      "get_col d2 c_Codigo = get_col d1 c_Codigo"
    and N: "c_Nome \<in> set (columns d1) \<longrightarrow> d2 = d1"
    and T: "\<forall>nome_col. c_Nome \<notin> set (columns d1) \<and>
                   (\<exists>col \<in> set (columns d1). contains (ascii ''nome'') (lw col) \<and> col \<noteq> []) \<and>
                   find (\<lambda>col. contains (ascii ''nome'') (lw col)) (columns d1) = Some nome_col \<longrightarrow>
                   get_col d2 c_Nome = get_col d1 nome_col"
    and S: "\<forall>cods. c_Nome \<notin> set (columns d1) \<and>
                   \<not> (\<exists>col \<in> set (columns d1). contains (ascii ''nome'') (lw col) \<and> col \<noteq> []) \<and>
                   get_col d1 c_Codigo = Inr cods \<longrightarrow>
                   get_col d2 c_Nome =
                     Inr (map (\<lambda>t. VStr (ascii ''Categoria '' @ t)) (astype_str cods))"
    by (elim exE conjE)
  from processar_categorias_passos [OF assms, of lw] d1(1) d2(1) obtain r where
    r: "processar_categorias lw dados = Inr r" "nrows r = nrows d2"
       "take 2 (columns r) = [c_Codigo, c_Nome]"
       "get_col r c_Codigo = get_col d2 c_Codigo" "get_col r c_Nome = get_col d2 c_Nome"
    by auto
  have rc: "get_col r c_Codigo = get_col d1 c_Codigo" using r(4) d2(6) by simp
  have rn: "c_Nome \<in> set (columns dados) \<Longrightarrow> get_col r c_Nome = get_col d1 c_Nome"
    using r(5) N nome1 by simp
  have 1: "nrows r = nrows dados" using r(2) d2(2) d1(2) by simp
  have 0: "\<exists>cods nomes. get_col r c_Codigo = Inr cods \<and> get_col r c_Nome = Inr nomes \<and>
                 length cods = nrows dados \<and> length nomes = nrows dados"
  proof -
    from d2(4,5) obtain cods nomes where
      g: "get_col d2 c_Codigo = Inr cods" "get_col d2 c_Nome = Inr nomes"
      using get_col_present by blast
    from get_col_length [OF d2(3) g(1)] get_col_length [OF d2(3) g(2)]
    have "length cods = nrows dados" "length nomes = nrows dados"
      using d2(2) d1(2) by simp_all
    with g r(4,5) show ?thesis by simp
  qed
  have 2: "c_Codigo \<in> set (columns dados) \<longrightarrow> get_col r c_Codigo = get_col dados c_Codigo"
    using rc A by auto
  have 3: "\<forall>a. c_Codigo \<notin> set (columns dados) \<and>
                  find (\<lambda>col. col \<in> set (columns dados)) colunas_possiveis_codigo = Some a \<longrightarrow>
                  get_col r c_Codigo = get_col dados a"
    using rc B by auto
  have 4: "c_Nome \<in> set (columns dados) \<and>
              (c_Codigo \<in> set (columns dados) \<or>
               find (\<lambda>col. col \<in> set (columns dados)) colunas_possiveis_codigo \<noteq> None) \<longrightarrow>
                  get_col r c_Nome = get_col dados c_Nome"
    using rn A B by auto
  have 5: "\<forall>itens. c_Codigo \<notin> set (columns dados) \<and>
                  find (\<lambda>col. col \<in> set (columns dados)) colunas_possiveis_codigo = None \<and>
                  get_col dados c_Nome = Inr itens \<longrightarrow>
                  (\<exists>pares. length pares = length itens \<and>
                     (\<forall>i < length itens. separar_nome (itens ! i) = Inr (pares ! i)) \<and>
                     get_col r c_Codigo = Inr (map (\<lambda>p. VStr (fst p)) pares) \<and>
                     get_col r c_Nome = Inr (map (\<lambda>p. VStr (snd p)) pares))"
  proof (intro allI impI)
    fix itens
    assume h: "c_Codigo \<notin> set (columns dados) \<and>
                  find (\<lambda>col. col \<in> set (columns dados)) colunas_possiveis_codigo = None \<and>
                  get_col dados c_Nome = Inr itens"
    then have "c_Nome \<in> set (columns dados)"
      using get_col_absent [of c_Nome dados] by auto
    with rn have "get_col r c_Nome = get_col d1 c_Nome" by simp
    with C h rc show "\<exists>pares. length pares = length itens \<and>
                     (\<forall>i < length itens. separar_nome (itens ! i) = Inr (pares ! i)) \<and>
                     get_col r c_Codigo = Inr (map (\<lambda>p. VStr (fst p)) pares) \<and>
                     get_col r c_Nome = Inr (map (\<lambda>p. VStr (snd p)) pares)"
      by simp
  qed
  have 9: "\<forall>cods. c_Nome \<notin> set (columns dados) \<and>
                  \<not> (\<exists>col \<in> insert c_Codigo (set (columns dados)).
                         contains (ascii ''nome'') (lw col) \<and> col \<noteq> []) \<and>
                  get_col r c_Codigo = Inr cods \<longrightarrow>
                  get_col r c_Nome =
                    Inr (map (\<lambda>t. VStr (ascii ''Categoria '' @ t)) (astype_str cods))"
  proof (intro allI impI)
    fix cods
    assume h: "c_Nome \<notin> set (columns dados) \<and>
                  \<not> (\<exists>col \<in> insert c_Codigo (set (columns dados)).
                         contains (ascii ''nome'') (lw col) \<and> col \<noteq> []) \<and>
                  get_col r c_Codigo = Inr cods"
    from h nome1 have a: "c_Nome \<notin> set (columns d1)" by simp
    from h have b: "\<not> (\<exists>col \<in> set (columns d1). contains (ascii ''nome'') (lw col) \<and> col \<noteq> [])"
      unfolding set1 by simp
    from h rc have c: "get_col d1 c_Codigo = Inr cods" by simp
    from S a b c have "get_col d2 c_Nome =
        Inr (map (\<lambda>t. VStr (ascii ''Categoria '' @ t)) (astype_str cods))" by blast
    with r(5) show "get_col r c_Nome =
        Inr (map (\<lambda>t. VStr (ascii ''Categoria '' @ t)) (astype_str cods))" by simp
  qed
  have 6: "c_Codigo \<notin> set (columns dados) \<and>
              find (\<lambda>col. col \<in> set (columns dados)) colunas_possiveis_codigo = None \<and>
              c_Nome \<notin> set (columns dados) \<longrightarrow>
                  get_col r c_Codigo = Inr (map (\<lambda>i. VInt (int i)) [1 ..< nrows dados + 1]) \<and>
                  (\<not> (\<exists>col \<in> insert c_Codigo (set (columns dados)).
                         contains (ascii ''nome'') (lw col) \<and> col \<noteq> []) \<longrightarrow>
                   get_col r c_Nome =
                     Inr (map (\<lambda>i. VStr (ascii ''Categoria '' @ str_int (int i)))
                              [1 ..< nrows dados + 1]))"
  proof (intro impI conjI)
    assume h: "c_Codigo \<notin> set (columns dados) \<and>
              find (\<lambda>col. col \<in> set (columns dados)) colunas_possiveis_codigo = None \<and>
              c_Nome \<notin> set (columns dados)"
    with D rc show cod: "get_col r c_Codigo = Inr (map (\<lambda>i. VInt (int i)) [1 ..< nrows dados + 1])"
      by simp
    assume n: "\<not> (\<exists>col \<in> insert c_Codigo (set (columns dados)).
                         contains (ascii ''nome'') (lw col) \<and> col \<noteq> [])"
    from 9 h n cod have "get_col r c_Nome =
        Inr (map (\<lambda>t. VStr (ascii ''Categoria '' @ t))
                 (astype_str (map (\<lambda>i. VInt (int i)) [1 ..< nrows dados + 1])))"
      by blast
    then show "get_col r c_Nome =
                     Inr (map (\<lambda>i. VStr (ascii ''Categoria '' @ str_int (int i)))
                              [1 ..< nrows dados + 1])"
      by (simp add: astype_str_inteiros comp_def)
  qed
  have 8: "\<forall>nome_col. c_Nome \<notin> set (columns dados) \<and>
                  (\<exists>col \<in> insert c_Codigo (set (columns dados)).
                      contains (ascii ''nome'') (lw col) \<and> col \<noteq> []) \<and>
                  find (\<lambda>col. contains (ascii ''nome'') (lw col))
                       (columns dados @
                          (if c_Codigo \<in> set (columns dados) then [] else [c_Codigo])) =
                    Some nome_col \<longrightarrow>
                  get_col r c_Nome =
                    (if nome_col = c_Codigo then get_col r c_Codigo else get_col dados nome_col)"
  proof (intro allI impI)
    fix nome_col
    assume h: "c_Nome \<notin> set (columns dados) \<and>
                  (\<exists>col \<in> insert c_Codigo (set (columns dados)).
                      contains (ascii ''nome'') (lw col) \<and> col \<noteq> []) \<and>
                  find (\<lambda>col. contains (ascii ''nome'') (lw col))
                       (columns dados @
                          (if c_Codigo \<in> set (columns dados) then [] else [c_Codigo])) =
                    Some nome_col"
    then have f: "find (\<lambda>col. contains (ascii ''nome'') (lw col)) (columns d1) = Some nome_col"
      unfolding d1(4) by simp
    then have "nome_col \<in> set (columns d1)" by (auto simp: find_Some_iff)
    with h nome1 have ne: "nome_col \<noteq> c_Nome" by auto
    from h nome1 have a: "c_Nome \<notin> set (columns d1)" by simp
    from h have b: "\<exists>col \<in> set (columns d1). contains (ascii ''nome'') (lw col) \<and> col \<noteq> []"
      unfolding set1 by simp
    from T a b f have "get_col d2 c_Nome = get_col d1 nome_col" by blast
    with r(5) have g: "get_col r c_Nome = get_col d1 nome_col" by simp
    show "get_col r c_Nome =
            (if nome_col = c_Codigo then get_col r c_Codigo else get_col dados nome_col)"
    proof (cases "nome_col = c_Codigo")
      case True
      with g rc show ?thesis by simp
    next
      case False
      with ne d1(5) have "get_col d1 nome_col = get_col dados nome_col" by simp
      with g False show ?thesis by simp
    qed
  qed
  have 7: "\<forall>v. \<not> (is_str v \<and> contains sep_hifen (py_str v)) \<longrightarrow>
                  separar_nome v = Inr ([], if v \<noteq> VNone then py_str v else [])"
    using separar_nome_sem_hifen by blast
  have 10: "\<forall>a b. \<not> contains sep_hifen (a @ butlast sep_hifen) \<longrightarrow>
                  separar_nome (VStr (a @ sep_hifen @ b)) = Inr (strip a, strip b)"
    using separar_nome_hifen by blast
  have 11: "sep_hifen = ascii '' - ''" by (simp add: sep_hifen_def)
  have 12: "colunas_possiveis_codigo =
               [ascii ''C'' @ [243] @ ascii ''digo'', ascii ''Code'', ascii ''ID'',
                ascii ''C'' @ [243] @ ascii ''digo Pai'']"
    by (simp add: colunas_possiveis_codigo_def c_Codigo_acento_def ascii_def)
  show ?thesis
    by (intro exI [of _ r] conjI) (fact r(1) 1 r(3) 0 2 3 4 5 6 8 9 7 10 11 12)+
qed

lemma separar_agua:
  "separar_nome (VStr txt_codigo_agua) = Inr (ascii ''2.2.1'', txt_agua)"
  "separar_nome (VStr txt_agua) = Inr ([], txt_agua)"
  "separar_nome (VStr txt_foo) = Inr ([], txt_foo)"
  "separar_nome (VStr []) = Inr ([], [])"
  by (simp_all add: separar_nome_def sep_hifen_def contains_def split1_def strip_def
      is_space_def txt_codigo_agua_def txt_agua_def txt_foo_def ascii_def)

lemma limpar_foo: "limpar_categoria (VStr txt_foo) = Inr (ascii ''1.2'', ascii ''Foo'')"
  by (simp add: limpar_categoria_def texto_de_def strip_def is_space_def separadores_def
      contains_def re_match_codigo_def codigo_numerico_def is_decimal_def nd_starts_def
      dot_plus_end_def txt_foo_def ascii_def)

text \<open>
  The claim as stated promises a non-blank code and a non-blank name on every row, the code
  coming from the decomposition of the name. A chart with only a \<open>Nome\<close> column gets the
  empty text as the code of every name without \<open>" - "\<close>, also of \<open>1.2 Foo\<close>, which the
  decomposition splits into the code \<open>1.2\<close> and the name \<open>Foo\<close>; and an empty name stays
  empty.
\<close>

theorem processar_categorias_codigo_em_branco:
  "processar_categorias lower_latin1 plano_so_nomes =
     Inr \<lparr>nrows = 4,
          cols = [(c_Codigo, [VStr (ascii ''2.2.1''), VStr [], VStr [], VStr []]),
                  (c_Nome, [VStr txt_agua, VStr txt_agua, VStr txt_foo, VStr []])]\<rparr> \<and>
   limpar_categoria (VStr txt_foo) = Inr (ascii ''1.2'', ascii ''Foo'')"
proof -
  let ?itens = "[VStr txt_codigo_agua, VStr txt_agua, VStr txt_foo, VStr []]"
  let ?pares = "[(ascii ''2.2.1'', txt_agua), ([], txt_agua), ([], txt_foo), ([], [])]"
  have cols: "columns plano_so_nomes = [c_Nome]"
    by (simp add: plano_so_nomes_def columns_def)
  have nc: "c_Codigo \<notin> set (columns plano_so_nomes)" "c_Nome \<in> set (columns plano_so_nomes)"
    using nomes_categorias by (simp_all add: cols)
  have f: "find (\<lambda>col. col \<in> set (columns plano_so_nomes)) colunas_possiveis_codigo = None"
    by (simp add: cols colunas_possiveis_codigo_def c_Codigo_acento_def c_Nome_def ascii_def)
  have g: "get_col plano_so_nomes c_Nome = Inr ?itens"
    by (simp add: get_col_def plano_so_nomes_def)
  have q: "sequence_err (map separar_nome ?itens) = Inr ?pares"
    by (simp add: separar_agua)
  let ?d1 = "\<lparr>nrows = 4,
          cols = [(c_Nome, [VStr txt_agua, VStr txt_agua, VStr txt_foo, VStr []]),
                  (c_Codigo, [VStr (ascii ''2.2.1''), VStr [], VStr [], VStr []])]\<rparr>"
  have "garantir_codigo plano_so_nomes =
          Inr (set_col (set_col plano_so_nomes c_Codigo (map (\<lambda>p. VStr (fst p)) ?pares))
                 c_Nome (map (\<lambda>p. VStr (snd p)) ?pares))"
    unfolding garantir_codigo_def
    by (simp only: nc f g q if_True if_False not_False_eq_True option.case sum.case)
  also have "set_col (set_col plano_so_nomes c_Codigo (map (\<lambda>p. VStr (fst p)) ?pares))
                 c_Nome (map (\<lambda>p. VStr (snd p)) ?pares) = ?d1"
    using nomes_categorias by (simp add: set_col_def columns_def plano_so_nomes_def)
  finally have 1: "garantir_codigo plano_so_nomes = Inr ?d1" .
  have c1: "columns ?d1 = [c_Nome, c_Codigo]" by (simp add: columns_def)
  have 2: "garantir_nome lower_latin1 ?d1 = Inr ?d1"
    by (simp add: garantir_nome_def c1)
  have 3: "colunas_finais lower_latin1 ?d1 = [c_Codigo, c_Nome]"
    by (simp add: colunas_finais_def c1)
  have 4: "select_cols ?d1 [c_Codigo, c_Nome] =
     Inr \<lparr>nrows = 4,
          cols = [(c_Codigo, [VStr (ascii ''2.2.1''), VStr [], VStr [], VStr []]),
                  (c_Nome, [VStr txt_agua, VStr txt_agua, VStr txt_foo, VStr []])]\<rparr>"
    using nomes_categorias by (simp add: select_cols_def c1)
  have "processar_categorias lower_latin1 plano_so_nomes =
     Inr \<lparr>nrows = 4,
          cols = [(c_Codigo, [VStr (ascii ''2.2.1''), VStr [], VStr [], VStr []]),
                  (c_Nome, [VStr txt_agua, VStr txt_agua, VStr txt_foo, VStr []])]\<rparr>"
    by (simp only: processar_categorias_def 1 2 3 4 sum.case)
  with limpar_foo show ?thesis by (intro conjI)
qed

lemma wf_plano_sem_nada: "wf_frame plano_sem_nada"
  by (simp add: wf_frame_def plano_sem_nada_def columns_def)

lemma wf_plano_codigos: "wf_frame plano_codigos"
  by (simp add: wf_frame_def plano_codigos_def columns_def)

lemma wf_plano_alias: "wf_frame plano_alias"
  by (simp add: wf_frame_def plano_alias_def columns_def c_Code_def c_NomeFantasia_def ascii_def)

lemma wf_plano_completo: "wf_frame plano_completo"
  using nomes_categorias by (simp add: wf_frame_def plano_completo_def columns_def)

lemma repr_float_7: "repr_float 7 0 = ascii ''7.0''"
  by (simp add: repr_float_def sem_zeros.simps [of 7] dec_digits.simps ascii_def)

lemma astype_str_codigos: "astype_str [VFloat 7 0, VNaN] = [ascii ''7.0'', ascii ''nan'']"
  by (simp add: astype_str_def repr_float_7)

lemma plano_sem_nada_hip:
  "c_Codigo \<notin> set (columns plano_sem_nada) \<and>
   find (\<lambda>col. col \<in> set (columns plano_sem_nada)) colunas_possiveis_codigo = None \<and>
   c_Nome \<notin> set (columns plano_sem_nada)"
  "\<not> (\<exists>col \<in> insert c_Codigo (set (columns plano_sem_nada)).
         contains (ascii ''nome'') (lower_latin1 col) \<and> col \<noteq> [])"
  by (simp_all add: plano_sem_nada_def columns_def colunas_possiveis_codigo_def
      c_Codigo_acento_def c_Codigo_def c_Nome_def lower_latin1_def contains_def ascii_def)

lemma plano_codigos_hip:
  "c_Codigo \<in> set (columns plano_codigos)"
  "get_col plano_codigos c_Codigo = Inr [VFloat 7 0, VNaN]"
  "c_Nome \<notin> set (columns plano_codigos) \<and>
   \<not> (\<exists>col \<in> insert c_Codigo (set (columns plano_codigos)).
         contains (ascii ''nome'') (lower_latin1 col) \<and> col \<noteq> [])"
  by (simp_all add: plano_codigos_def columns_def get_col_def)
     (simp_all add: c_Codigo_def c_Nome_def lower_latin1_def contains_def ascii_def)

lemma plano_alias_hip:
  "c_Codigo \<notin> set (columns plano_alias) \<and>
   find (\<lambda>col. col \<in> set (columns plano_alias)) colunas_possiveis_codigo = Some c_Code"
  "c_Nome \<notin> set (columns plano_alias) \<and>
   (\<exists>col \<in> insert c_Codigo (set (columns plano_alias)).
       contains (ascii ''nome'') (lower_latin1 col) \<and> col \<noteq> []) \<and>
   find (\<lambda>col. contains (ascii ''nome'') (lower_latin1 col))
        (columns plano_alias @ (if c_Codigo \<in> set (columns plano_alias) then [] else [c_Codigo])) =
     Some c_NomeFantasia"
  "c_NomeFantasia \<noteq> c_Codigo"
  "get_col plano_alias c_Code = Inr [VStr (ascii ''A1'')]"
  "get_col plano_alias c_NomeFantasia = Inr [VStr (ascii ''Caixa'')]"
  by (simp_all add: plano_alias_def columns_def get_col_def colunas_possiveis_codigo_def
      c_Codigo_acento_def c_Codigo_def c_Nome_def c_Code_def c_NomeFantasia_def
      lower_latin1_def contains_def ascii_def)

lemma wf_plano_dois_nomes: "wf_frame plano_dois_nomes"
  by (simp add: wf_frame_def plano_dois_nomes_def columns_def)

lemma list2: "length xs = 2 \<Longrightarrow> xs = [xs ! 0, xs ! 1]"
proof -
  assume "length xs = 2"
  then obtain a b where "xs = [a, b]"
    by (cases xs; cases "tl xs") (auto simp: numeral_2_eq_2)
  then show ?thesis by simp
qed

lemma plano_dois_nomes_hip:
  "c_Codigo \<notin> set (columns plano_dois_nomes) \<and>
   find (\<lambda>col. col \<in> set (columns plano_dois_nomes)) colunas_possiveis_codigo = None \<and>
   get_col plano_dois_nomes c_Nome = Inr [VStr txt_codigo_agua, VStr txt_agua]"
  by (simp add: plano_dois_nomes_def columns_def get_col_def colunas_possiveis_codigo_def
      c_Codigo_acento_def c_Codigo_def c_Nome_def ascii_def)

lemma textos_agua:
  "txt_codigo_agua = txt_221 @ sep_hifen @ txt_agua"
  "\<not> contains sep_hifen (txt_221 @ butlast sep_hifen)"
  "strip txt_221 = txt_221" "strip txt_agua = txt_agua"
  "\<not> (is_str (VStr txt_agua) \<and> contains sep_hifen (py_str (VStr txt_agua)))"
  by (simp_all add: txt_codigo_agua_def txt_221_def txt_agua_def sep_hifen_def contains_def
      strip_def is_space_def ascii_def)

lemma plano_completo_hip:
  "c_Codigo \<in> set (columns plano_completo)"
  "c_Nome \<in> set (columns plano_completo) \<and>
   (c_Codigo \<in> set (columns plano_completo) \<or>
    find (\<lambda>col. col \<in> set (columns plano_completo)) colunas_possiveis_codigo \<noteq> None)"
  "get_col plano_completo c_Codigo = Inr [VStr (ascii ''1.1'')]"
  "get_col plano_completo c_Nome = Inr [VStr (ascii ''Caixa - Geral'')]"
  using nomes_categorias by (simp_all add: plano_completo_def columns_def get_col_def)

text \<open>
  Five charts of accounts. With no code, alias or name column the codes are 1, 2 and the
  names \<open>Categoria 1\<close>, \<open>Categoria 2\<close>. With only the code column 7.0, NaN the codes are kept
  and the names are \<open>Categoria 7.0\<close>, \<open>Categoria nan\<close>. With the columns \<open>Code\<close> and
  \<open>Nome Fantasia\<close> the code is the alias and the name the column whose name contains
  \<open>nome\<close>. With both \<open>Codigo\<close> and \<open>Nome\<close> the name \<open>Caixa - Geral\<close> is not split. With
  only the names \<open>2.2.1 - AGUA\<close> and \<open>AGUA\<close> the first is split and the second gets the
  empty code.
\<close>

theorem processar_categorias_tabela_witness:
  "wf_frame plano_sem_nada \<and> wf_frame plano_codigos \<and> wf_frame plano_alias \<and>
   wf_frame plano_completo \<and>
   (\<exists>r. processar_categorias lower_latin1 plano_sem_nada = Inr r \<and> nrows r = 2 \<and>
        take 2 (columns r) = [c_Codigo, c_Nome] \<and>
        get_col r c_Codigo = Inr [VInt 1, VInt 2] \<and>
        get_col r c_Nome = Inr [VStr (ascii ''Categoria 1''), VStr (ascii ''Categoria 2'')]) \<and>
   (\<exists>r. processar_categorias lower_latin1 plano_codigos = Inr r \<and>
        get_col r c_Codigo = Inr [VFloat 7 0, VNaN] \<and>
        get_col r c_Nome = Inr [VStr (ascii ''Categoria 7.0''), VStr (ascii ''Categoria nan'')]) \<and>
   (\<exists>r. processar_categorias lower_latin1 plano_alias = Inr r \<and>
        get_col r c_Codigo = Inr [VStr (ascii ''A1'')] \<and>
        get_col r c_Nome = Inr [VStr (ascii ''Caixa'')]) \<and>
   (\<exists>r. processar_categorias lower_latin1 plano_completo = Inr r \<and>
        get_col r c_Codigo = Inr [VStr (ascii ''1.1'')] \<and>
        get_col r c_Nome = Inr [VStr (ascii ''Caixa - Geral'')]) \<and>
   wf_frame plano_dois_nomes \<and>
   (\<exists>r. processar_categorias lower_latin1 plano_dois_nomes = Inr r \<and>
        get_col r c_Codigo = Inr [VStr txt_221, VStr []] \<and>
        get_col r c_Nome = Inr [VStr txt_agua, VStr txt_agua])"
proof -
  have A: "\<exists>r. processar_categorias lower_latin1 plano_sem_nada = Inr r \<and> nrows r = 2 \<and>
        take 2 (columns r) = [c_Codigo, c_Nome] \<and>
        get_col r c_Codigo = Inr [VInt 1, VInt 2] \<and>
        get_col r c_Nome = Inr [VStr (ascii ''Categoria 1''), VStr (ascii ''Categoria 2'')]"
  proof -
    have n: "nrows plano_sem_nada = 2" by (simp add: plano_sem_nada_def)
    from processar_categorias_tabela [OF wf_plano_sem_nada, of lower_latin1] obtain r where
      r: "processar_categorias lower_latin1 plano_sem_nada = Inr r"
         "nrows r = nrows plano_sem_nada" "take 2 (columns r) = [c_Codigo, c_Nome]"
      and D: "c_Codigo \<notin> set (columns plano_sem_nada) \<and>
              find (\<lambda>col. col \<in> set (columns plano_sem_nada)) colunas_possiveis_codigo = None \<and>
              c_Nome \<notin> set (columns plano_sem_nada) \<longrightarrow>
                  get_col r c_Codigo = Inr (map (\<lambda>i. VInt (int i)) [1 ..< nrows plano_sem_nada + 1]) \<and>
                  (\<not> (\<exists>col \<in> insert c_Codigo (set (columns plano_sem_nada)).
                         contains (ascii ''nome'') (lower_latin1 col) \<and> col \<noteq> []) \<longrightarrow>
                   get_col r c_Nome =
                     Inr (map (\<lambda>i. VStr (ascii ''Categoria '' @ str_int (int i)))
                              [1 ..< nrows plano_sem_nada + 1]))"
      by (elim exE conjE)
    have u: "[1 ..< nrows plano_sem_nada + 1] = [1, 2]"
      by (simp add: n upt_rec)
    from D plano_sem_nada_hip have "get_col r c_Codigo = Inr (map (\<lambda>i. VInt (int i)) [1, 2])"
      "get_col r c_Nome = Inr (map (\<lambda>i. VStr (ascii ''Categoria '' @ str_int (int i))) [1, 2])"
      unfolding u by blast+
    then have g: "get_col r c_Codigo = Inr [VInt 1, VInt 2]"
      "get_col r c_Nome = Inr [VStr (ascii ''Categoria 1''), VStr (ascii ''Categoria 2'')]"
      by (simp_all add: str_int_def dec_digits.simps ascii_def)
    have n2: "nrows r = 2" using r(2) n by simp
    show ?thesis
      by (intro conjI exI [of _ r]) (fact r(1) n2 r(3) g(1) g(2))+
  qed
  have B: "\<exists>r. processar_categorias lower_latin1 plano_codigos = Inr r \<and>
        get_col r c_Codigo = Inr [VFloat 7 0, VNaN] \<and>
        get_col r c_Nome = Inr [VStr (ascii ''Categoria 7.0''), VStr (ascii ''Categoria nan'')]"
  proof -
    from processar_categorias_tabela [OF wf_plano_codigos, of lower_latin1] obtain r where
      r: "processar_categorias lower_latin1 plano_codigos = Inr r"
      and K: "c_Codigo \<in> set (columns plano_codigos) \<longrightarrow>
                get_col r c_Codigo = get_col plano_codigos c_Codigo"
      and N: "\<forall>cods. c_Nome \<notin> set (columns plano_codigos) \<and>
                  \<not> (\<exists>col \<in> insert c_Codigo (set (columns plano_codigos)).
                         contains (ascii ''nome'') (lower_latin1 col) \<and> col \<noteq> []) \<and>
                  get_col r c_Codigo = Inr cods \<longrightarrow>
                  get_col r c_Nome =
                    Inr (map (\<lambda>t. VStr (ascii ''Categoria '' @ t)) (astype_str cods))"
      by (elim exE conjE)
    from K plano_codigos_hip(1,2) have c: "get_col r c_Codigo = Inr [VFloat 7 0, VNaN]" by simp
    from N plano_codigos_hip(3) c have "get_col r c_Nome =
        Inr (map (\<lambda>t. VStr (ascii ''Categoria '' @ t)) (astype_str [VFloat 7 0, VNaN]))"
      by blast
    then have "get_col r c_Nome =
        Inr [VStr (ascii ''Categoria 7.0''), VStr (ascii ''Categoria nan'')]"
      by (simp add: astype_str_codigos ascii_def)
    with r c show ?thesis by (intro exI [of _ r] conjI)
  qed
  have C: "\<exists>r. processar_categorias lower_latin1 plano_alias = Inr r \<and>
        get_col r c_Codigo = Inr [VStr (ascii ''A1'')] \<and>
        get_col r c_Nome = Inr [VStr (ascii ''Caixa'')]"
  proof -
    from processar_categorias_tabela [OF wf_plano_alias, of lower_latin1] obtain r where
      r: "processar_categorias lower_latin1 plano_alias = Inr r"
      and K: "\<forall>a. c_Codigo \<notin> set (columns plano_alias) \<and>
                  find (\<lambda>col. col \<in> set (columns plano_alias)) colunas_possiveis_codigo = Some a \<longrightarrow>
                  get_col r c_Codigo = get_col plano_alias a"
      and N: "\<forall>nome_col. c_Nome \<notin> set (columns plano_alias) \<and>
                  (\<exists>col \<in> insert c_Codigo (set (columns plano_alias)).
                      contains (ascii ''nome'') (lower_latin1 col) \<and> col \<noteq> []) \<and>
                  find (\<lambda>col. contains (ascii ''nome'') (lower_latin1 col))
                       (columns plano_alias @
                          (if c_Codigo \<in> set (columns plano_alias) then [] else [c_Codigo])) =
                    Some nome_col \<longrightarrow>
                  get_col r c_Nome =
                    (if nome_col = c_Codigo then get_col r c_Codigo
                     else get_col plano_alias nome_col)"
      by (elim exE conjE)
    from K plano_alias_hip(1) have "get_col r c_Codigo = get_col plano_alias c_Code" by blast
    then have c: "get_col r c_Codigo = Inr [VStr (ascii ''A1'')]"
      using plano_alias_hip(4) by simp
    from N plano_alias_hip(2) have "get_col r c_Nome =
        (if c_NomeFantasia = c_Codigo then get_col r c_Codigo
         else get_col plano_alias c_NomeFantasia)" by blast
    then have "get_col r c_Nome = Inr [VStr (ascii ''Caixa'')]"
      using plano_alias_hip(3,5) by simp
    with r c show ?thesis by (intro exI [of _ r] conjI)
  qed
  have E: "\<exists>r. processar_categorias lower_latin1 plano_completo = Inr r \<and>
        get_col r c_Codigo = Inr [VStr (ascii ''1.1'')] \<and>
        get_col r c_Nome = Inr [VStr (ascii ''Caixa - Geral'')]"
  proof -
    from processar_categorias_tabela [OF wf_plano_completo, of lower_latin1] obtain r where
      r: "processar_categorias lower_latin1 plano_completo = Inr r"
      and K: "c_Codigo \<in> set (columns plano_completo) \<longrightarrow>
                get_col r c_Codigo = get_col plano_completo c_Codigo"
      and N: "c_Nome \<in> set (columns plano_completo) \<and>
              (c_Codigo \<in> set (columns plano_completo) \<or>
               find (\<lambda>col. col \<in> set (columns plano_completo)) colunas_possiveis_codigo \<noteq> None) \<longrightarrow>
                  get_col r c_Nome = get_col plano_completo c_Nome"
      by (elim exE conjE)
    from K plano_completo_hip(1,3) have c: "get_col r c_Codigo = Inr [VStr (ascii ''1.1'')]"
      by simp
    from N plano_completo_hip(2) have "get_col r c_Nome = get_col plano_completo c_Nome"
      by (rule mp)
    then have "get_col r c_Nome = Inr [VStr (ascii ''Caixa - Geral'')]"
      using plano_completo_hip(4) by simp
    with r c show ?thesis by (intro exI [of _ r] conjI)
  qed
  have F: "\<exists>r. processar_categorias lower_latin1 plano_dois_nomes = Inr r \<and>
        get_col r c_Codigo = Inr [VStr txt_221, VStr []] \<and>
        get_col r c_Nome = Inr [VStr txt_agua, VStr txt_agua]"
  proof -
    let ?itens = "[VStr txt_codigo_agua, VStr txt_agua]"
    from processar_categorias_tabela [OF wf_plano_dois_nomes, of lower_latin1] obtain r where
      r: "processar_categorias lower_latin1 plano_dois_nomes = Inr r"
      and K: "\<forall>itens. c_Codigo \<notin> set (columns plano_dois_nomes) \<and>
                  find (\<lambda>col. col \<in> set (columns plano_dois_nomes)) colunas_possiveis_codigo = None \<and>
                  get_col plano_dois_nomes c_Nome = Inr itens \<longrightarrow>
                  (\<exists>pares. length pares = length itens \<and>
                     (\<forall>i < length itens. separar_nome (itens ! i) = Inr (pares ! i)) \<and>
                     get_col r c_Codigo = Inr (map (\<lambda>p. VStr (fst p)) pares) \<and>
                     get_col r c_Nome = Inr (map (\<lambda>p. VStr (snd p)) pares))"
      and S: "\<forall>v. \<not> (is_str v \<and> contains sep_hifen (py_str v)) \<longrightarrow>
                  separar_nome v = Inr ([], if v \<noteq> VNone then py_str v else [])"
      and T: "\<forall>a b. \<not> contains sep_hifen (a @ butlast sep_hifen) \<longrightarrow>
                  separar_nome (VStr (a @ sep_hifen @ b)) = Inr (strip a, strip b)"
      by (elim exE conjE)
    from K [rule_format, OF plano_dois_nomes_hip] obtain pares where
      p: "length pares = length ?itens"
         "\<forall>i < length ?itens. separar_nome (?itens ! i) = Inr (pares ! i)"
         "get_col r c_Codigo = Inr (map (\<lambda>p. VStr (fst p)) pares)"
         "get_col r c_Nome = Inr (map (\<lambda>p. VStr (snd p)) pares)"
      by (elim exE conjE)
    from T [rule_format, OF textos_agua(2), of txt_agua]
    have s0: "separar_nome (VStr txt_codigo_agua) = Inr (txt_221, txt_agua)"
      by (simp only: textos_agua(1,3,4))
    from S [rule_format, OF textos_agua(5)]
    have s1: "separar_nome (VStr txt_agua) = Inr ([], txt_agua)" by simp
    have i0: "0 < length ?itens" and i1: "1 < length ?itens" by simp_all
    from p(2) [rule_format, OF i0] s0 have 0: "pares ! 0 = (txt_221, txt_agua)" by simp
    from p(2) [rule_format, OF i1] s1 have 1: "pares ! 1 = ([], txt_agua)" by simp
    have "length pares = 2" using p(1) by simp
    then have "pares = [pares ! 0, pares ! 1]" by (rule list2)
    then have "pares = [(txt_221, txt_agua), ([], txt_agua)]" by (simp only: 0 1)
    with p(3,4) have g: "get_col r c_Codigo = Inr [VStr txt_221, VStr []]"
      "get_col r c_Nome = Inr [VStr txt_agua, VStr txt_agua]" by simp_all
    from r g show ?thesis by (intro exI [of _ r] conjI)
  qed
  show ?thesis
    by (intro conjI) (fact wf_plano_sem_nada wf_plano_codigos wf_plano_alias wf_plano_completo
        wf_plano_dois_nomes A B C E F)+
qed

section \<open>Accounts and their opening dates\<close>

lemmas strptime_eval = strptime_def campo_dia_def campo_mes_def campo_ano_def barra_def
  is_decimal_def nd_starts_def valor_digito_def data_valida_def no_intervalo_def data_le_def
  dias_no_mes_def bissexto_def ascii_def

lemma strptime_mdy_texto:
  "strptime DMY (ascii ''12/25/2024'') = None"
  "strptime MDY (ascii ''12/25/2024'') = Some (Date 2024 12 25)"
  by (simp_all add: strptime_eval)

lemma strptime_dmy_texto:
  "strptime DMY (ascii ''15/03/2024'') = Some (Date 2024 3 15)"
  "strptime DMY (ascii ''01/03/2024'') = Some (Date 2024 3 1)"
  by (simp_all add: strptime_eval)

lemma converter_datas_mdy:
  "converter_datas inferir [VStr (ascii ''12/25/2024'')] = [VNaT]"
  by (simp add: converter_datas_def strptime_mdy_texto)

lemma converter_datas_dmy:
  "converter_datas inferir [VStr (ascii ''15/03/2024''), VStr (ascii ''01/03/2024'')] =
     [VData (Date 2024 3 15), VData (Date 2024 3 1)]"
  by (simp add: converter_datas_def strptime_dmy_texto)


lemma colunas_lancamentos_mdy:
  "filter (\<lambda>col. contains (ascii ''conta'') (lower_latin1 col) \<or>
                 contains (ascii ''banco'') (lower_latin1 col)) (columns lancamentos_mdy) =
     [ascii ''Conta'']"
  "filter (\<lambda>col. contains (ascii ''data'') (lower_latin1 col) \<and>
                 lower_latin1 col \<noteq> ascii ''datacompetencia'') (columns lancamentos_mdy) =
     [c_Data]"
  by (simp_all add: lancamentos_mdy_def columns_def c_Data_def lower_latin1_def contains_def
      ascii_def)

lemma get_col_lancamentos_mdy:
  "get_col lancamentos_mdy c_Data = Inr [VStr (ascii ''12/25/2024'')]"
  "get_col (set_col lancamentos_mdy c_Data [VNaT]) (ascii ''Conta'') = Inr [VStr txt_banco_a]"
  "get_col (set_col lancamentos_mdy c_Data [VNaT]) c_Data = Inr [VNaT]"
  by (simp_all add: get_col_set_col)
     (simp_all add: get_col_def lancamentos_mdy_def c_Data_def ascii_def)

text \<open>
  Claim C9. The first conversion overwrites the date column with its own result, so when no
  date is in the day/month/year style the column holds only \<open>NaT\<close> and the month/day/year
  and automatic conversions, which read the overwritten column, have nothing left to parse.
  A transaction of account \<open>Banco A\<close> dated \<open>12/25/2024\<close>, which the second format does
  parse as 25 December 2024, leaves the account with a blank opening date, whatever the
  automatic detection would do.
\<close>

theorem processar_contas_correntes_formato_perdido:
  "processar_contas_correntes lower_latin1 inferir lancamentos_mdy =
     Inr \<lparr>nrows = 1,
          cols = [(c_Nome, [VStr txt_banco_a]), (c_Tipo, [VInt 1]),
                  (c_Ativo, [VStr (ascii ''Sim'')]), (c_DataInicial, [VStr []]),
                  (c_Codigo, [VInt 1])]\<rparr> \<and>
   strptime MDY (ascii ''12/25/2024'') = Some (Date 2024 12 25)"
proof -
  have u: "unique (dropna [VStr txt_banco_a]) = [VStr txt_banco_a]"
    by (simp add: dropna_def)
  have d: "data_inicial (VStr txt_banco_a) [VStr txt_banco_a] [VNaT] = Inr []"
    by (simp add: data_inicial_def)
  have "processar_contas_correntes lower_latin1 inferir lancamentos_mdy =
     Inr \<lparr>nrows = 1,
          cols = [(c_Nome, [VStr txt_banco_a]), (c_Tipo, [VInt 1]),
                  (c_Ativo, [VStr (ascii ''Sim'')]), (c_DataInicial, [VStr []]),
                  (c_Codigo, [VInt 1])]\<rparr>"
    unfolding processar_contas_correntes_def
    by (simp add: colunas_lancamentos_mdy get_col_lancamentos_mdy converter_datas_mdy u d
        Let_def)
  with strptime_mdy_texto(2) show ?thesis by simp
qed

text \<open>
  With dates in the day/month/year style the opening date is the day before the earliest
  one: 15 and 1 March 2024 give 29 February 2024.
\<close>

lemma colunas_lancamentos_dmy:
  "filter (\<lambda>col. contains (ascii ''conta'') (lower_latin1 col) \<or>
                 contains (ascii ''banco'') (lower_latin1 col)) (columns lancamentos_dmy) =
     [ascii ''Conta'']"
  "filter (\<lambda>col. contains (ascii ''data'') (lower_latin1 col) \<and>
                 lower_latin1 col \<noteq> ascii ''datacompetencia'') (columns lancamentos_dmy) =
     [c_Data]"
  by (simp_all add: lancamentos_dmy_def columns_def c_Data_def lower_latin1_def contains_def
      ascii_def)

lemma get_col_lancamentos_dmy:
  "get_col lancamentos_dmy c_Data = Inr [VStr (ascii ''15/03/2024''), VStr (ascii ''01/03/2024'')]"
  "get_col (set_col lancamentos_dmy c_Data vs) (ascii ''Conta'') =
     Inr [VStr txt_banco_a, VStr txt_banco_a]"
  "get_col (set_col lancamentos_dmy c_Data vs) c_Data = Inr vs"
  by (simp_all add: get_col_set_col)
     (simp_all add: get_col_def lancamentos_dmy_def c_Data_def ascii_def)

lemma processar_contas_correntes_dmy:
  "processar_contas_correntes lower_latin1 inferir lancamentos_dmy =
     Inr \<lparr>nrows = 1,
          cols = [(c_Nome, [VStr txt_banco_a]), (c_Tipo, [VInt 1]),
                  (c_Ativo, [VStr (ascii ''Sim'')]),
                  (c_DataInicial, [VStr (ascii ''29/02/2024'')]),
                  (c_Codigo, [VInt 1])]\<rparr>"
proof -
  have u: "unique (dropna [VStr txt_banco_a, VStr txt_banco_a]) = [VStr txt_banco_a]"
    by (simp add: dropna_def)
  have d: "data_inicial (VStr txt_banco_a) [VStr txt_banco_a, VStr txt_banco_a]
             [VData (Date 2024 3 15), VData (Date 2024 3 1)] = Inr (ascii ''29/02/2024'')"
    by (simp add: data_inicial_def data_le_def dia_anterior_def dias_no_mes_def bissexto_def
        no_intervalo_def strftime_dmy_def pad_def dec_digits.simps ascii_def)
  have d': "data_inicial (VStr txt_banco_a) [VStr txt_banco_a, VStr txt_banco_a]
             [VData (Date 2024 3 15), VData (Date 2024 3 (Suc 0))] = Inr (ascii ''29/02/2024'')"
    using d by simp
  show ?thesis
    unfolding processar_contas_correntes_def
    by (simp add: colunas_lancamentos_dmy get_col_lancamentos_dmy converter_datas_dmy u d'
        Let_def)
qed

end
